(* ===== verification/Prelude.thy ===== *)
theory Prelude
  imports Main
begin

text \<open>
  Shared vocabulary of the development: the JavaScript idioms that every component of the
  React client uses, written once as HOL functions.
  \<^item> \<open>js_or\<close> is the idiom \<^verbatim>\<open>x || 'default'\<close> on a string that may be missing
    (\<^verbatim>\<open>undefined\<close>/\<^verbatim>\<open>null\<close> as \<open>None\<close>); the empty string is falsy as well.
  \<^item> \<open>field\<close> is the value of a React state variable that holds either the text of an
    \<^verbatim>\<open><input>\<close> or a number read from storage; \<open>truthy\<close> is JavaScript's
    truthiness on it and \<open>to_number\<close> is \<^verbatim>\<open>Number(v)\<close>.
  \<^item> \<open>js_Number\<close> and \<open>js_String\<close> convert between decimal strings and integer numbers,
    as \<^verbatim>\<open>Number(s)\<close> and template literals \<^verbatim>\<open>`${n}`\<close> do on integer ids.
  \<^item> \<open>json\<close> is a JSON value, \<open>json_of_number\<close> is what \<^verbatim>\<open>JSON.stringify\<close> writes for a
    number (\<^verbatim>\<open>NaN\<close> becomes \<^verbatim>\<open>null\<close>).
  The collection \<open>js_simps\<close> holds the evaluation rules of these idioms; component proofs
  use it with \<open>simp add: js_simps\<close>.
\<close>

named_theorems js_simps "evaluation rules of the JavaScript idioms of the client"
named_theorems handler_defs "definitions of React event handlers, unfolded by component proofs"

section \<open>The default-value idiom\<close>

fun js_or :: "string option \<Rightarrow> string \<Rightarrow> string" where
  "js_or None d = d"
| "js_or (Some s) d = (if s = [] then d else s)"

text \<open>The em dash (U+2014) the client renders for a missing value, as its UTF-8 bytes.\<close>

definition em_dash :: string where
  "em_dash = map char_of [226::nat, 128, 148]"

section \<open>Form fields, truthiness and numbers\<close>

datatype js_number = Num int | NaN

datatype field = FStr string | FNum int

fun truthy :: "field \<Rightarrow> bool" where
  "truthy (FStr s) = (s \<noteq> [])"
| "truthy (FNum n) = (n \<noteq> 0)"

text \<open>Decimal digits, most significant first.\<close>

definition digit_char :: "nat \<Rightarrow> char" where
  "digit_char d = char_of (48 + d)"

fun nat_digits :: "nat \<Rightarrow> string" where
  "nat_digits n = (if n < 10 then [digit_char n] else nat_digits (n div 10) @ [digit_char (n mod 10)])"

declare nat_digits.simps [simp del]

definition js_String :: "int \<Rightarrow> string" where
  "js_String i = (if i < 0 then CHR ''-'' # nat_digits (nat (- i)) else nat_digits (nat i))"

definition char_digit :: "char \<Rightarrow> nat option" where
  "char_digit c = (let k = of_char c :: nat in if 48 \<le> k \<and> k < 58 then Some (k - 48) else None)"

fun digits_val :: "nat \<Rightarrow> string \<Rightarrow> nat option" where
  "digits_val acc [] = Some acc"
| "digits_val acc (c # cs) =
     (case char_digit c of None \<Rightarrow> None | Some d \<Rightarrow> digits_val (10 * acc + d) cs)"

text \<open>
  \<^verbatim>\<open>Number(s)\<close> on the strings an \<^verbatim>\<open><input type="number">\<close> holds for an id: the empty
  string is \<open>0\<close>, an optional sign followed by decimal digits is that integer, anything
  else is \<^verbatim>\<open>NaN\<close>. Fractions and exponent notation are outside this model (ids are
  integers).
\<close>

definition signed_digits :: "bool \<Rightarrow> string \<Rightarrow> js_number" where
  "signed_digits neg cs =
     (if cs = [] then NaN
      else case digits_val 0 cs of None \<Rightarrow> NaN | Some n \<Rightarrow> Num (if neg then - int n else int n))"

fun js_Number :: "string \<Rightarrow> js_number" where
  "js_Number [] = Num 0"
| "js_Number (c # cs) =
     (if c = CHR ''-'' then signed_digits True cs
      else if c = CHR ''+'' then signed_digits False cs
      else signed_digits False (c # cs))"

fun to_number :: "field \<Rightarrow> js_number" where
  "to_number (FStr s) = js_Number s"
| "to_number (FNum n) = Num n"

fun number_text :: "js_number \<Rightarrow> string" where
  "number_text (Num i) = js_String i"
| "number_text NaN = ''NaN''"

section \<open>JSON values\<close>

datatype json =
    JNull
  | JBool bool
  | JInt int
  | JStr string
  | JArr "json list"
  | JObj "(string \<times> json) list"

fun json_of_number :: "js_number \<Rightarrow> json" where
  "json_of_number (Num i) = JInt i"
| "json_of_number NaN = JNull"

definition json_get :: "json \<Rightarrow> string \<Rightarrow> json option" where
  "json_get j k = (case j of JObj kvs \<Rightarrow> map_of kvs k | _ \<Rightarrow> None)"

section \<open>Lists of in-flight requests\<close>

text \<open>Removing the \<open>i\<close>-th element: a response, delivered in any order, leaves the list.\<close>

definition remove_nth :: "nat \<Rightarrow> 'a list \<Rightarrow> 'a list" where
  "remove_nth i xs = take i xs @ drop (Suc i) xs"

section \<open>Generic lemmas\<close>

lemma length_remove_nth [simp]: "i < length xs \<Longrightarrow> length (remove_nth i xs) = length xs - 1"
  by (simp add: remove_nth_def)

lemma set_remove_nth_subset: "set (remove_nth i xs) \<subseteq> set xs"
  unfolding remove_nth_def using set_take_subset set_drop_subset by fastforce

lemma in_remove_nth: "x \<in> set (remove_nth i xs) \<Longrightarrow> x \<in> set xs"
  by (rule subsetD [OF set_remove_nth_subset])

lemma length_filter_remove_nth:
  assumes "i < length xs"
  shows "length (filter P (remove_nth i xs)) + (if P (xs ! i) then 1 else 0) = length (filter P xs)"
proof -
  from assms have "xs = take i xs @ xs ! i # drop (Suc i) xs" by (simp add: id_take_nth_drop)
  then have "length (filter P xs) = length (filter P (take i xs @ xs ! i # drop (Suc i) xs))" by simp
  then show ?thesis by (simp add: remove_nth_def)
qed

lemma js_or_nonempty [simp]: "d \<noteq> [] \<Longrightarrow> js_or x d \<noteq> []"
  by (cases x) auto

lemma js_or_Some_nonempty [js_simps]: "s \<noteq> [] \<Longrightarrow> js_or (Some s) d = s"
  by simp

lemma char_digit_digit_char [simp]: "d < 10 \<Longrightarrow> char_digit (digit_char d) = Some d"
  by (simp add: char_digit_def digit_char_def)

lemma digits_val_append:
  "digits_val acc (xs @ ys) = (case digits_val acc xs of None \<Rightarrow> None | Some a \<Rightarrow> digits_val a ys)"
  by (induction acc xs rule: digits_val.induct) (auto split: option.split)

lemma digits_val_nat_digits: "digits_val 0 (nat_digits n) = Some n"
proof (induction n rule: nat_digits.induct)
  case (1 n)
  show ?case
  proof (cases "n < 10")
    case True
    then show ?thesis by (simp add: nat_digits.simps [of n])
  next
    case False
    with "1.IH" have "digits_val 0 (nat_digits (n div 10)) = Some (n div 10)" by simp
    with False show ?thesis by (simp add: nat_digits.simps [of n] digits_val_append)
  qed
qed

lemma nat_digits_ne [simp]: "nat_digits n \<noteq> []"
  by (subst nat_digits.simps) simp

lemma hd_nat_digits_digit: "char_digit (hd (nat_digits n)) \<noteq> None"
proof (induction n rule: nat_digits.induct)
  case (1 n)
  then show ?case by (cases "n < 10") (simp_all add: nat_digits.simps [of n])
qed

lemma nat_digits_digit: "c \<in> set (nat_digits n) \<Longrightarrow> char_digit c \<noteq> None"
proof (induction n rule: nat_digits.induct)
  case (1 n)
  then show ?case by (cases "n < 10") (auto simp: nat_digits.simps [of n])
qed

lemma js_String_not_Nil [simp]: "js_String i \<noteq> []"
  by (simp add: js_String_def)

lemma slash_notin_js_String: "CHR ''/'' \<notin> set (js_String i)"
proof -
  have "CHR ''/'' \<notin> set (nat_digits n)" for n
    using nat_digits_digit [of "CHR ''/''" n] by (auto simp: char_digit_def)
  then show ?thesis by (simp add: js_String_def)
qed

lemma nat_digits_not_sign:
  "hd (nat_digits n) \<noteq> CHR ''-''" "hd (nat_digits n) \<noteq> CHR ''+''"
  using hd_nat_digits_digit [of n] by (auto simp: char_digit_def)

lemma js_Number_nat_digits: "js_Number (nat_digits n) = Num (int n)"
proof -
  obtain c cs where cs: "nat_digits n = c # cs" by (cases "nat_digits n") auto
  with nat_digits_not_sign [of n] have "c \<noteq> CHR ''-''" "c \<noteq> CHR ''+''" by simp_all
  with cs digits_val_nat_digits [of n] show ?thesis by (simp add: signed_digits_def)
qed

lemma js_Number_js_String: "js_Number (js_String i) = Num i"
proof (cases "i < 0")
  case True
  then have "js_String i = CHR ''-'' # nat_digits (nat (- i))" by (simp add: js_String_def)
  moreover have "digits_val 0 (nat_digits (nat (- i))) = Some (nat (- i))"
    by (rule digits_val_nat_digits)
  ultimately show ?thesis using True by (simp add: signed_digits_def)
next
  case False
  then show ?thesis by (simp add: js_String_def js_Number_nat_digits)
qed

lemmas js_number_lemmas [js_simps] = js_Number_nat_digits digits_val_nat_digits js_Number_js_String

end
