(* ===== verification/Gateway.thy ===== *)
theory Gateway
  imports Prelude
begin

text \<open>
  The Gateway Client, \<^verbatim>\<open>src/frontend/src/api/api.js\<close>: one axios call per server
  capability, all against the base URL \<^verbatim>\<open>http://127.0.0.1:5000/api\<close>. A call is modelled
  by the HTTP request it sends (\<open>request\<close>: method, path below the base URL, query
  parameters, JSON body). The outcome of a call is an \<open>'a api_result\<close>, where \<open>'a\<close> is
  the success shape the server interface gives for that call (a \<open>book\<close> for
  \<^verbatim>\<open>getBook\<close>, the \<^verbatim>\<open>summary\<close> field of the body for \<^verbatim>\<open>summarize\<close>, and so on): a success, a \<^emph>\<open>request error\<close> (the server answered with a non-success
  status and perhaps an \<^verbatim>\<open>{error}\<close> envelope) or a \<^emph>\<open>transport error\<close> (no response).
  \<open>server_error\<close> is the expression \<^verbatim>\<open>err.response?.data?.error\<close> that every catch block
  of the client reads, and \<open>fail_message\<close> its \<^verbatim>\<open>|| 'X failed'\<close> default.
\<close>

section \<open>Data model\<close>

record user =
  user_id :: int
  user_name :: string
  email :: string

record book =
  book_id :: int
  title :: string
  author :: string
  genre :: "string option"
  summary :: "string option"
  ai_summary :: "string option"
  total_copies :: int
  available_copies :: int

record booking =
  booking_id :: int
  booking_user :: int
  booking_book :: int
  status :: string
  booking_date :: int

datatype 'a api_result = Success 'a | RequestError "string option" | TransportError

section \<open>Requests\<close>

datatype http_method = GET | POST

record request =
  req_method :: http_method
  req_path :: string
  req_params :: "(string \<times> string) list"
  req_body :: "json option"

definition baseURL :: string where
  "baseURL = ''http://127.0.0.1:5000/api''"

definition req_url :: "request \<Rightarrow> string" where
  "req_url r = baseURL @ req_path r"

definition api_get :: "string \<Rightarrow> (string \<times> string) list \<Rightarrow> request" where
  "api_get p ps = \<lparr>req_method = GET, req_path = p, req_params = ps, req_body = None\<rparr>"

definition api_post :: "string \<Rightarrow> json \<Rightarrow> request" where
  "api_post p b = \<lparr>req_method = POST, req_path = p, req_params = [], req_body = Some b\<rparr>"

text \<open>
  The exported functions of \<^verbatim>\<open>api.js\<close>. An argument that JavaScript may pass as
  \<^verbatim>\<open>undefined\<close> is an option; \<^verbatim>\<open>q ? {q} : {}\<close> sends the parameter only for a truthy
  \<open>q\<close>.
\<close>

definition getBooks :: "string option \<Rightarrow> request" where
  "getBooks q = api_get ''/books/'' (case q of Some s \<Rightarrow> if s \<noteq> [] then [(''q'', s)] else [] | None \<Rightarrow> [])"

definition getBook :: "string \<Rightarrow> request" where
  "getBook bid = api_get (''/books/'' @ bid) []"

definition createBook :: "json \<Rightarrow> request" where
  "createBook payload = api_post ''/books/'' payload"

definition summarize :: "json \<Rightarrow> request" where
  "summarize textOrBook = api_post ''/books/summarize'' textOrBook"

definition recommend :: "string \<Rightarrow> request" where
  "recommend query = api_post ''/books/recommend'' (JObj [(''query'', JStr query)])"

definition createUser :: "json \<Rightarrow> request" where
  "createUser payload = api_post ''/users/'' payload"

definition getUsers :: request where
  "getUsers = api_get ''/users/'' []"

definition createBooking :: "json \<Rightarrow> request" where
  "createBooking payload = api_post ''/bookings/'' payload"

definition getUserBookings :: "js_number \<Rightarrow> request" where
  "getUserBookings uid = api_get (''/bookings/user/'' @ number_text uid) []"

lemmas api_defs = getBooks_def getBook_def createBook_def summarize_def recommend_def
  createUser_def getUsers_def createBooking_def getUserBookings_def api_get_def api_post_def

section \<open>Reading responses and errors\<close>

fun server_error :: "'a api_result \<Rightarrow> string option" where
  "server_error (RequestError e) = e"
| "server_error TransportError = None"
| "server_error (Success _) = None"

definition fail_message :: "'a api_result \<Rightarrow> string \<Rightarrow> string" where
  "fail_message r d = js_or (server_error r) d"

text \<open>Example data of the interface, used by the witnesses: user 5 and book 12 with three of its
  four copies available.\<close>

definition ex_user :: user where
  "ex_user = \<lparr>user_id = 5, user_name = ''Ada'', email = ''ada@example.org''\<rparr>"

definition ex_book :: book where
  "ex_book = \<lparr>book_id = 12, title = ''The Hound of the Baskervilles'', author = ''Arthur Conan Doyle'',
     genre = Some ''Mystery'', summary = Some ''A detective story.'', ai_summary = None,
     total_copies = 4, available_copies = 3\<rparr>"

definition ex_booking :: booking where
  "ex_booking = \<lparr>booking_id = 1, booking_user = 5, booking_book = 12, status = ''active'',
     booking_date = 1700000000\<rparr>"

lemma fail_message_simps [simp]:
  "fail_message (RequestError e) d = js_or e d"
  "fail_message TransportError d = d"
  by (simp_all add: fail_message_def)

lemma fail_message_nonempty [simp]: "d \<noteq> [] \<Longrightarrow> fail_message r d \<noteq> []"
  by (simp add: fail_message_def)

end
