(* ===== verification/Session.thy ===== *)
theory Session
  imports Gateway
begin

text \<open>
  The Session Store. The client keeps the identity of the logged-in user in
  \<^verbatim>\<open>localStorage\<close> under the key \<^verbatim>\<open>'user'\<close>; it is written and removed only by the
  Login page (\<^verbatim>\<open>src/frontend/src/pages/Login.jsx\<close>) and read by every component that
  needs a user id (\<^verbatim>\<open>BookingForm.jsx\<close>, \<^verbatim>\<open>MyBookings.jsx\<close>). The storage is a map from
  keys to the stored user; the JSON text in between (\<^verbatim>\<open>JSON.stringify\<close> on write,
  \<^verbatim>\<open>JSON.parse\<close> on read) is taken to give back the stored record.
  The Login page's own state is the record \<open>login\<close>; \<open>Login_handleSubmit\<close> is the part of
  \<^verbatim>\<open>handleSubmit\<close> that runs before the \<^verbatim>\<open>await\<close> and returns the request it sends,
  \<open>Login_handleSubmit_done\<close> the part that runs when the response arrives.
\<close>

type_synonym storage = "string \<rightharpoonup> user"

definition stored_user :: "storage \<Rightarrow> user option" where
  "stored_user ls = ls ''user''"

text \<open>\<^verbatim>\<open>storedUser?.id || ''\<close>: the initial user-id field of the booking and bookings forms.\<close>

definition stored_user_id :: "storage \<Rightarrow> field" where
  "stored_user_id ls =
     (case stored_user ls of
        Some u \<Rightarrow> if user_id u \<noteq> 0 then FNum (user_id u) else FStr []
      | None \<Rightarrow> FStr [])"

record login =
  lg_name :: string
  lg_email :: string
  lg_password :: string
  lg_loading :: bool
  lg_error :: string
  lg_success :: string

definition Login_init :: login where
  "Login_init = \<lparr>lg_name = [], lg_email = [], lg_password = [], lg_loading = False,
     lg_error = [], lg_success = []\<rparr>"

definition Login_handleSubmit :: "login \<Rightarrow> login \<times> request" where
  "Login_handleSubmit l =
     (l\<lparr>lg_error := [], lg_success := [], lg_loading := True\<rparr>,
      createUser (JObj [(''name'', JStr (lg_name l)), (''email'', JStr (lg_email l)),
                        (''password'', JStr (lg_password l))]))"

definition Login_handleSubmit_done :: "storage \<Rightarrow> login \<Rightarrow> user api_result \<Rightarrow> storage \<times> login" where
  "Login_handleSubmit_done ls l r =
     (case r of
        Success u \<Rightarrow>
          (ls(''user'' \<mapsto> u),
           l\<lparr>lg_success := ''Account created and logged in.'', lg_name := [], lg_email := [],
             lg_password := [], lg_loading := False\<rparr>)
      | _ \<Rightarrow> (ls, l\<lparr>lg_error := fail_message r ''Login failed'', lg_loading := False\<rparr>))"

definition Login_handleLogout :: "storage \<Rightarrow> login \<Rightarrow> storage \<times> login" where
  "Login_handleLogout ls l = (ls(''user'' := None), l\<lparr>lg_success := ''Logged out.''\<rparr>)"

text \<open>What the page renders: the logged-in panel for a stored user, otherwise the form.\<close>

datatype login_view = LoggedIn string int | SignupForm bool string string

definition Login_view :: "storage \<Rightarrow> login \<Rightarrow> login_view" where
  "Login_view ls l =
     (case stored_user ls of
        Some u \<Rightarrow> LoggedIn (user_name u) (user_id u)
      | None \<Rightarrow> SignupForm (lg_loading l) (lg_error l) (lg_success l))"

lemmas login_defs [handler_defs] = Login_handleSubmit_def Login_handleSubmit_done_def
  Login_handleLogout_def

lemma stored_user_id_user [simp]:
  "user_id u \<noteq> 0 \<Longrightarrow> stored_user_id (ls(''user'' \<mapsto> u)) = FNum (user_id u)"
  by (simp add: stored_user_id_def stored_user_def)

lemma stored_user_id_cleared [simp]: "stored_user_id (ls(''user'' := None)) = FStr []"
  by (simp add: stored_user_id_def stored_user_def)

end
