(* ===== verification/Booking.thy ===== *)
theory Booking
  imports Session
begin

text \<open>
  The Booking Workflow Controller, \<^verbatim>\<open>src/frontend/src/components/BookingForm.jsx\<close>.
  Its state is the record \<open>booking_form\<close> (the four \<^verbatim>\<open>useState\<close> hooks), initialised from
  the Session Store when the form is mounted. The asynchronous \<^verbatim>\<open>handleSubmit\<close> is split
  at its \<^verbatim>\<open>await\<close>: \<open>handleSubmit\<close> runs up to the call and returns the request it sends
  (or none, when the user id is missing), \<open>handleSubmit_done\<close> runs the \<^verbatim>\<open>try\<close>,
  \<^verbatim>\<open>catch\<close> and \<^verbatim>\<open>finally\<close> blocks on the result, and \<open>onBooked_arg\<close> is the value the
  form passes to its \<^verbatim>\<open>onBooked\<close> callback (none when the callback is not called).
\<close>

record booking_form =
  bf_userId :: field
  bf_loading :: bool
  bf_error :: string
  bf_success :: string

definition BookingForm_init :: "storage \<Rightarrow> booking_form" where
  "BookingForm_init ls =
     \<lparr>bf_userId = stored_user_id ls, bf_loading = False, bf_error = [], bf_success = []\<rparr>"

definition missing_user_msg :: string where
  "missing_user_msg = ''Please provide a user id or login.''"

definition booking_payload :: "field \<Rightarrow> string \<Rightarrow> json" where
  "booking_payload uid bookId =
     JObj [(''user_id'', json_of_number (to_number uid)), (''book_id'', json_of_number (js_Number bookId))]"

definition handleSubmit :: "string \<Rightarrow> booking_form \<Rightarrow> booking_form \<times> request option" where
  "handleSubmit bookId f =
     (let f1 = f\<lparr>bf_error := [], bf_success := []\<rparr> in
      if \<not> truthy (bf_userId f1) then (f1\<lparr>bf_error := missing_user_msg\<rparr>, None)
      else (f1\<lparr>bf_loading := True\<rparr>, Some (createBooking (booking_payload (bf_userId f1) bookId))))"

definition handleSubmit_done :: "booking_form \<Rightarrow> booking api_result \<Rightarrow> booking_form" where
  "handleSubmit_done f r =
     (case r of
        Success _ \<Rightarrow> f\<lparr>bf_success := ''Booked successfully.'', bf_loading := False\<rparr>
      | _ \<Rightarrow> f\<lparr>bf_error := fail_message r ''Booking failed'', bf_loading := False\<rparr>)"

fun onBooked_arg :: "booking api_result \<Rightarrow> booking option" where
  "onBooked_arg (Success b) = Some b"
| "onBooked_arg _ = None"

text \<open>The input's \<^verbatim>\<open>onChange\<close>, and the submit button's \<^verbatim>\<open>disabled={loading}\<close>.\<close>

definition setUserId :: "string \<Rightarrow> booking_form \<Rightarrow> booking_form" where
  "setUserId v f = f\<lparr>bf_userId := FStr v\<rparr>"

definition submit_enabled :: "booking_form \<Rightarrow> bool" where
  "submit_enabled f = (\<not> bf_loading f)"

datatype form_view = FormView string "string option" "string option"

definition BookingForm_view :: "booking_form \<Rightarrow> form_view" where
  "BookingForm_view f =
     FormView (if bf_loading f then ''Booking...'' else ''Confirm Booking'')
       (if bf_error f \<noteq> [] then Some (bf_error f) else None)
       (if bf_success f \<noteq> [] then Some (bf_success f) else None)"

lemmas booking_form_defs [handler_defs] = handleSubmit_def handleSubmit_done_def setUserId_def

section \<open>Behaviour of a submission\<close>

lemma handleSubmit_done_loading [simp]: "bf_loading (handleSubmit_done f r) = False"
  by (simp add: handleSubmit_done_def split: api_result.split)

lemma booking_payload_fields [simp]:
  "json_get (booking_payload (FNum u) (js_String k)) ''user_id'' = Some (JInt u)"
  "json_get (booking_payload (FNum u) (js_String k)) ''book_id'' = Some (JInt k)"
  by (simp_all add: booking_payload_def json_get_def js_Number_js_String)

lemma onBooked_arg_None_iff: "onBooked_arg r = None \<longleftrightarrow> (\<forall>b. r \<noteq> Success b)"
  by (cases r) auto

end
