(* ===== verification/BookDetails.thy ===== *)
theory BookDetails
  imports Booking
begin

text \<open>
  The Book Detail Orchestrator, \<^verbatim>\<open>src/frontend/src/pages/BookDetails.jsx\<close>. Its state is
  the record \<open>details\<close>: the five \<^verbatim>\<open>useState\<close> hooks of the page and the state of the
  \<^verbatim>\<open><BookingForm>\<close> child while React keeps it mounted (\<open>bd_form\<close>, \<open>None\<close> while the
  page renders something else, so that the child starts afresh when it is rendered again).
  \<open>load\<close> and \<open>handleSummarize\<close> are split at their \<^verbatim>\<open>await\<close> as in \<open>Booking\<close>;
  \<open>booking_done\<close> is the child's continuation together with the \<^verbatim>\<open>onBooked={() => load()}\<close>
  callback the page passes it. \<open>reconcile\<close> is React's rendering of the page: it mounts
  the child when the details view is shown and unmounts it otherwise.

  The page with its in-flight requests is the record \<open>page\<close>; \<open>page_step\<close> is one event:
  a click, a form edit or the arrival of the response to any in-flight request, in any
  order (responses are applied in completion order). \<open>page_reach\<close> are the states a page
  reaches from its mount.
\<close>

section \<open>State and handlers\<close>

record details =
  bd_book :: "book option"
  bd_loading :: bool
  bd_error :: string
  bd_aiSummary :: "string option"
  bd_summarizing :: bool
  bd_form :: "booking_form option"

definition BookDetails_init :: details where
  "BookDetails_init = \<lparr>bd_book = None, bd_loading = True, bd_error = [], bd_aiSummary = Some [],
     bd_summarizing = False, bd_form = None\<rparr>"

text \<open>\<^verbatim>\<open>book?.summary\<close> as a condition.\<close>

definition has_summary :: "book \<Rightarrow> bool" where
  "has_summary b = (js_or (summary b) [] \<noteq> [])"

definition load :: "string \<Rightarrow> details \<Rightarrow> details \<times> request" where
  "load bid d = (d\<lparr>bd_loading := True\<rparr>, getBook bid)"

definition load_done :: "details \<Rightarrow> book api_result \<Rightarrow> details" where
  "load_done d r =
     (case r of
        Success b \<Rightarrow> d\<lparr>bd_book := Some b, bd_aiSummary := Some (js_or (ai_summary b) []),
                        bd_loading := False\<rparr>
      | _ \<Rightarrow> d\<lparr>bd_error := ''Failed to load book'', bd_loading := False\<rparr>)"

definition handleSummarize :: "string \<Rightarrow> details \<Rightarrow> details \<times> request option" where
  "handleSummarize bid d =
     (case bd_book d of
        None \<Rightarrow> (d, None)
      | Some b \<Rightarrow>
          if \<not> has_summary b then (d, None)
          else (d\<lparr>bd_summarizing := True\<rparr>,
                Some (summarize (JObj [(''book_id'', json_of_number (js_Number bid))]))))"

definition handleSummarize_done :: "details \<Rightarrow> string option api_result \<Rightarrow> details" where
  "handleSummarize_done d r =
     (case r of
        Success s \<Rightarrow> d\<lparr>bd_aiSummary := s, bd_summarizing := False\<rparr>
      | _ \<Rightarrow> d\<lparr>bd_error := fail_message r ''Summarization failed'', bd_summarizing := False\<rparr>)"

definition booking_done :: "string \<Rightarrow> details \<Rightarrow> booking api_result \<Rightarrow> details \<times> request option" where
  "booking_done bid d r =
     (let d1 = d\<lparr>bd_form := map_option (\<lambda>f. handleSubmit_done f r) (bd_form d)\<rparr> in
      case onBooked_arg r of
        None \<Rightarrow> (d1, None)
      | Some _ \<Rightarrow> (let (d2, q) = load bid d1 in (d2, Some q)))"

section \<open>Rendering\<close>

datatype details_view = VLoading | VError string | VNothing | VDetail book string bool

definition detail_shown :: "details \<Rightarrow> bool" where
  "detail_shown d = (\<not> bd_loading d \<and> bd_error d = [] \<and> bd_book d \<noteq> None)"

definition summarize_enabled :: "details \<Rightarrow> bool" where
  "summarize_enabled d =
     (detail_shown d \<and> (case bd_book d of Some b \<Rightarrow> has_summary b | None \<Rightarrow> False)
      \<and> \<not> bd_summarizing d)"

definition BookDetails_view :: "details \<Rightarrow> details_view" where
  "BookDetails_view d =
     (if bd_loading d then VLoading
      else if bd_error d \<noteq> [] then VError (bd_error d)
      else case bd_book d of
             None \<Rightarrow> VNothing
           | Some b \<Rightarrow> VDetail b (js_or (bd_aiSummary d) ''No AI summary yet.'') (summarize_enabled d))"

definition reconcile :: "storage \<Rightarrow> details \<Rightarrow> details" where
  "reconcile ls d =
     d\<lparr>bd_form := (if detail_shown d
                   then Some (case bd_form d of Some f \<Rightarrow> f | None \<Rightarrow> BookingForm_init ls)
                   else None)\<rparr>"

section \<open>The page and its in-flight requests\<close>

datatype dtag = TLoad | TSummarize | TBooking

datatype response =
    RBook "book api_result"
  | RSummary "string option api_result"
  | RBooking "booking api_result"

fun response_fits :: "dtag \<Rightarrow> response \<Rightarrow> bool" where
  "response_fits TLoad (RBook _) = True"
| "response_fits TSummarize (RSummary _) = True"
| "response_fits TBooking (RBooking _) = True"
| "response_fits _ _ = False"

record page =
  pg_d :: details
  pg_pending :: "(dtag \<times> request) list"

datatype page_event = ClickSummarize | SubmitBooking | EditUserId string | Respond nat response

definition issue :: "dtag \<Rightarrow> request option \<Rightarrow> (dtag \<times> request) list \<Rightarrow> (dtag \<times> request) list" where
  "issue t q ps = ps @ (case q of None \<Rightarrow> [] | Some r \<Rightarrow> [(t, r)])"

fun deliver :: "storage \<Rightarrow> string \<Rightarrow> page \<Rightarrow> response \<Rightarrow> page" where
  "deliver ls bid p (RBook r) = p\<lparr>pg_d := reconcile ls (load_done (pg_d p) r)\<rparr>"
| "deliver ls bid p (RSummary r) = p\<lparr>pg_d := reconcile ls (handleSummarize_done (pg_d p) r)\<rparr>"
| "deliver ls bid p (RBooking r) =
     (let (d', q) = booking_done bid (pg_d p) r in
      p\<lparr>pg_d := reconcile ls d', pg_pending := issue TLoad q (pg_pending p)\<rparr>)"

fun page_step :: "storage \<Rightarrow> string \<Rightarrow> page \<Rightarrow> page_event \<Rightarrow> page" where
  "page_step ls bid p ClickSummarize =
     (if summarize_enabled (pg_d p)
      then (let (d', q) = handleSummarize bid (pg_d p) in
            p\<lparr>pg_d := reconcile ls d', pg_pending := issue TSummarize q (pg_pending p)\<rparr>)
      else p)"
| "page_step ls bid p SubmitBooking =
     (case bd_form (pg_d p) of
        None \<Rightarrow> p
      | Some f \<Rightarrow>
          if submit_enabled f
          then (let (f', q) = handleSubmit bid f in
                p\<lparr>pg_d := (pg_d p)\<lparr>bd_form := Some f'\<rparr>, pg_pending := issue TBooking q (pg_pending p)\<rparr>)
          else p)"
| "page_step ls bid p (EditUserId v) =
     (case bd_form (pg_d p) of
        None \<Rightarrow> p
      | Some f \<Rightarrow> p\<lparr>pg_d := (pg_d p)\<lparr>bd_form := Some (setUserId v f)\<rparr>\<rparr>)"
| "page_step ls bid p (Respond i r) =
     (if i < length (pg_pending p) \<and> response_fits (fst (pg_pending p ! i)) r
      then deliver ls bid (p\<lparr>pg_pending := remove_nth i (pg_pending p)\<rparr>) r
      else p)"

text \<open>Mounting the page: the initial state and the \<^verbatim>\<open>useEffect\<close> that calls \<^verbatim>\<open>load()\<close>.\<close>

definition page_init :: "storage \<Rightarrow> string \<Rightarrow> page" where
  "page_init ls bid =
     (let (d, q) = load bid BookDetails_init in \<lparr>pg_d = reconcile ls d, pg_pending = [(TLoad, q)]\<rparr>)"

fun page_run :: "storage \<Rightarrow> string \<Rightarrow> page \<Rightarrow> page_event list \<Rightarrow> page" where
  "page_run ls bid p [] = p"
| "page_run ls bid p (e # es) = page_run ls bid (page_step ls bid p e) es"

inductive page_reach :: "storage \<Rightarrow> string \<Rightarrow> page \<Rightarrow> bool" for ls bid where
  mount: "page_reach ls bid (page_init ls bid)"
| step: "page_reach ls bid p \<Longrightarrow> page_reach ls bid (page_step ls bid p e)"

text \<open>
  The invariant behind the booking form's success message: a mounted form never holds one.
\<close>

definition no_success_shown :: "details \<Rightarrow> bool" where
  "no_success_shown d = (case bd_form d of None \<Rightarrow> True | Some f \<Rightarrow> bf_success f = [])"

text \<open>Example pages on book \<^verbatim>\<open>12\<close> for user \<^verbatim>\<open>5\<close>, used by the witnesses.\<close>

definition ex_storage :: storage where
  "ex_storage = [''user'' \<mapsto> ex_user]"

definition ex_loaded :: page where
  "ex_loaded = page_step ex_storage ''12'' (page_init ex_storage ''12'') (Respond 0 (RBook (Success ex_book)))"

definition ex_submitted :: page where
  "ex_submitted = page_step ex_storage ''12'' ex_loaded SubmitBooking"

definition ex_anonymous :: page where
  "ex_anonymous = page_step ex_storage ''12'' ex_loaded (EditUserId [])"

definition ex_summarizing :: page where
  "ex_summarizing = page_step ex_storage ''12'' ex_loaded ClickSummarize"

definition ex_failed :: page where
  "ex_failed = page_step ex_storage ''12'' (page_init ex_storage ''12'') (Respond 0 (RBook TransportError))"

section \<open>Lemmas on the handlers\<close>

lemmas details_defs [handler_defs] = load_def load_done_def handleSummarize_def
  handleSummarize_done_def booking_done_def

lemma reconcile_fields [simp]:
  "bd_book (reconcile ls d) = bd_book d" "bd_loading (reconcile ls d) = bd_loading d"
  "bd_error (reconcile ls d) = bd_error d" "bd_aiSummary (reconcile ls d) = bd_aiSummary d"
  "bd_summarizing (reconcile ls d) = bd_summarizing d"
  by (simp_all add: reconcile_def)

lemma detail_shown_reconcile [simp]: "detail_shown (reconcile ls d) = detail_shown d"
  by (simp add: detail_shown_def)

lemma reconcile_hidden [simp]: "\<not> detail_shown d \<Longrightarrow> bd_form (reconcile ls d) = None"
  by (simp add: reconcile_def)

lemma reconcile_shown_mounted [simp]:
  "detail_shown d \<Longrightarrow> bd_form d = Some f \<Longrightarrow> reconcile ls d = d"
  by (simp add: reconcile_def)

lemma handleSummarize_frame [simp]:
  "bd_form (fst (handleSummarize bid d)) = bd_form d"
  "bd_error (fst (handleSummarize bid d)) = bd_error d"
  "bd_book (fst (handleSummarize bid d)) = bd_book d"
  by (simp_all add: handleSummarize_def split: option.split)

lemma load_done_form [simp]: "bd_form (load_done d r) = bd_form d"
  by (simp add: load_done_def split: api_result.split)

lemma handleSummarize_done_form [simp]: "bd_form (handleSummarize_done d r) = bd_form d"
  by (simp add: handleSummarize_done_def split: api_result.split)

lemma load_done_error: "bd_error d \<noteq> [] \<Longrightarrow> bd_error (load_done d r) \<noteq> []"
  by (simp add: load_done_def split: api_result.split)

lemma handleSummarize_done_error: "bd_error d \<noteq> [] \<Longrightarrow> bd_error (handleSummarize_done d r) \<noteq> []"
  by (simp add: handleSummarize_done_def split: api_result.split)

lemma booking_done_eq:
  "booking_done bid d r =
     (case onBooked_arg r of
        None \<Rightarrow> (d\<lparr>bd_form := map_option (\<lambda>f. handleSubmit_done f r) (bd_form d)\<rparr>, None)
      | Some _ \<Rightarrow> (d\<lparr>bd_form := map_option (\<lambda>f. handleSubmit_done f r) (bd_form d), bd_loading := True\<rparr>,
                  Some (getBook bid)))"
  by (simp add: booking_done_def load_def split: option.split)

lemma booking_done_frame [simp]:
  "bd_error (fst (booking_done bid d r)) = bd_error d"
  "bd_book (fst (booking_done bid d r)) = bd_book d"
  by (simp_all add: booking_done_eq split: option.split)

lemma handleSubmit_done_failure:
  "\<forall>b. r \<noteq> Success b \<Longrightarrow>
   handleSubmit_done f r = f\<lparr>bf_error := fail_message r ''Booking failed'', bf_loading := False\<rparr>"
  by (cases r) (simp_all add: handleSubmit_done_def)

lemma no_success_shown_handlers [simp]:
  "no_success_shown (load_done d r) = no_success_shown d"
  "no_success_shown (handleSummarize_done d s) = no_success_shown d"
  "no_success_shown (fst (handleSummarize bid d)) = no_success_shown d"
  by (simp_all add: no_success_shown_def)

lemma no_success_shown_reconcile:
  "no_success_shown d \<Longrightarrow> no_success_shown (reconcile ls d)"
  by (auto simp: no_success_shown_def reconcile_def BookingForm_init_def split: option.split)

lemma no_success_shown_booking_done:
  assumes "no_success_shown d"
  shows "no_success_shown (reconcile ls (fst (booking_done bid d r)))"
proof (cases "onBooked_arg r")
  case None
  then have "\<forall>b. r \<noteq> Success b" by (simp add: onBooked_arg_None_iff)
  then have "\<And>f. bf_success (handleSubmit_done f r) = bf_success f"
    by (simp add: handleSubmit_done_failure)
  with assms have "no_success_shown (d\<lparr>bd_form := map_option (\<lambda>f. handleSubmit_done f r) (bd_form d)\<rparr>)"
    by (auto simp: no_success_shown_def split: option.splits)
  with None show ?thesis
    by (simp add: booking_done_eq no_success_shown_reconcile)
next
  case (Some b)
  then show ?thesis
    by (simp add: booking_done_eq no_success_shown_def detail_shown_def)
qed

lemma no_success_shown_deliver:
  assumes "no_success_shown (pg_d p)"
  shows "no_success_shown (pg_d (deliver ls bid p r))"
  using assms
  by (cases r) (auto simp: Let_def split_def intro: no_success_shown_reconcile no_success_shown_booking_done)

lemma no_success_shown_step:
  assumes "no_success_shown (pg_d p)"
  shows "no_success_shown (pg_d (page_step ls bid p e))"
proof (cases e)
  case ClickSummarize
  with assms show ?thesis
    by (auto simp: Let_def split_def intro!: no_success_shown_reconcile)
next
  case SubmitBooking
  with assms show ?thesis
    by (auto simp: handleSubmit_def no_success_shown_def Let_def split: option.split)
next
  case (EditUserId v)
  with assms show ?thesis
    by (auto simp: setUserId_def no_success_shown_def split: option.split)
next
  case (Respond i r)
  with assms no_success_shown_deliver [of "p\<lparr>pg_pending := remove_nth i (pg_pending p)\<rparr>"] show ?thesis
    by simp
qed

lemma error_sticky_deliver:
  assumes "bd_error (pg_d p) \<noteq> []"
  shows "bd_error (pg_d (deliver ls bid p r)) \<noteq> []"
  using assms
  by (cases r) (simp_all add: Let_def split_def load_done_error handleSummarize_done_error)

lemma error_sticky_step:
  assumes "bd_error (pg_d p) \<noteq> []"
  shows "bd_error (pg_d (page_step ls bid p e)) \<noteq> []"
proof (cases e)
  case (Respond i r)
  with assms error_sticky_deliver [of "p\<lparr>pg_pending := remove_nth i (pg_pending p)\<rparr>"] show ?thesis
    by simp
qed (use assms in \<open>simp_all add: Let_def split_def split: option.split\<close>)

lemma page_step_book:
  "bd_book (pg_d (page_step ls bid p e)) = bd_book (pg_d p) \<or>
   (\<exists>i b. e = Respond i (RBook (Success b)) \<and> bd_book (pg_d (page_step ls bid p e)) = Some b)"
proof (cases e)
  case (Respond i r)
  show ?thesis
  proof (cases "i < length (pg_pending p) \<and> response_fits (fst (pg_pending p ! i)) r")
    case True
    with Respond show ?thesis
      by (cases r) (auto simp: Let_def split_def load_done_def handleSummarize_done_def split: api_result.split)
  qed (use Respond in auto)
qed (simp_all add: Let_def split_def split: option.split)

text \<open>The example pages, computed.\<close>

lemma ex_loaded_eq:
  "ex_loaded = \<lparr>pg_d = \<lparr>bd_book = Some ex_book, bd_loading = False, bd_error = [],
      bd_aiSummary = Some [], bd_summarizing = False, bd_form = Some (BookingForm_init ex_storage)\<rparr>,
    pg_pending = []\<rparr>"
  by (simp add: ex_loaded_def page_init_def load_def load_done_def BookDetails_init_def reconcile_def
      detail_shown_def remove_nth_def ex_book_def)

lemma ex_storage_user_id [simp]: "stored_user_id ex_storage = FNum 5"
  by (simp add: ex_storage_def stored_user_id_def stored_user_def ex_user_def)

lemma ex_submitted_eq:
  "ex_submitted = \<lparr>pg_d = (pg_d ex_loaded)\<lparr>bd_form := Some ((BookingForm_init ex_storage)\<lparr>bf_loading := True\<rparr>)\<rparr>,
    pg_pending = [(TBooking, createBooking (booking_payload (FNum 5) ''12''))]\<rparr>"
  by (simp add: ex_submitted_def ex_loaded_eq handleSubmit_def BookingForm_init_def submit_enabled_def issue_def)

section \<open>Properties of the page\<close>

text \<open>
  C1. A successful booking makes the page refetch the book: the response to the
  \<^verbatim>\<open>createBooking\<close> call leaves the page loading, with exactly one new in-flight request,
  \<^verbatim>\<open>getBook(id)\<close>, and nothing else of the page changed; the form is unmounted by the
  loading view.
\<close>

theorem booking_success_refetch:
  assumes "i < length (pg_pending p)" and "fst (pg_pending p ! i) = TBooking"
  shows "page_step ls bid p (Respond i (RBooking (Success b))) =
           p\<lparr>pg_d := (pg_d p)\<lparr>bd_loading := True, bd_form := None\<rparr>,
             pg_pending := remove_nth i (pg_pending p) @ [(TLoad, getBook bid)]\<rparr>"
  using assms by (simp add: booking_done_eq reconcile_def detail_shown_def issue_def)

theorem booking_success_refetch_witness:
  "0 < length (pg_pending ex_submitted) \<and> fst (pg_pending ex_submitted ! 0) = TBooking \<and>
   page_step ex_storage ''12'' ex_submitted (Respond 0 (RBooking (Success ex_booking))) =
     ex_submitted\<lparr>pg_d := (pg_d ex_submitted)\<lparr>bd_loading := True, bd_form := None\<rparr>,
       pg_pending := [(TLoad, getBook ''12'')]\<rparr>"
proof -
  have h: "0 < length (pg_pending ex_submitted)" "fst (pg_pending ex_submitted ! 0) = TBooking"
    by (simp_all add: ex_submitted_eq)
  show ?thesis
    using h booking_success_refetch [OF h, of ex_storage "''12''" ex_booking]
    by (simp add: ex_submitted_eq remove_nth_def)
qed

text \<open>
  C2. A rejected booking does not refetch: the response removes its request and adds
  none, the displayed book is unchanged, and the mounted form shows the server's error
  message or \<^verbatim>\<open>'Booking failed'\<close>.
\<close>

theorem booking_failure_no_refetch:
  assumes "i < length (pg_pending p)" and "fst (pg_pending p ! i) = TBooking"
    and "\<forall>b. r \<noteq> Success b" and "bd_form (pg_d p) = Some f" and "detail_shown (pg_d p)"
  shows "page_step ls bid p (Respond i (RBooking r)) =
           p\<lparr>pg_d := (pg_d p)\<lparr>bd_form := Some (f\<lparr>bf_error := fail_message r ''Booking failed'',
                                                    bf_loading := False\<rparr>)\<rparr>,
             pg_pending := remove_nth i (pg_pending p)\<rparr>"
proof -
  from assms(3) have "onBooked_arg r = None" by (simp add: onBooked_arg_None_iff)
  with assms show ?thesis
    by (simp add: booking_done_eq handleSubmit_done_failure reconcile_def detail_shown_def issue_def)
qed

theorem booking_failure_no_refetch_witness:
  "0 < length (pg_pending ex_submitted) \<and> fst (pg_pending ex_submitted ! 0) = TBooking \<and>
   (\<forall>b. (RequestError (Some ''No copies available'') :: booking api_result) \<noteq> Success b) \<and>
   bd_form (pg_d ex_submitted) = Some ((BookingForm_init ex_storage)\<lparr>bf_loading := True\<rparr>) \<and>
   detail_shown (pg_d ex_submitted) \<and>
   pg_pending (page_step ex_storage ''12'' ex_submitted
     (Respond 0 (RBooking (RequestError (Some ''No copies available''))))) = [] \<and>
   bd_form (pg_d (page_step ex_storage ''12'' ex_submitted
     (Respond 0 (RBooking (RequestError (Some ''No copies available''))))))
     = Some ((BookingForm_init ex_storage)\<lparr>bf_loading := False, bf_error := ''No copies available''\<rparr>)"
proof -
  let ?r = "RequestError (Some ''No copies available'') :: booking api_result"
  let ?f = "(BookingForm_init ex_storage)\<lparr>bf_loading := True\<rparr>"
  have h: "0 < length (pg_pending ex_submitted)" "fst (pg_pending ex_submitted ! 0) = TBooking"
    "\<forall>b. ?r \<noteq> Success b" "bd_form (pg_d ex_submitted) = Some ?f" "detail_shown (pg_d ex_submitted)"
    by (simp_all add: ex_submitted_eq ex_loaded_eq detail_shown_def)
  note eq = booking_failure_no_refetch [OF h, of ex_storage "''12''"]
  have "pg_pending (page_step ex_storage ''12'' ex_submitted (Respond 0 (RBooking ?r))) = []"
    by (simp only: eq) (simp add: ex_submitted_eq remove_nth_def)
  moreover have "bd_form (pg_d (page_step ex_storage ''12'' ex_submitted (Respond 0 (RBooking ?r))))
     = Some ((BookingForm_init ex_storage)\<lparr>bf_loading := False, bf_error := ''No copies available''\<rparr>)"
    by (simp only: eq) (simp add: BookingForm_init_def)
  ultimately show ?thesis using h by blast
qed

text \<open>
  C3. Submitting the booking form without a user id contacts no server: the page issues
  no request, and the form shows \<^verbatim>\<open>'Please provide a user id or login.'\<close> with its
  previous success message cleared.
\<close>

theorem submit_without_user_no_request:
  assumes "bd_form (pg_d p) = Some f" and "submit_enabled f" and "\<not> truthy (bf_userId f)"
  shows "page_step ls bid p SubmitBooking =
           p\<lparr>pg_d := (pg_d p)\<lparr>bd_form := Some (f\<lparr>bf_error := missing_user_msg, bf_success := []\<rparr>)\<rparr>\<rparr>"
  using assms by (simp add: handleSubmit_def issue_def)

theorem submit_without_user_no_request_witness:
  "let f = (BookingForm_init ex_storage)\<lparr>bf_userId := FStr []\<rparr> in
   (bd_form (pg_d ex_anonymous) = Some f \<and> submit_enabled f \<and> \<not> truthy (bf_userId f)) \<and>
   pg_pending (page_step ex_storage ''12'' ex_anonymous SubmitBooking) = []"
proof -
  let ?f = "(BookingForm_init ex_storage)\<lparr>bf_userId := FStr []\<rparr>"
  have h: "bd_form (pg_d ex_anonymous) = Some ?f" "submit_enabled ?f" "\<not> truthy (bf_userId ?f)"
    by (simp_all add: ex_anonymous_def ex_loaded_eq setUserId_def submit_enabled_def BookingForm_init_def)
  show ?thesis
    using h submit_without_user_no_request [OF h, of ex_storage "''12''"]
    by (simp add: Let_def ex_anonymous_def ex_loaded_eq)
qed

text \<open>
  C4. Summarizing a book that has no original summary is unreachable from the page: the
  click changes nothing and sends nothing.
\<close>

theorem summarize_unreachable_without_summary:
  assumes "bd_book (pg_d p) = Some b" and "\<not> has_summary b"
  shows "page_step ls bid p ClickSummarize = p"
  using assms by (simp add: summarize_enabled_def)

theorem summarize_unreachable_without_summary_witness:
  "let b = ex_book\<lparr>summary := None\<rparr>; p = ex_loaded\<lparr>pg_d := (pg_d ex_loaded)\<lparr>bd_book := Some b\<rparr>\<rparr> in
   (bd_book (pg_d p) = Some b \<and> \<not> has_summary b) \<and> page_step ex_storage ''12'' p ClickSummarize = p"
  using summarize_unreachable_without_summary [of "ex_loaded\<lparr>pg_d := (pg_d ex_loaded)\<lparr>bd_book := Some (ex_book\<lparr>summary := None\<rparr>)\<rparr>\<rparr>"
      "ex_book\<lparr>summary := None\<rparr>" ex_storage "''12''"]
  by (simp add: has_summary_def)

text \<open>
  C5. A generated summary replaces the displayed AI summary and nothing else: the book
  (and with it \<open>available_copies\<close>) is unchanged and the request leaves the in-flight list.
\<close>

theorem summarize_success_updates_ai:
  assumes "i < length (pg_pending p)" and "fst (pg_pending p ! i) = TSummarize"
  shows "bd_aiSummary (pg_d (page_step ls bid p (Respond i (RSummary (Success s))))) = s \<and>
         bd_book (pg_d (page_step ls bid p (Respond i (RSummary (Success s))))) = bd_book (pg_d p) \<and>
         pg_pending (page_step ls bid p (Respond i (RSummary (Success s)))) = remove_nth i (pg_pending p)"
  using assms by (simp add: handleSummarize_done_def)

theorem summarize_success_updates_ai_witness:
  "(0 < length (pg_pending ex_summarizing) \<and> fst (pg_pending ex_summarizing ! 0) = TSummarize) \<and>
   bd_aiSummary (pg_d (page_step ex_storage ''12'' ex_summarizing
      (Respond 0 (RSummary (Success (Some ''A hound haunts the moor.'')))))) = Some ''A hound haunts the moor.'' \<and>
   bd_book (pg_d (page_step ex_storage ''12'' ex_summarizing
      (Respond 0 (RSummary (Success (Some ''A hound haunts the moor.'')))))) = Some ex_book"
proof -
  have e: "ex_summarizing = \<lparr>pg_d = (pg_d ex_loaded)\<lparr>bd_summarizing := True\<rparr>,
      pg_pending = [(TSummarize, summarize (JObj [(''book_id'', JInt 12)]))]\<rparr>"
    by (simp add: ex_summarizing_def ex_loaded_eq summarize_enabled_def detail_shown_def has_summary_def
        handleSummarize_def ex_book_def issue_def reconcile_def signed_digits_def char_digit_def)
  have h: "0 < length (pg_pending ex_summarizing)" "fst (pg_pending ex_summarizing ! 0) = TSummarize"
    by (simp_all add: e)
  show ?thesis
    using h summarize_success_updates_ai [OF h, of ex_storage "''12''" "Some ''A hound haunts the moor.''"]
    by (simp add: e ex_loaded_eq)
qed

text \<open>
  C6. The booking form's success message \<^verbatim>\<open>'Booked successfully.'\<close> is never on screen:
  in every state the page reaches, a mounted form holds no success message, because the
  refetch that \<^verbatim>\<open>onBooked\<close> starts unmounts the form in the same update that sets it.
\<close>

theorem booking_success_message_never_shown:
  assumes "page_reach ls bid p" and "bd_form (pg_d p) = Some f"
  shows "bf_success f = []"
proof -
  from assms(1) have "no_success_shown (pg_d p)"
  proof (induction rule: page_reach.induct)
    case mount
    show ?case
      by (simp add: page_init_def load_def BookDetails_init_def reconcile_def detail_shown_def
          no_success_shown_def)
  next
    case (step p e)
    from step.IH show ?case by (rule no_success_shown_step)
  qed
  with assms(2) show ?thesis by (simp add: no_success_shown_def)
qed

theorem booking_success_message_never_shown_witness:
  "(page_reach ex_storage ''12'' ex_loaded \<and> bd_form (pg_d ex_loaded) = Some (BookingForm_init ex_storage))
   \<and> bf_success (BookingForm_init ex_storage) = []"
proof -
  have r: "page_reach ex_storage ''12'' ex_loaded"
    unfolding ex_loaded_def by (rule page_reach.step [OF page_reach.mount])
  have f: "bd_form (pg_d ex_loaded) = Some (BookingForm_init ex_storage)"
    by (simp add: ex_loaded_eq)
  show ?thesis using r f booking_success_message_never_shown [OF r f] by simp
qed

text \<open>
  C7. An error ends the page: once \<open>error\<close> is set (a failed load, or a failed
  summarization of a loaded book), no sequence of events shows the book details again,
  since no handler of the page clears \<open>error\<close>.
\<close>

theorem error_view_permanent:
  assumes "bd_error (pg_d p) \<noteq> []"
  shows "\<not> detail_shown (pg_d (page_run ls bid p es))"
proof -
  from assms have "bd_error (pg_d (page_run ls bid p es)) \<noteq> []"
  proof (induction es arbitrary: p)
    case Nil
    then show ?case by simp
  next
    case (Cons e es)
    then show ?case by (simp add: error_sticky_step)
  qed
  then show ?thesis by (simp add: detail_shown_def)
qed

theorem error_view_permanent_witness:
  "bd_error (pg_d ex_failed) \<noteq> [] \<and>
   \<not> detail_shown (pg_d (page_run ex_storage ''12'' ex_failed [Respond 0 (RBook (Success ex_book))]))"
proof -
  have h: "bd_error (pg_d ex_failed) \<noteq> []"
    by (simp add: ex_failed_def page_init_def load_def load_done_def BookDetails_init_def reconcile_def
        detail_shown_def remove_nth_def)
  show ?thesis using h error_view_permanent [OF h] by blast
qed

text \<open>
  A refetch replaces the book snapshot as a whole: when the response to
  \<^verbatim>\<open>getBook\<close> arrives on a page without an error, the page shows exactly the fetched
  book, with the AI summary taken from the same snapshot.
\<close>

theorem refetch_replaces_snapshot:
  assumes "i < length (pg_pending p)" and "fst (pg_pending p ! i) = TLoad" and "bd_error (pg_d p) = []"
  shows "BookDetails_view (pg_d (page_step ls bid p (Respond i (RBook (Success b))))) =
           VDetail b (js_or (ai_summary b) ''No AI summary yet.'')
             (has_summary b \<and> \<not> bd_summarizing (pg_d p))"
  using assms by (cases "ai_summary b")
    (simp_all add: load_done_def BookDetails_view_def summarize_enabled_def detail_shown_def)

theorem refetch_replaces_snapshot_witness:
  "(0 < length (pg_pending (page_init ex_storage ''12'')) \<and>
    fst (pg_pending (page_init ex_storage ''12'') ! 0) = TLoad \<and> bd_error (pg_d (page_init ex_storage ''12'')) = []) \<and>
   BookDetails_view (pg_d ex_loaded) = VDetail ex_book ''No AI summary yet.'' True"
proof -
  have h: "0 < length (pg_pending (page_init ex_storage ''12''))"
    "fst (pg_pending (page_init ex_storage ''12'') ! 0) = TLoad" "bd_error (pg_d (page_init ex_storage ''12'')) = []"
    by (simp_all add: page_init_def load_def BookDetails_init_def reconcile_def)
  have v: "has_summary ex_book" "\<not> bd_summarizing (pg_d (page_init ex_storage ''12''))" "ai_summary ex_book = None"
    by (simp_all add: has_summary_def ex_book_def page_init_def load_def BookDetails_init_def reconcile_def)
  show ?thesis
    using h v refetch_replaces_snapshot [OF h, of ex_storage "''12''" ex_book]
    by (simp add: ex_loaded_def)
qed

end
