(* ===== verification/Server.thy ===== *)
theory Server
  imports Gateway
begin

text \<open>
  The library server. Its code is not part of the repository; this theory models it from
  the specification (the interface table and the data-model invariants), for all nine
  endpoints the Gateway Client calls: \<^verbatim>\<open>GET /books/\<close> with an optional query,
  \<^verbatim>\<open>GET /books/<id>\<close>, \<^verbatim>\<open>POST /books/\<close>, \<^verbatim>\<open>POST /books/summarize\<close>,
  \<^verbatim>\<open>POST /books/recommend\<close>, \<^verbatim>\<open>POST /users/\<close>, \<^verbatim>\<open>GET /users/\<close>, \<^verbatim>\<open>POST /bookings/\<close>
  and \<^verbatim>\<open>GET /bookings/user/<id>\<close>.
  The server state is the record \<open>server\<close>; \<open>srv_handle\<close> answers a \<open>request\<close> of the
  Gateway Client, returning the new state and a typed response (\<open>SNotFound\<close> for a
  request no route matches). A booking succeeds only for a known user and a known book
  with a copy available, and takes one copy. What the specification leaves open is left
  open: the AI is the parameter \<open>ai_model\<close>, and the search predicate is the field
  \<open>srv_match\<close> of the state.

  \<open>srv_inv\<close> is the inventory invariant of the data model: every book has
  \<open>0 \<le> available_copies \<le> total_copies\<close>, and is stored under its own id. \<open>users_ok\<close>
  and \<open>catalog_ok\<close> are the invariants of the user table and of the catalog order.
\<close>

record server =
  srv_books :: "int \<rightharpoonup> book"
  srv_users :: "int \<rightharpoonup> user"
  srv_bookings :: "booking list"
  srv_next_booking :: int
  srv_next_user :: int
  srv_clock :: int
  srv_catalog :: "int list"
  srv_next_book :: int
  srv_match :: "string \<Rightarrow> book \<Rightarrow> bool"

text \<open>The AI behind the server's AI endpoints: a summarizer and a recommender.\<close>

record ai_model =
  ai_summarize :: "string \<Rightarrow> string"
  ai_recommend :: "string \<Rightarrow> string option"

datatype srv_response =
    SBook "book api_result"
  | SBookings "booking list option api_result"
  | SSummary "string option api_result"
  | SBooking "booking api_result"
  | SUser "user api_result"
  | SRecommend "string option api_result"
  | SBooks "book list option api_result"
  | SCreatedBook "book api_result"
  | SUsers "user list api_result"
  | SNotFound

fun strip_prefix :: "string \<Rightarrow> string \<Rightarrow> string option" where
  "strip_prefix [] ys = Some ys"
| "strip_prefix (x # xs) [] = None"
| "strip_prefix (x # xs) (y # ys) = (if x = y then strip_prefix xs ys else None)"

text \<open>A path segment read as an integer id (\<^verbatim>\<open><int:id>\<close>).\<close>

definition parse_id :: "string \<Rightarrow> int option" where
  "parse_id seg =
     (if seg = [] then None else case js_Number seg of Num n \<Rightarrow> Some n | NaN \<Rightarrow> None)"

definition json_int :: "json \<Rightarrow> string \<Rightarrow> int option" where
  "json_int j k = (case json_get j k of Some (JInt n) \<Rightarrow> Some n | _ \<Rightarrow> None)"

definition json_str :: "json \<Rightarrow> string \<Rightarrow> string option" where
  "json_str j k = (case json_get j k of Some (JStr t) \<Rightarrow> Some t | _ \<Rightarrow> None)"

definition srv_get_book :: "int \<Rightarrow> server \<Rightarrow> book api_result" where
  "srv_get_book k s =
     (case srv_books s k of Some b \<Rightarrow> Success b | None \<Rightarrow> RequestError (Some ''Book not found''))"

text \<open>\<^verbatim>\<open>GET /bookings/user/<id>\<close>: the user's bookings, as \<^verbatim>\<open>{items: Booking[]}\<close>.\<close>

definition srv_user_bookings :: "int \<Rightarrow> server \<Rightarrow> booking list option api_result" where
  "srv_user_bookings u s = Success (Some (filter (\<lambda>bk. booking_user bk = u) (srv_bookings s)))"

definition srv_create_booking :: "json \<Rightarrow> server \<Rightarrow> server \<times> booking api_result" where
  "srv_create_booking j s =
     (case (json_int j ''user_id'', json_int j ''book_id'') of
        (Some u, Some k) \<Rightarrow>
          (case (srv_users s u, srv_books s k) of
             (None, _) \<Rightarrow> (s, RequestError (Some ''User not found''))
           | (_, None) \<Rightarrow> (s, RequestError (Some ''Book not found''))
           | (Some _, Some b) \<Rightarrow>
               if available_copies b \<le> 0 then (s, RequestError (Some ''No copies available''))
               else
                 (let bk = \<lparr>booking_id = srv_next_booking s, booking_user = u, booking_book = k,
                            status = ''active'', booking_date = srv_clock s\<rparr> in
                  (s\<lparr>srv_books := (srv_books s)(k \<mapsto> b\<lparr>available_copies := available_copies b - 1\<rparr>),
                     srv_bookings := srv_bookings s @ [bk],
                     srv_next_booking := srv_next_booking s + 1\<rparr>,
                   Success bk)))
      | _ \<Rightarrow> (s, RequestError (Some ''user_id and book_id are required'')))"

definition srv_summarize :: "(string \<Rightarrow> string) \<Rightarrow> json \<Rightarrow> server \<Rightarrow> string option api_result" where
  "srv_summarize gen j s =
     (case json_str j ''text'' of
        Some t \<Rightarrow> if t = [] then RequestError (Some ''Text is required'') else Success (Some (gen t))
      | None \<Rightarrow>
          (case json_int j ''book_id'' of
             None \<Rightarrow> RequestError (Some ''Provide text or book_id'')
           | Some k \<Rightarrow>
               (case srv_books s k of
                  None \<Rightarrow> RequestError (Some ''Book not found'')
                | Some b \<Rightarrow>
                    (case summary b of
                       Some t \<Rightarrow> if t = [] then RequestError (Some ''Book has no summary'')
                                 else Success (Some (gen t))
                     | None \<Rightarrow> RequestError (Some ''Book has no summary'')))))"

text \<open>
  \<^verbatim>\<open>POST /users/\<close>: a new user under the next free id, for a body with a non-empty name,
  e-mail and password. \<^verbatim>\<open>POST /books/recommend\<close>: the recommender's title or \<^verbatim>\<open>null\<close>, for
  a non-empty query.
\<close>

definition srv_create_user :: "json \<Rightarrow> server \<Rightarrow> server \<times> user api_result" where
  "srv_create_user j s =
     (case (json_str j ''name'', json_str j ''email'', json_str j ''password'') of
        (Some n, Some e, Some pw) \<Rightarrow>
          if n = [] \<or> e = [] \<or> pw = [] then (s, RequestError (Some ''name, email and password are required''))
          else (let u = \<lparr>user_id = srv_next_user s, user_name = n, email = e\<rparr> in
                (s\<lparr>srv_users := (srv_users s)(srv_next_user s \<mapsto> u), srv_next_user := srv_next_user s + 1\<rparr>,
                 Success u))
      | _ \<Rightarrow> (s, RequestError (Some ''name, email and password are required'')))"

definition srv_recommend :: "(string \<Rightarrow> string option) \<Rightarrow> json \<Rightarrow> string option api_result" where
  "srv_recommend rec j =
     (case json_str j ''query'' of
        Some q \<Rightarrow> if q = [] then RequestError (Some ''Query is required'') else Success (rec q)
      | None \<Rightarrow> RequestError (Some ''Query is required''))"

text \<open>
  \<^verbatim>\<open>GET /books/\<close>: the books in catalog order, as \<^verbatim>\<open>{items: Book[]}\<close>; with a parameter
  \<^verbatim>\<open>q\<close>, those the server's search predicate \<open>srv_match\<close> accepts (the specification
  leaves the matching open, so it is part of the server state).
  \<^verbatim>\<open>POST /books/\<close>: a new book under the next free id with all its copies available, for a
  body with a non-empty title and author and a non-negative \<^verbatim>\<open>total_copies\<close>; genre and
  summary are optional. \<^verbatim>\<open>GET /users/\<close>: the users in id order.
\<close>

definition srv_list_books :: "string option \<Rightarrow> server \<Rightarrow> book list option api_result" where
  "srv_list_books q s =
     Success (Some (filter (\<lambda>b. case q of None \<Rightarrow> True | Some t \<Rightarrow> srv_match s t b)
                      (List.map_filter (srv_books s) (srv_catalog s))))"

definition srv_create_book :: "json \<Rightarrow> server \<Rightarrow> server \<times> book api_result" where
  "srv_create_book j s =
     (case (json_str j ''title'', json_str j ''author'', json_int j ''total_copies'') of
        (Some t, Some a, Some n) \<Rightarrow>
          if t = [] \<or> a = [] \<or> n < 0
          then (s, RequestError (Some ''title, author and total_copies are required''))
          else (let b = \<lparr>book_id = srv_next_book s, title = t, author = a,
                         genre = json_str j ''genre'', summary = json_str j ''summary'',
                         ai_summary = None, total_copies = n, available_copies = n\<rparr> in
                (s\<lparr>srv_books := (srv_books s)(srv_next_book s \<mapsto> b),
                   srv_catalog := srv_catalog s @ [srv_next_book s],
                   srv_next_book := srv_next_book s + 1\<rparr>,
                 Success b))
      | _ \<Rightarrow> (s, RequestError (Some ''title, author and total_copies are required'')))"

definition srv_list_users :: "server \<Rightarrow> user list api_result" where
  "srv_list_users s = Success (List.map_filter (srv_users s) [1..srv_next_user s - 1])"

definition srv_handle :: "ai_model \<Rightarrow> request \<Rightarrow> server \<Rightarrow> server \<times> srv_response" where
  "srv_handle m q s =
     (case req_method q of
        GET \<Rightarrow>
          (case strip_prefix ''/books/'' (req_path q) of
             Some seg \<Rightarrow>
               if seg = [] then (s, SBooks (srv_list_books (map_of (req_params q) ''q'') s))
               else (case parse_id seg of Some k \<Rightarrow> (s, SBook (srv_get_book k s)) | None \<Rightarrow> (s, SNotFound))
           | None \<Rightarrow>
               if req_path q = ''/users/'' then (s, SUsers (srv_list_users s)) else
               (case strip_prefix ''/bookings/user/'' (req_path q) of
                  Some seg \<Rightarrow> (case parse_id seg of Some u \<Rightarrow> (s, SBookings (srv_user_bookings u s)) | None \<Rightarrow> (s, SNotFound))
                | None \<Rightarrow> (s, SNotFound)))
      | POST \<Rightarrow>
          (case req_body q of
             None \<Rightarrow> (s, SNotFound)
           | Some j \<Rightarrow>
               if req_path q = ''/books/'' then (let (s', r) = srv_create_book j s in (s', SCreatedBook r))
               else if req_path q = ''/bookings/'' then (let (s', r) = srv_create_booking j s in (s', SBooking r))
               else if req_path q = ''/books/summarize'' then (s, SSummary (srv_summarize (ai_summarize m) j s))
               else if req_path q = ''/users/'' then (let (s', r) = srv_create_user j s in (s', SUser r))
               else if req_path q = ''/books/recommend'' then (s, SRecommend (srv_recommend (ai_recommend m) j))
               else (s, SNotFound)))"

definition book_ok :: "book \<Rightarrow> bool" where
  "book_ok b = (0 \<le> available_copies b \<and> available_copies b \<le> total_copies b)"

definition srv_inv :: "server \<Rightarrow> bool" where
  "srv_inv s = (\<forall>k b. srv_books s k = Some b \<longrightarrow> book_ok b \<and> book_id b = k)"

text \<open>The user table: every user is stored under its own id, below the next free id, which is positive.\<close>

definition users_ok :: "server \<Rightarrow> bool" where
  "users_ok s = (0 < srv_next_user s \<and>
     (\<forall>u usr. srv_users s u = Some usr \<longrightarrow> user_id usr = u \<and> 0 < u \<and> u < srv_next_user s))"

text \<open>
  The catalog: the ids the list endpoint walks are exactly the stored books, each once,
  all below the next free id.
\<close>

definition catalog_ok :: "server \<Rightarrow> bool" where
  "catalog_ok s = (distinct (srv_catalog s) \<and> set (srv_catalog s) = dom (srv_books s) \<and>
     (\<forall>k \<in> dom (srv_books s). k < srv_next_book s))"

definition ex_server :: server where
  "ex_server = \<lparr>srv_books = [12 \<mapsto> ex_book], srv_users = [5 \<mapsto> ex_user], srv_bookings = [],
     srv_next_booking = 1, srv_next_user = 6, srv_clock = 1700000000,
     srv_catalog = [12], srv_next_book = 13,
     srv_match = \<lambda>t b. t \<noteq> [] \<and> (\<exists>i \<le> length (title b). take (length t) (drop i (title b)) = t)\<rparr>"

definition ex_gen :: ai_model where
  "ex_gen = \<lparr>ai_summarize = \<lambda>t. ''In short: '' @ t,
     ai_recommend = \<lambda>q. if q = [] then None else Some ''The Hound of the Baskervilles''\<rparr>"

section \<open>Lemmas\<close>

lemma strip_prefix_append [simp]: "strip_prefix xs (xs @ ys) = Some ys"
  by (induction xs) auto

lemma parse_id_js_String [simp]: "parse_id (js_String k) = Some k"
  by (simp add: parse_id_def js_Number_js_String)

lemma json_int_JInt [simp]: "json_get j k = Some (JInt n) \<Longrightarrow> json_int j k = Some n"
  by (simp add: json_int_def)

lemma srv_handle_getBook [simp]:
  "srv_handle gen (getBook (js_String k)) s = (s, SBook (srv_get_book k s))"
  by (simp add: srv_handle_def getBook_def api_get_def)

lemma srv_get_book_Success: "srv_get_book k s = Success b \<Longrightarrow> srv_books s k = Some b"
  by (simp add: srv_get_book_def split: option.splits)

lemma srv_inv_take_copy:
  assumes "srv_inv s" and "srv_books s k = Some b" and "\<not> available_copies b \<le> 0"
  shows "srv_inv (s\<lparr>srv_books := (srv_books s)(k \<mapsto> b\<lparr>available_copies := available_copies b - 1\<rparr>),
           srv_bookings := bs, srv_next_booking := n\<rparr>)"
  unfolding srv_inv_def
proof (intro allI impI)
  from assms have ok: "available_copies b \<le> total_copies b" "book_id b = k"
    by (simp_all add: srv_inv_def book_ok_def)
  fix k' b'
  assume h: "srv_books (s\<lparr>srv_books := (srv_books s)(k \<mapsto> b\<lparr>available_copies := available_copies b - 1\<rparr>),
     srv_bookings := bs, srv_next_booking := n\<rparr>) k' = Some b'"
  show "book_ok b' \<and> book_id b' = k'"
  proof (cases "k' = k")
    case True
    with h ok assms(3) show ?thesis by (auto simp: book_ok_def)
  next
    case False
    with h assms(1) show ?thesis by (simp add: srv_inv_def)
  qed
qed

lemma srv_create_booking_taken:
  assumes "json_int j ''user_id'' = Some u" and "json_int j ''book_id'' = Some k"
    and "srv_users s u = Some usr" and "srv_books s k = Some b" and "0 < available_copies b"
  shows "srv_create_booking j s =
    (s\<lparr>srv_books := (srv_books s)(k \<mapsto> b\<lparr>available_copies := available_copies b - 1\<rparr>),
       srv_bookings := srv_bookings s @ [\<lparr>booking_id = srv_next_booking s, booking_user = u,
         booking_book = k, status = ''active'', booking_date = srv_clock s\<rparr>],
       srv_next_booking := srv_next_booking s + 1\<rparr>,
     Success \<lparr>booking_id = srv_next_booking s, booking_user = u, booking_book = k,
       status = ''active'', booking_date = srv_clock s\<rparr>)"
  using assms by (simp add: srv_create_booking_def Let_def)

lemma srv_create_booking_no_copies:
  assumes "json_int j ''user_id'' = Some u" and "json_int j ''book_id'' = Some k"
    and "srv_users s u = Some usr" and "srv_books s k = Some b" and "available_copies b \<le> 0"
  shows "srv_create_booking j s = (s, RequestError (Some ''No copies available''))"
  using assms by (simp add: srv_create_booking_def)

lemma srv_handle_createBooking [simp]:
  "srv_handle gen (createBooking j) s = (fst (srv_create_booking j s), SBooking (snd (srv_create_booking j s)))"
  by (simp add: srv_handle_def createBooking_def api_post_def split_def Let_def)

lemma srv_create_booking_inv:
  assumes "srv_inv s"
  shows "srv_inv (fst (srv_create_booking j s))"
  using assms srv_inv_take_copy [OF assms]
  by (auto simp: srv_create_booking_def Let_def split: option.split prod.split)

lemma srv_create_user_frame [simp]:
  "srv_books (fst (srv_create_user j s)) = srv_books s"
  "srv_bookings (fst (srv_create_user j s)) = srv_bookings s"
  by (simp_all add: srv_create_user_def Let_def split: option.split)

lemma srv_inv_create_user [simp]: "srv_inv (fst (srv_create_user j s)) = srv_inv s"
  by (simp add: srv_inv_def)

lemma srv_create_book_frame [simp]:
  "srv_users (fst (srv_create_book j s)) = srv_users s"
  "srv_bookings (fst (srv_create_book j s)) = srv_bookings s"
  "srv_next_user (fst (srv_create_book j s)) = srv_next_user s"
  by (simp_all add: srv_create_book_def Let_def split: option.split)

lemma srv_create_book_inv:
  assumes "srv_inv s"
  shows "srv_inv (fst (srv_create_book j s))"
  using assms by (auto simp: srv_create_book_def srv_inv_def book_ok_def Let_def split: option.split)

lemma srv_create_book_success:
  assumes "srv_create_book j s = (s', Success b)"
  shows "book_id b = srv_next_book s \<and> srv_books s' = (srv_books s)(book_id b \<mapsto> b) \<and>
         srv_catalog s' = srv_catalog s @ [book_id b] \<and> srv_next_book s' = srv_next_book s + 1 \<and>
         srv_match s' = srv_match s \<and> available_copies b = total_copies b \<and> 0 \<le> total_copies b"
  using assms by (auto simp: srv_create_book_def Let_def split: option.splits if_splits)

lemma srv_create_book_unchanged:
  assumes "\<forall>b. snd (srv_create_book j s) \<noteq> Success b"
  shows "fst (srv_create_book j s) = s"
  using assms by (auto simp: srv_create_book_def Let_def split: option.splits)

lemma catalog_ok_create_book:
  assumes "catalog_ok s"
  shows "catalog_ok (fst (srv_create_book j s))"
proof (cases "\<exists>b. snd (srv_create_book j s) = Success b")
  case True
  then obtain b s' where c: "srv_create_book j s = (s', Success b)" by (metis prod.collapse)
  note e = srv_create_book_success [OF c]
  have lt: "k < srv_next_book s" if "srv_books s k = Some y" for k y
  proof -
    have "k \<in> dom (srv_books s)" using that by (rule domI)
    with assms show ?thesis unfolding catalog_ok_def by blast
  qed
  then have "srv_next_book s \<notin> set (srv_catalog s)" using assms by (auto simp: catalog_ok_def)
  moreover have "k < srv_next_book s + 1" if "srv_books s k = Some y" for k y
    using lt [OF that] by simp
  ultimately show ?thesis using assms c e by (auto simp: catalog_ok_def)
next
  case False
  with assms show ?thesis by (simp add: srv_create_book_unchanged)
qed

lemma catalog_ok_create_booking:
  assumes "catalog_ok s"
  shows "catalog_ok (fst (srv_create_booking j s))"
  using assms by (auto simp: srv_create_booking_def catalog_ok_def Let_def split: option.split)

lemma catalog_ok_create_user [simp]: "catalog_ok (fst (srv_create_user j s)) = catalog_ok s"
  by (simp add: catalog_ok_def srv_create_user_def Let_def split: option.split)

lemma srv_handle_catalog:
  assumes "catalog_ok s"
  shows "catalog_ok (fst (srv_handle gen q s))"
  using assms catalog_ok_create_booking [OF assms] catalog_ok_create_book [OF assms]
  by (auto simp: srv_handle_def Let_def split_def split: http_method.split option.split)

lemma srv_handle_inv:
  assumes "srv_inv s"
  shows "srv_inv (fst (srv_handle gen q s))"
  using assms srv_create_booking_inv [OF assms] srv_create_book_inv [OF assms]
  by (auto simp: srv_handle_def Let_def split_def split: http_method.split option.split)

lemma srv_handle_book_ok:
  assumes "srv_inv s" and "snd (srv_handle gen q s) = SBook (Success b)"
  shows "book_ok b"
  using assms
  by (auto simp: srv_handle_def srv_get_book_def srv_inv_def Let_def split_def
      split: http_method.splits option.splits if_splits)

end
