(* ===== verification/System.thy ===== *)
theory System
  imports BookDetails Server
begin

text \<open>
  The book page (\<^verbatim>\<open>BookDetails.jsx\<close> with its \<^verbatim>\<open>BookingForm\<close>) together with the server:
  the record \<open>sys\<close>. \<open>sys_step\<close> is one event of the whole system: a user event on the page;
  the network delivering any in-flight request to the server and its response back
  (\<open>NetDeliver\<close>), the server handling a request whose response is lost (\<open>NetLose\<close>), a
  request that never reaches the server (\<open>NetFail\<close>); or another client's booking
  reaching the server (\<open>OtherClient\<close>). Both losses reach the page as transport errors.
  \<open>sys_reach\<close> are the states reachable from a mounted page and a server that satisfies
  its inventory invariant.
\<close>

record sys =
  sys_page :: page
  sys_srv :: server

datatype sys_event =
    UClickSummarize | USubmitBooking | UEditUserId string
  | NetDeliver nat | NetLose nat | NetFail nat
  | OtherClient json

text \<open>The server's answer as the page's continuation receives it; an unrouted request is a 404.\<close>

fun as_response :: "dtag \<Rightarrow> srv_response \<Rightarrow> response" where
  "as_response TLoad (SBook r) = RBook r"
| "as_response TSummarize (SSummary r) = RSummary r"
| "as_response TBooking (SBooking r) = RBooking r"
| "as_response TLoad _ = RBook (RequestError (Some ''Not Found''))"
| "as_response TSummarize _ = RSummary (RequestError (Some ''Not Found''))"
| "as_response TBooking _ = RBooking (RequestError (Some ''Not Found''))"

fun no_response :: "dtag \<Rightarrow> response" where
  "no_response TLoad = RBook TransportError"
| "no_response TSummarize = RSummary TransportError"
| "no_response TBooking = RBooking TransportError"

fun sys_step :: "ai_model \<Rightarrow> storage \<Rightarrow> string \<Rightarrow> sys \<Rightarrow> sys_event \<Rightarrow> sys" where
  "sys_step gen ls bid s UClickSummarize = s\<lparr>sys_page := page_step ls bid (sys_page s) ClickSummarize\<rparr>"
| "sys_step gen ls bid s USubmitBooking = s\<lparr>sys_page := page_step ls bid (sys_page s) SubmitBooking\<rparr>"
| "sys_step gen ls bid s (UEditUserId v) = s\<lparr>sys_page := page_step ls bid (sys_page s) (EditUserId v)\<rparr>"
| "sys_step gen ls bid s (NetDeliver i) =
     (if i < length (pg_pending (sys_page s))
      then (let (t, q) = pg_pending (sys_page s) ! i; (srv', r) = srv_handle gen q (sys_srv s) in
            \<lparr>sys_page = page_step ls bid (sys_page s) (Respond i (as_response t r)), sys_srv = srv'\<rparr>)
      else s)"
| "sys_step gen ls bid s (NetLose i) =
     (if i < length (pg_pending (sys_page s))
      then (let (t, q) = pg_pending (sys_page s) ! i in
            \<lparr>sys_page = page_step ls bid (sys_page s) (Respond i (no_response t)),
             sys_srv = fst (srv_handle gen q (sys_srv s))\<rparr>)
      else s)"
| "sys_step gen ls bid s (NetFail i) =
     (if i < length (pg_pending (sys_page s))
      then s\<lparr>sys_page := page_step ls bid (sys_page s) (Respond i (no_response (fst (pg_pending (sys_page s) ! i))))\<rparr>
      else s)"
| "sys_step gen ls bid s (OtherClient j) = s\<lparr>sys_srv := fst (srv_create_booking j (sys_srv s))\<rparr>"

fun sys_run :: "ai_model \<Rightarrow> storage \<Rightarrow> string \<Rightarrow> sys \<Rightarrow> sys_event list \<Rightarrow> sys" where
  "sys_run gen ls bid s [] = s"
| "sys_run gen ls bid s (e # es) = sys_run gen ls bid (sys_step gen ls bid s e) es"

definition sys_init :: "storage \<Rightarrow> string \<Rightarrow> server \<Rightarrow> sys" where
  "sys_init ls bid srv = \<lparr>sys_page = page_init ls bid, sys_srv = srv\<rparr>"

inductive sys_reach :: "ai_model \<Rightarrow> storage \<Rightarrow> string \<Rightarrow> sys \<Rightarrow> bool" for gen ls bid where
  init: "srv_inv srv \<Longrightarrow> sys_reach gen ls bid (sys_init ls bid srv)"
| step: "sys_reach gen ls bid s \<Longrightarrow> sys_reach gen ls bid (sys_step gen ls bid s e)"

definition sys_inv :: "sys \<Rightarrow> bool" where
  "sys_inv s =
     (srv_inv (sys_srv s) \<and> (case bd_book (pg_d (sys_page s)) of None \<Rightarrow> True | Some b \<Rightarrow> book_ok b))"

text \<open>Example systems on book \<^verbatim>\<open>12\<close> for user \<^verbatim>\<open>5\<close>: the loaded page, the page with a booking
  in flight against \<open>ex_server\<close>, and the same against a server where the book is sold out.\<close>

definition ex_sys_loaded :: sys where
  "ex_sys_loaded = sys_step ex_gen ex_storage ''12'' (sys_init ex_storage ''12'' ex_server) (NetDeliver 0)"

definition ex_sys_submitted :: sys where
  "ex_sys_submitted = sys_step ex_gen ex_storage ''12'' ex_sys_loaded USubmitBooking"

definition ex_sold_out :: server where
  "ex_sold_out = ex_server\<lparr>srv_books := [12 \<mapsto> ex_book\<lparr>available_copies := 0\<rparr>]\<rparr>"

section \<open>Lemmas\<close>

lemma as_response_book: "as_response t r = RBook (Success b) \<Longrightarrow> r = SBook (Success b)"
  by (cases t; cases r) auto

lemma no_response_book [simp]: "no_response t \<noteq> RBook (Success b)"
  by (cases t) auto

lemma sys_step_deliver:
  assumes "i < length (pg_pending (sys_page s))" and "pg_pending (sys_page s) ! i = (t, q)"
  shows "sys_step gen ls bid s (NetDeliver i) =
    \<lparr>sys_page = page_step ls bid (sys_page s) (Respond i (as_response t (snd (srv_handle gen q (sys_srv s))))),
     sys_srv = fst (srv_handle gen q (sys_srv s))\<rparr>"
  using assms by (simp add: Let_def split_def del: page_step.simps)

lemma sys_step_lose:
  assumes "i < length (pg_pending (sys_page s))" and "pg_pending (sys_page s) ! i = (t, q)"
  shows "sys_step gen ls bid s (NetLose i) =
    \<lparr>sys_page = page_step ls bid (sys_page s) (Respond i (no_response t)),
     sys_srv = fst (srv_handle gen q (sys_srv s))\<rparr>"
  using assms by (simp add: Let_def split_def del: page_step.simps)

text \<open>What a delivered response does to the page, by kind.\<close>

lemma page_deliver_book:
  assumes "i < length (pg_pending p)" and "fst (pg_pending p ! i) = TLoad"
  shows "page_step ls bid p (Respond i (RBook r)) =
    p\<lparr>pg_d := reconcile ls (load_done (pg_d p) r), pg_pending := remove_nth i (pg_pending p)\<rparr>"
  using assms by simp

lemma page_deliver_booking_success:
  assumes "i < length (pg_pending p)" and "fst (pg_pending p ! i) = TBooking"
  shows "page_step ls bid p (Respond i (RBooking (Success bk))) =
    p\<lparr>pg_d := (pg_d p)\<lparr>bd_loading := True, bd_form := None\<rparr>,
      pg_pending := remove_nth i (pg_pending p) @ [(TLoad, getBook bid)]\<rparr>"
  using assms by (simp add: booking_done_eq reconcile_def detail_shown_def issue_def)

lemma page_deliver_booking_failure:
  assumes "i < length (pg_pending p)" and "fst (pg_pending p ! i) = TBooking"
    and "onBooked_arg r = None" and "bd_form (pg_d p) = Some f" and "detail_shown (pg_d p)"
  shows "page_step ls bid p (Respond i (RBooking r)) =
    p\<lparr>pg_d := (pg_d p)\<lparr>bd_form := Some (handleSubmit_done f r)\<rparr>,
      pg_pending := remove_nth i (pg_pending p)\<rparr>"
  using assms by (simp add: booking_done_eq reconcile_def detail_shown_def issue_def)

lemma page_step_book_ok:
  assumes "case bd_book (pg_d p) of None \<Rightarrow> True | Some b \<Rightarrow> book_ok b"
    and "\<And>i b. e = Respond i (RBook (Success b)) \<Longrightarrow> book_ok b"
  shows "case bd_book (pg_d (page_step ls bid p e)) of None \<Rightarrow> True | Some b \<Rightarrow> book_ok b"
  using page_step_book [of ls bid p e] assms by auto

lemma sys_inv_page_step:
  assumes "sys_inv s" and "\<And>i b. e = Respond i (RBook (Success b)) \<Longrightarrow> book_ok b"
  shows "sys_inv (s\<lparr>sys_page := page_step ls bid (sys_page s) e\<rparr>)"
proof -
  have "case bd_book (pg_d (page_step ls bid (sys_page s) e)) of None \<Rightarrow> True | Some b \<Rightarrow> book_ok b"
    using assms by (intro page_step_book_ok) (auto simp: sys_inv_def)
  with assms(1) show ?thesis by (simp add: sys_inv_def del: page_step.simps)
qed

lemma sys_inv_step:
  assumes "sys_inv s"
  shows "sys_inv (sys_step gen ls bid s e)"
proof (cases e)
  case (NetDeliver i)
  show ?thesis
  proof (cases "i < length (pg_pending (sys_page s))")
    case True
    obtain t q where tq: "pg_pending (sys_page s) ! i = (t, q)" by (cases "pg_pending (sys_page s) ! i")
    have srv: "srv_inv (fst (srv_handle gen q (sys_srv s)))"
      using assms srv_handle_inv by (simp add: sys_inv_def)
    have ok: "book_ok b" if "as_response t (snd (srv_handle gen q (sys_srv s))) = RBook (Success b)" for b
      using assms as_response_book [OF that] by (auto simp: sys_inv_def intro: srv_handle_book_ok)
    have "case bd_book (pg_d (page_step ls bid (sys_page s)
              (Respond i (as_response t (snd (srv_handle gen q (sys_srv s))))))) of
            None \<Rightarrow> True | Some b \<Rightarrow> book_ok b"
      using assms ok by (intro page_step_book_ok) (auto simp: sys_inv_def)
    moreover note sys_step_deliver [OF True tq, of gen ls bid]
    ultimately show ?thesis using srv NetDeliver by (simp add: sys_inv_def del: page_step.simps)
  qed (use NetDeliver assms in simp)
next
  case (NetLose i)
  show ?thesis
  proof (cases "i < length (pg_pending (sys_page s))")
    case True
    obtain t q where tq: "pg_pending (sys_page s) ! i = (t, q)" by (cases "pg_pending (sys_page s) ! i")
    have srv: "srv_inv (fst (srv_handle gen q (sys_srv s)))"
      using assms srv_handle_inv by (simp add: sys_inv_def)
    have "case bd_book (pg_d (page_step ls bid (sys_page s) (Respond i (no_response t)))) of
            None \<Rightarrow> True | Some b \<Rightarrow> book_ok b"
      using assms by (intro page_step_book_ok) (auto simp: sys_inv_def)
    moreover note sys_step_lose [OF True tq, of gen ls bid]
    ultimately show ?thesis using srv NetLose by (simp add: sys_inv_def del: page_step.simps)
  qed (use NetLose assms in simp)
next
  case (NetFail i)
  with assms sys_inv_page_step [of s "Respond i (no_response t)" for t] show ?thesis
    by (simp del: page_step.simps)
next
  case (OtherClient j)
  with assms srv_create_booking_inv show ?thesis by (simp add: sys_inv_def)
qed (use assms in \<open>auto intro: sys_inv_page_step simp del: page_step.simps\<close>)

lemma ex_bid: "js_String 12 = ''12''"
  by code_simp

lemma ex_sys_loaded_eq: "ex_sys_loaded = \<lparr>sys_page = ex_loaded, sys_srv = ex_server\<rparr>"
proof -
  have "srv_handle ex_gen (getBook ''12'') ex_server = (ex_server, SBook (Success ex_book))"
    using srv_handle_getBook [of ex_gen 12 ex_server]
    by (simp add: ex_bid srv_get_book_def ex_server_def)
  then show ?thesis
    by (simp add: ex_sys_loaded_def sys_init_def page_init_def load_def ex_loaded_def
        del: page_step.simps)
qed

lemma ex_sys_submitted_eq: "ex_sys_submitted = \<lparr>sys_page = ex_submitted, sys_srv = ex_server\<rparr>"
  by (simp add: ex_sys_submitted_def ex_sys_loaded_eq ex_submitted_def del: page_step.simps)

lemma sys_reach_inv: "sys_reach gen ls bid s \<Longrightarrow> sys_inv s"
proof (induction rule: sys_reach.induct)
  case (init srv)
  then show ?case
    by (simp add: sys_inv_def sys_init_def page_init_def load_def BookDetails_init_def reconcile_def)
next
  case (step s e)
  from step.IH show ?case by (rule sys_inv_step)
qed

section \<open>Properties of the system\<close>

text \<open>
  C14. In every reachable state of page and server, the book the page displays and every
  book the server stores satisfy the inventory invariant of the data model,
  \<open>0 \<le> available_copies \<le> total_copies\<close>: the page only ever displays a server snapshot, and
  no interleaving of bookings, of this page's or of other clients', takes a copy that is
  not there.
\<close>

theorem availability_bounded:
  assumes "sys_reach gen ls bid s"
  shows "(\<forall>b. bd_book (pg_d (sys_page s)) = Some b \<longrightarrow>
            0 \<le> available_copies b \<and> available_copies b \<le> total_copies b) \<and>
         (\<forall>k b. srv_books (sys_srv s) k = Some b \<longrightarrow>
            0 \<le> available_copies b \<and> available_copies b \<le> total_copies b)"
  using sys_reach_inv [OF assms] by (auto simp: sys_inv_def srv_inv_def book_ok_def)

theorem availability_bounded_witness:
  "sys_reach ex_gen ex_storage ''12'' ex_sys_loaded \<and>
   bd_book (pg_d (sys_page ex_sys_loaded)) = Some ex_book \<and>
   0 \<le> available_copies ex_book \<and> available_copies ex_book \<le> total_copies ex_book"
proof -
  have inv: "srv_inv ex_server"
    by (simp add: srv_inv_def ex_server_def book_ok_def ex_book_def)
  have r: "sys_reach ex_gen ex_storage ''12'' ex_sys_loaded"
    unfolding ex_sys_loaded_def by (rule sys_reach.step, rule sys_reach.init, rule inv)
  have b: "bd_book (pg_d (sys_page ex_sys_loaded)) = Some ex_book"
    by (simp add: ex_sys_loaded_eq ex_loaded_eq)
  show ?thesis using availability_bounded [OF r] r b by blast
qed

text \<open>
  C15. A refetch shows the server's state at the moment the server answers it: delivering
  an in-flight \<^verbatim>\<open>getBook(id)\<close> leaves the server unchanged and displays the server's record
  of that book; for an id the server does not know, the page keeps its book and shows
  \<^verbatim>\<open>'Failed to load book'\<close>.
\<close>

theorem refetch_shows_server_book:
  assumes "i < length (pg_pending (sys_page s))"
    and "pg_pending (sys_page s) ! i = (TLoad, getBook (js_String k))"
  shows "sys_srv (sys_step gen ls bid s (NetDeliver i)) = sys_srv s \<and>
         bd_book (pg_d (sys_page (sys_step gen ls bid s (NetDeliver i)))) =
           (case srv_books (sys_srv s) k of Some b \<Rightarrow> Some b | None \<Rightarrow> bd_book (pg_d (sys_page s))) \<and>
         bd_error (pg_d (sys_page (sys_step gen ls bid s (NetDeliver i)))) =
           (case srv_books (sys_srv s) k of Some b \<Rightarrow> bd_error (pg_d (sys_page s))
            | None \<Rightarrow> ''Failed to load book'')"
  using sys_step_deliver [OF assms, of gen ls bid] page_deliver_book [OF assms(1)] assms(2)
  by (simp add: load_done_def srv_get_book_def split: option.split del: page_step.simps)

theorem refetch_shows_server_book_witness:
  "0 < length (pg_pending (sys_page (sys_init ex_storage ''12'' ex_server))) \<and>
   pg_pending (sys_page (sys_init ex_storage ''12'' ex_server)) ! 0 = (TLoad, getBook (js_String 12)) \<and>
   bd_book (pg_d (sys_page ex_sys_loaded)) = Some ex_book"
proof -
  have h: "0 < length (pg_pending (sys_page (sys_init ex_storage ''12'' ex_server)))"
    "pg_pending (sys_page (sys_init ex_storage ''12'' ex_server)) ! 0 = (TLoad, getBook (js_String 12))"
    by (simp_all add: sys_init_def page_init_def load_def ex_bid)
  have "bd_book (pg_d (sys_page ex_sys_loaded)) = Some ex_book"
    unfolding ex_sys_loaded_def using refetch_shows_server_book [OF h, of ex_gen ex_storage "''12''"]
    by (simp add: sys_init_def ex_server_def del: sys_step.simps page_step.simps)
  with h show ?thesis by blast
qed

text \<open>
  C16. A booking followed by its refetch shows one copy fewer: when the server receives a
  booking of a known user for a book with \<open>N > 0\<close> available copies, it records an active
  booking and stores \<open>N - 1\<close>, and when the refetch the page then sends is answered, the
  page displays the book with \<open>N - 1\<close> available copies.
\<close>

theorem booking_refetch_shows_decrement:
  assumes "i < length (pg_pending (sys_page s))"
    and "pg_pending (sys_page s) ! i = (TBooking, createBooking (booking_payload (FNum u) (js_String k)))"
    and "srv_users (sys_srv s) u = Some usr" and "srv_books (sys_srv s) k = Some b"
    and "0 < available_copies b"
  shows "bd_book (pg_d (sys_page (sys_run gen ls (js_String k) s
           [NetDeliver i, NetDeliver (length (pg_pending (sys_page s)) - 1)])))
           = Some (b\<lparr>available_copies := available_copies b - 1\<rparr>) \<and>
         last (srv_bookings (sys_srv (sys_run gen ls (js_String k) s
           [NetDeliver i, NetDeliver (length (pg_pending (sys_page s)) - 1)])))
           = \<lparr>booking_id = srv_next_booking (sys_srv s), booking_user = u, booking_book = k,
              status = ''active'', booking_date = srv_clock (sys_srv s)\<rparr>"
proof -
  let ?bid = "js_String k"
  let ?P = "pg_pending (sys_page s)"
  note taken = srv_create_booking_taken [OF _ _ assms(3-5), of "booking_payload (FNum u) ?bid", simplified]
  define s1 where "s1 = sys_step gen ls ?bid s (NetDeliver i)"
  have p1: "pg_pending (sys_page s1) = remove_nth i ?P @ [(TLoad, getBook ?bid)]"
    and b1: "srv_books (sys_srv s1) k = Some (b\<lparr>available_copies := available_copies b - 1\<rparr>)"
    and l1: "last (srv_bookings (sys_srv s1)) = \<lparr>booking_id = srv_next_booking (sys_srv s), booking_user = u,
               booking_book = k, status = ''active'', booking_date = srv_clock (sys_srv s)\<rparr>"
    using sys_step_deliver [OF assms(1,2), of gen ls ?bid] page_deliver_booking_success [OF assms(1)] assms(2) taken
    by (simp_all add: s1_def del: page_step.simps)
  have n: "length ?P - 1 < length (pg_pending (sys_page s1))"
    and t: "pg_pending (sys_page s1) ! (length ?P - 1) = (TLoad, getBook ?bid)"
    using assms(1) p1 by (simp_all add: nth_append)
  have "sys_run gen ls ?bid s [NetDeliver i, NetDeliver (length ?P - 1)] =
          sys_step gen ls ?bid s1 (NetDeliver (length ?P - 1))"
    by (simp add: s1_def del: sys_step.simps)
  with sys_step_deliver [OF n t, of gen ls ?bid] page_deliver_book [OF n] t b1 l1 show ?thesis
    by (simp add: load_done_def srv_get_book_def del: page_step.simps)
qed

theorem booking_refetch_shows_decrement_witness:
  "0 < length (pg_pending (sys_page ex_sys_submitted)) \<and>
   pg_pending (sys_page ex_sys_submitted) ! 0 =
     (TBooking, createBooking (booking_payload (FNum 5) (js_String 12))) \<and>
   srv_users (sys_srv ex_sys_submitted) 5 = Some ex_user \<and>
   srv_books (sys_srv ex_sys_submitted) 12 = Some ex_book \<and> 0 < available_copies ex_book \<and>
   bd_book (pg_d (sys_page (sys_run ex_gen ex_storage ''12'' ex_sys_submitted [NetDeliver 0, NetDeliver 0])))
     = Some (ex_book\<lparr>available_copies := 2\<rparr>)"
proof -
  have h: "0 < length (pg_pending (sys_page ex_sys_submitted))"
    "pg_pending (sys_page ex_sys_submitted) ! 0 =
       (TBooking, createBooking (booking_payload (FNum 5) (js_String 12)))"
    "srv_users (sys_srv ex_sys_submitted) 5 = Some ex_user"
    "srv_books (sys_srv ex_sys_submitted) 12 = Some ex_book" "0 < available_copies ex_book"
    by (simp_all add: ex_sys_submitted_eq ex_submitted_eq ex_bid ex_server_def ex_book_def)
  have "length (pg_pending (sys_page ex_sys_submitted)) - 1 = 0"
    by (simp add: ex_sys_submitted_eq ex_submitted_eq)
  with conjunct1 [OF booking_refetch_shows_decrement [OF h, of ex_gen ex_storage]]
  have "bd_book (pg_d (sys_page (sys_run ex_gen ex_storage ''12'' ex_sys_submitted [NetDeliver 0, NetDeliver 0])))
          = Some (ex_book\<lparr>available_copies := 2\<rparr>)"
    by (simp add: ex_bid ex_book_def del: sys_run.simps)
  with h show ?thesis by blast
qed

text \<open>
  C17. A booking of a book with no copy left is rejected without effect: the server's
  state is unchanged, the page sends no refetch, and the form shows the server's message
  \<^verbatim>\<open>'No copies available'\<close> with its button enabled again.
\<close>

theorem booking_no_copies_rejected:
  assumes "i < length (pg_pending (sys_page s))"
    and "pg_pending (sys_page s) ! i = (TBooking, createBooking (booking_payload (FNum u) (js_String k)))"
    and "srv_users (sys_srv s) u = Some usr" and "srv_books (sys_srv s) k = Some b"
    and "available_copies b \<le> 0"
    and "bd_form (pg_d (sys_page s)) = Some f" and "detail_shown (pg_d (sys_page s))"
  shows "sys_step gen ls bid s (NetDeliver i) =
    \<lparr>sys_page = (sys_page s)\<lparr>pg_d := (pg_d (sys_page s))\<lparr>bd_form :=
        Some (f\<lparr>bf_error := ''No copies available'', bf_loading := False\<rparr>)\<rparr>,
       pg_pending := remove_nth i (pg_pending (sys_page s))\<rparr>,
     sys_srv = sys_srv s\<rparr>"
proof -
  have "srv_create_booking (booking_payload (FNum u) (js_String k)) (sys_srv s) =
          (sys_srv s, RequestError (Some ''No copies available''))"
    using assms(3-5) by (intro srv_create_booking_no_copies) simp_all
  with sys_step_deliver [OF assms(1,2), of gen ls bid]
    page_deliver_booking_failure [OF assms(1) _ _ assms(6,7)] assms(2)
  show ?thesis by (simp add: handleSubmit_done_def del: page_step.simps)
qed

theorem booking_no_copies_rejected_witness:
  "0 < length (pg_pending (sys_page (ex_sys_submitted\<lparr>sys_srv := ex_sold_out\<rparr>))) \<and>
   sys_srv (sys_step ex_gen ex_storage ''12'' (ex_sys_submitted\<lparr>sys_srv := ex_sold_out\<rparr>) (NetDeliver 0))
     = ex_sold_out \<and>
   pg_pending (sys_page (sys_step ex_gen ex_storage ''12'' (ex_sys_submitted\<lparr>sys_srv := ex_sold_out\<rparr>)
     (NetDeliver 0))) = []"
proof -
  let ?s = "ex_sys_submitted\<lparr>sys_srv := ex_sold_out\<rparr>"
  let ?f = "(BookingForm_init ex_storage)\<lparr>bf_loading := True\<rparr>"
  have h: "0 < length (pg_pending (sys_page ?s))"
    "pg_pending (sys_page ?s) ! 0 = (TBooking, createBooking (booking_payload (FNum 5) (js_String 12)))"
    "srv_users (sys_srv ?s) 5 = Some ex_user"
    "srv_books (sys_srv ?s) 12 = Some (ex_book\<lparr>available_copies := 0\<rparr>)"
    "available_copies (ex_book\<lparr>available_copies := 0\<rparr>) \<le> 0"
    "bd_form (pg_d (sys_page ?s)) = Some ?f" "detail_shown (pg_d (sys_page ?s))"
    by (simp_all add: ex_sys_submitted_eq ex_submitted_eq ex_loaded_eq ex_bid ex_sold_out_def
        ex_server_def detail_shown_def)
  note eq = booking_no_copies_rejected [OF h, of ex_gen ex_storage "''12''"]
  have "sys_srv (sys_step ex_gen ex_storage ''12'' ?s (NetDeliver 0)) = ex_sold_out"
    by (simp only: eq) simp
  moreover have "pg_pending (sys_page (sys_step ex_gen ex_storage ''12'' ?s (NetDeliver 0))) = []"
    by (simp only: eq) (simp add: ex_sys_submitted_eq ex_submitted_eq remove_nth_def)
  ultimately show ?thesis using h(1) by blast
qed

text \<open>
  C18. A booking whose response is lost is taken by the server but not by the page: the
  server records it and stores one copy fewer, while the page sends no refetch, keeps
  displaying the old number of copies and tells the user \<^verbatim>\<open>'Booking failed'\<close>. The client has
  no way to learn that the booking happened short of a reload.
\<close>

theorem lost_booking_response_stale:
  assumes "i < length (pg_pending (sys_page s))"
    and "pg_pending (sys_page s) ! i = (TBooking, createBooking (booking_payload (FNum u) (js_String k)))"
    and "srv_users (sys_srv s) u = Some usr" and "srv_books (sys_srv s) k = Some b"
    and "0 < available_copies b"
    and "bd_form (pg_d (sys_page s)) = Some f" and "detail_shown (pg_d (sys_page s))"
  shows "sys_page (sys_step gen ls bid s (NetLose i)) =
           (sys_page s)\<lparr>pg_d := (pg_d (sys_page s))\<lparr>bd_form :=
              Some (f\<lparr>bf_error := ''Booking failed'', bf_loading := False\<rparr>)\<rparr>,
             pg_pending := remove_nth i (pg_pending (sys_page s))\<rparr> \<and>
         srv_books (sys_srv (sys_step gen ls bid s (NetLose i))) k =
           Some (b\<lparr>available_copies := available_copies b - 1\<rparr>)"
proof -
  note taken = srv_create_booking_taken [OF _ _ assms(3-5), of "booking_payload (FNum u) (js_String k)", simplified]
  show ?thesis
    using sys_step_lose [OF assms(1,2), of gen ls bid]
      page_deliver_booking_failure [OF assms(1) _ _ assms(6,7)] assms(2) taken
    by (simp add: handleSubmit_done_def del: page_step.simps)
qed

theorem lost_booking_response_stale_witness:
  "bd_book (pg_d (sys_page (sys_step ex_gen ex_storage ''12'' ex_sys_submitted (NetLose 0)))) = Some ex_book \<and>
   srv_books (sys_srv (sys_step ex_gen ex_storage ''12'' ex_sys_submitted (NetLose 0))) 12 =
     Some (ex_book\<lparr>available_copies := 2\<rparr>)"
proof -
  let ?f = "(BookingForm_init ex_storage)\<lparr>bf_loading := True\<rparr>"
  have h: "0 < length (pg_pending (sys_page ex_sys_submitted))"
    "pg_pending (sys_page ex_sys_submitted) ! 0 =
       (TBooking, createBooking (booking_payload (FNum 5) (js_String 12)))"
    "srv_users (sys_srv ex_sys_submitted) 5 = Some ex_user"
    "srv_books (sys_srv ex_sys_submitted) 12 = Some ex_book" "0 < available_copies ex_book"
    "bd_form (pg_d (sys_page ex_sys_submitted)) = Some ?f" "detail_shown (pg_d (sys_page ex_sys_submitted))"
    by (simp_all add: ex_sys_submitted_eq ex_submitted_eq ex_loaded_eq ex_bid ex_server_def
        ex_book_def detail_shown_def)
  note c = lost_booking_response_stale [OF h, of ex_gen ex_storage "''12''"]
  have "bd_book (pg_d (sys_page (sys_step ex_gen ex_storage ''12'' ex_sys_submitted (NetLose 0)))) = Some ex_book"
    by (simp only: conjunct1 [OF c]) (simp add: ex_sys_submitted_eq ex_submitted_eq ex_loaded_eq)
  moreover have "srv_books (sys_srv (sys_step ex_gen ex_storage ''12'' ex_sys_submitted (NetLose 0))) 12 =
     Some (ex_book\<lparr>available_copies := 2\<rparr>)"
    using conjunct2 [OF c] by (simp add: ex_book_def)
  ultimately show ?thesis by blast
qed

text \<open>
  The specification's summarization scenario, end to end: on the loaded page of book
  \<^verbatim>\<open>12\<close>, whose summary is \<^verbatim>\<open>"A detective story."\<close>, clicking Summarize sends
  \<^verbatim>\<open>summarize({book_id: 12})\<close>; when the server's answer arrives, the page renders the
  generated summary, the same book with its three available copies, and the Summarize
  button enabled again.
\<close>

theorem summarize_scenario:
  "BookDetails_view (pg_d (sys_page (sys_run ex_gen ex_storage ''12'' ex_sys_loaded [UClickSummarize, NetDeliver 0])))
     = VDetail ex_book ''In short: A detective story.'' True \<and>
   available_copies ex_book = 3"
proof -
  let ?q = "summarize (JObj [(''book_id'', JInt 12)])"
  have n: "js_Number ''12'' = Num 12" using js_Number_js_String [of 12] by (simp only: ex_bid)
  have c: "sys_step ex_gen ex_storage ''12'' ex_sys_loaded UClickSummarize =
    \<lparr>sys_page = \<lparr>pg_d = (pg_d ex_loaded)\<lparr>bd_summarizing := True\<rparr>, pg_pending = [(TSummarize, ?q)]\<rparr>,
     sys_srv = ex_server\<rparr>"
    by (simp add: ex_sys_loaded_eq ex_loaded_eq summarize_enabled_def detail_shown_def has_summary_def
        handleSummarize_def issue_def reconcile_def n ex_book_def del: js_Number.simps)
  have a: "srv_handle ex_gen ?q ex_server = (ex_server, SSummary (Success (Some ''In short: A detective story.'')))"
    by (simp add: srv_handle_def summarize_def api_post_def srv_summarize_def json_str_def json_int_def
        json_get_def ex_server_def ex_book_def ex_gen_def)
  let ?s1 = "sys_step ex_gen ex_storage ''12'' ex_sys_loaded UClickSummarize"
  have i: "0 < length (pg_pending (sys_page ?s1))" and t: "pg_pending (sys_page ?s1) ! 0 = (TSummarize, ?q)"
    by (simp_all only: c) simp_all
  have d: "sys_step ex_gen ex_storage ''12'' ?s1 (NetDeliver 0) =
    \<lparr>sys_page = page_step ex_storage ''12'' (sys_page ?s1)
        (Respond 0 (RSummary (Success (Some ''In short: A detective story.'')))),
     sys_srv = ex_server\<rparr>"
    using sys_step_deliver [OF i t, of ex_gen ex_storage "''12''"] a c
    by (simp del: page_step.simps sys_step.simps)
  have "sys_run ex_gen ex_storage ''12'' ex_sys_loaded [UClickSummarize, NetDeliver 0] =
          sys_step ex_gen ex_storage ''12'' ?s1 (NetDeliver 0)"
    by (simp del: sys_step.simps)
  with d c show ?thesis
    by (simp add: ex_loaded_eq handleSummarize_done_def reconcile_def detail_shown_def
        BookDetails_view_def summarize_enabled_def has_summary_def remove_nth_def ex_book_def
        del: sys_step.simps sys_run.simps)
qed

end
