(* ===== verification/Inventory.thy ===== *)
theory Inventory
  imports System
begin

text \<open>
  The inventory contract of the specification as an abstract machine, and its refinement
  by the book page together with the server. An abstract state holds, per book, the number
  of available copies and the list of bookings as (user, book) pairs. \<open>inv_step K\<close> is one
  step of an actor that may book the books in \<open>K\<close>: it changes nothing, or takes one copy of
  a book of \<open>K\<close> that has one and records the booking. The abstraction \<open>inv_of\<close> reads a
  server state this way.

  The actor of an event of \<open>System\<close> is the book page for \<^verbatim>\<open>/books/:id\<close>, whose only book is
  \<^verbatim>\<open>Number(id)\<close> (\<open>page_books\<close>), or another client, which may book any book
  (\<open>event_books\<close>). That the page's steps stay within its book rests on the requests it
  sends: \<open>page_requests_ok\<close> says every in-flight request of the page is the \<^verbatim>\<open>getBook(id)\<close> of
  \<^verbatim>\<open>load\<close>, the \<^verbatim>\<open>summarize({book_id: Number(id)})\<close> of \<^verbatim>\<open>handleSummarize\<close>, or a
  \<^verbatim>\<open>createBooking\<close> whose payload is built by \<^verbatim>\<open>BookingForm\<close> from the page's \<^verbatim>\<open>bookId\<close>.
  The same invariant gives what the page's summarization asks the server for.
\<close>

record inventory =
  inv_avail :: "int \<rightharpoonup> int"
  inv_bookings :: "(int \<times> int) list"

inductive inv_step :: "int set \<Rightarrow> inventory \<Rightarrow> inventory \<Rightarrow> bool" for K where
  stutter: "inv_step K a a"
| take: "k \<in> K \<Longrightarrow> inv_avail a k = Some n \<Longrightarrow> 0 < n \<Longrightarrow>
         inv_step K a \<lparr>inv_avail = (inv_avail a)(k \<mapsto> n - 1), inv_bookings = inv_bookings a @ [(u, k)]\<rparr>"

definition inv_of :: "server \<Rightarrow> inventory" where
  "inv_of s = \<lparr>inv_avail = map_option available_copies \<circ> srv_books s,
     inv_bookings = map (\<lambda>bk. (booking_user bk, booking_book bk)) (srv_bookings s)\<rparr>"

definition page_books :: "string \<Rightarrow> int set" where
  "page_books bid = {k. js_Number bid = Num k}"

fun event_books :: "string \<Rightarrow> sys_event \<Rightarrow> int set" where
  "event_books bid (OtherClient j) = UNIV"
| "event_books bid _ = page_books bid"

definition page_requests_ok :: "string \<Rightarrow> page \<Rightarrow> bool" where
  "page_requests_ok bid p =
     (\<forall>(t, q) \<in> set (pg_pending p).
        (t = TLoad \<and> q = getBook bid) \<or>
        (t = TSummarize \<and> q = summarize (JObj [(''book_id'', json_of_number (js_Number bid))])) \<or>
        (t = TBooking \<and> (\<exists>uid. q = createBooking (booking_payload uid bid))))"

section \<open>Lemmas\<close>

lemma inv_step_mono: "inv_step K a a' \<Longrightarrow> K \<subseteq> K' \<Longrightarrow> inv_step K' a a'"
  by (induction rule: inv_step.induct) (auto intro: inv_step.intros)

lemma inv_step_create_booking:
  "inv_step {k. json_int j ''book_id'' = Some k} (inv_of s) (inv_of (fst (srv_create_booking j s)))"
proof (cases "\<exists>u k usr b. json_int j ''user_id'' = Some u \<and> json_int j ''book_id'' = Some k \<and>
                 srv_users s u = Some usr \<and> srv_books s k = Some b \<and> 0 < available_copies b")
  case True
  then obtain u k usr b where h: "json_int j ''user_id'' = Some u" "json_int j ''book_id'' = Some k"
    "srv_users s u = Some usr" "srv_books s k = Some b" "0 < available_copies b" by blast
  have "inv_avail (inv_of s) k = Some (available_copies b)" using h(4) by (simp add: inv_of_def)
  from inv_step.take [OF _ this h(5), of "{k. json_int j ''book_id'' = Some k}" u] h show ?thesis
    by (simp add: srv_create_booking_taken inv_of_def fun_eq_iff)
next
  case False
  then have "fst (srv_create_booking j s) = s"
    by (auto simp: srv_create_booking_def Let_def not_less split: option.split)
  then show ?thesis by (simp add: inv_step.stutter)
qed

lemma srv_handle_GET: "req_method q = GET \<Longrightarrow> fst (srv_handle gen q s) = s"
  by (simp add: srv_handle_def split: option.split)

lemma json_int_book_payload: "json_int (booking_payload uid bid) ''book_id'' = Some k \<longleftrightarrow> js_Number bid = Num k"
  by (cases "js_Number bid") (simp_all add: booking_payload_def json_int_def json_get_def)

text \<open>What the server does with each request the page may have in flight.\<close>

lemma inv_step_page_request:
  assumes "(t = TLoad \<and> q = getBook bid) \<or>
           (t = TSummarize \<and> q = summarize (JObj [(''book_id'', json_of_number (js_Number bid))])) \<or>
           (t = TBooking \<and> (\<exists>uid. q = createBooking (booking_payload uid bid)))"
  shows "inv_step (page_books bid) (inv_of s) (inv_of (fst (srv_handle gen q s)))"
  using assms
proof (elim disjE conjE exE)
  assume "q = getBook bid"
  then show ?thesis by (simp add: srv_handle_GET getBook_def api_get_def inv_step.stutter)
next
  assume "q = summarize (JObj [(''book_id'', json_of_number (js_Number bid))])"
  then show ?thesis by (simp add: srv_handle_def summarize_def api_post_def inv_step.stutter)
next
  fix uid
  assume q: "q = createBooking (booking_payload uid bid)"
  have "{k. json_int (booking_payload uid bid) ''book_id'' = Some k} = page_books bid"
    by (simp add: page_books_def json_int_book_payload)
  with q inv_step_create_booking [of "booking_payload uid bid" s] show ?thesis
    by (simp add: srv_handle_def createBooking_def api_post_def split_def Let_def)
qed

lemma page_requests_ok_step:
  assumes "page_requests_ok bid p"
  shows "page_requests_ok bid (page_step ls bid p e)"
proof (cases e)
  case ClickSummarize
  with assms show ?thesis
    by (auto simp: page_requests_ok_def issue_def handleSummarize_def Let_def split: option.split)
next
  case SubmitBooking
  with assms show ?thesis
    by (auto simp: page_requests_ok_def issue_def handleSubmit_def Let_def split: option.split)
next
  case (EditUserId v)
  with assms show ?thesis by (auto simp: page_requests_ok_def split: option.split)
next
  case (Respond i r)
  show ?thesis
  proof (cases "i < length (pg_pending p) \<and> response_fits (fst (pg_pending p ! i)) r")
    case False
    then have "page_step ls bid p e = p" by (simp only: Respond page_step.simps if_not_P if_False)
    with assms show ?thesis by simp
  next
    case True
    have rm: "page_requests_ok bid (p\<lparr>pg_pending := remove_nth i (pg_pending p)\<rparr>)"
      using assms by (auto simp: page_requests_ok_def dest: in_remove_nth)
    with True Respond show ?thesis
      by (cases r) (auto simp: page_requests_ok_def issue_def booking_done_def load_def Let_def split_def
          split: option.split)
  qed
qed

lemma sys_reach_requests_ok: "sys_reach gen ls bid s \<Longrightarrow> page_requests_ok bid (sys_page s)"
proof (induction rule: sys_reach.induct)
  case (init srv)
  show ?case by (simp add: page_requests_ok_def sys_init_def page_init_def load_def)
next
  case (step s e)
  then show ?case
    by (cases e) (simp_all add: Let_def split_def page_requests_ok_step del: page_step.simps)
qed

lemma page_request_nth:
  assumes "page_requests_ok bid p" and "i < length (pg_pending p)" and "pg_pending p ! i = (t, q)"
  shows "(t = TLoad \<and> q = getBook bid) \<or>
         (t = TSummarize \<and> q = summarize (JObj [(''book_id'', json_of_number (js_Number bid))])) \<or>
         (t = TBooking \<and> (\<exists>uid. q = createBooking (booking_payload uid bid)))"
proof -
  have "(t, q) \<in> set (pg_pending p)" using assms(2,3) by (metis nth_mem)
  with assms(1) show ?thesis unfolding page_requests_ok_def by blast
qed

lemma ex_bid_number: "js_Number ''12'' = Num 12"
  using js_Number_js_String [of 12] by (simp only: ex_bid)

section \<open>Properties of the inventory\<close>

text \<open>
  C36. Refinement of the inventory contract, per actor: in every reachable state of the book
  page for \<^verbatim>\<open>/books/:id\<close> together with the server, every event (a click, an edit, a
  delivered, lost or failed request, another client's booking) is, seen through
  \<open>inv_of\<close>, either no change of the inventory or one step that takes an available copy of
  one book and records exactly one booking of it; and unless the event is another
  client's booking, that book is the page's own book \<^verbatim>\<open>Number(id)\<close>. The page's
  \<^verbatim>\<open>getBook\<close> and \<^verbatim>\<open>summarize\<close> calls never change the inventory, and the booking form
  never books another book than the one the page shows.
\<close>

theorem page_refines_inventory:
  assumes "sys_reach gen ls bid s"
  shows "inv_step (event_books bid e) (inv_of (sys_srv s)) (inv_of (sys_srv (sys_step gen ls bid s e)))"
proof -
  have ok: "page_requests_ok bid (sys_page s)" using assms by (rule sys_reach_requests_ok)
  have net: "inv_step (page_books bid) (inv_of (sys_srv s)) (inv_of (fst (srv_handle gen q (sys_srv s))))"
    if "i < length (pg_pending (sys_page s))" and "pg_pending (sys_page s) ! i = (t, q)" for i t q
    using page_request_nth [OF ok that] by (rule inv_step_page_request)
  show ?thesis
  proof (cases e)
    case (NetDeliver i)
    show ?thesis
    proof (cases "i < length (pg_pending (sys_page s))")
      case True
      obtain t q where "pg_pending (sys_page s) ! i = (t, q)" by (cases "pg_pending (sys_page s) ! i")
      with net [OF True this] NetDeliver True show ?thesis
        by (simp add: Let_def split_def del: page_step.simps)
    qed (simp add: NetDeliver inv_step.stutter)
  next
    case (NetLose i)
    show ?thesis
    proof (cases "i < length (pg_pending (sys_page s))")
      case True
      obtain t q where "pg_pending (sys_page s) ! i = (t, q)" by (cases "pg_pending (sys_page s) ! i")
      with net [OF True this] NetLose True show ?thesis
        by (simp add: Let_def split_def del: page_step.simps)
    qed (simp add: NetLose inv_step.stutter)
  next
    case (OtherClient j)
    then show ?thesis using inv_step_mono [OF inv_step_create_booking [of j "sys_srv s"]] by simp
  qed (simp_all add: inv_step.stutter del: page_step.simps)
qed

theorem page_refines_inventory_witness:
  "sys_reach ex_gen ex_storage ''12'' ex_sys_submitted \<and> page_books ''12'' = {12} \<and>
   inv_step (event_books ''12'' (NetDeliver 0)) (inv_of (sys_srv ex_sys_submitted))
     (inv_of (sys_srv (sys_step ex_gen ex_storage ''12'' ex_sys_submitted (NetDeliver 0))))"
proof -
  have inv: "srv_inv ex_server" by (simp add: srv_inv_def ex_server_def book_ok_def ex_book_def)
  have r: "sys_reach ex_gen ex_storage ''12'' ex_sys_submitted"
    unfolding ex_sys_submitted_def ex_sys_loaded_def
    by (rule sys_reach.step, rule sys_reach.step, rule sys_reach.init, rule inv)
  have "page_books ''12'' = {12}" unfolding page_books_def ex_bid_number by auto
  with r page_refines_inventory [OF r, of "NetDeliver 0"] show ?thesis by blast
qed

text \<open>
  C37. The AI summary of the book page is generated from the server's stored summary of
  the page's own book: in every reachable state, when an in-flight
  \<^verbatim>\<open>summarize({book_id: Number(id)})\<close> reaches the server and the server holds a non-empty
  summary \<open>t\<close> for book \<^verbatim>\<open>Number(id)\<close>, the server is unchanged, the page shows the
  generator's summary of \<open>t\<close> as its AI summary, keeps its book, and re-enables the button.
\<close>

theorem summary_from_stored_summary:
  assumes "sys_reach gen ls bid s" and "i < length (pg_pending (sys_page s))"
    and "fst (pg_pending (sys_page s) ! i) = TSummarize"
    and "js_Number bid = Num k" and "srv_books (sys_srv s) k = Some b" and "summary b = Some t" and "t \<noteq> []"
  shows "sys_srv (sys_step gen ls bid s (NetDeliver i)) = sys_srv s \<and>
         bd_book (pg_d (sys_page (sys_step gen ls bid s (NetDeliver i)))) = bd_book (pg_d (sys_page s)) \<and>
         bd_aiSummary (pg_d (sys_page (sys_step gen ls bid s (NetDeliver i)))) = Some (ai_summarize gen t) \<and>
         \<not> bd_summarizing (pg_d (sys_page (sys_step gen ls bid s (NetDeliver i))))"
proof -
  obtain q where tq: "pg_pending (sys_page s) ! i = (TSummarize, q)"
    using assms(3) by (cases "pg_pending (sys_page s) ! i") simp
  from page_request_nth [OF sys_reach_requests_ok [OF assms(1)] assms(2) tq] assms(4)
  have q: "q = summarize (JObj [(''book_id'', JInt k)])" by simp
  have a: "srv_handle gen q (sys_srv s) = (sys_srv s, SSummary (Success (Some (ai_summarize gen t))))"
    using assms(5-7) q
    by (simp add: srv_handle_def summarize_def api_post_def srv_summarize_def json_str_def json_int_def json_get_def)
  from sys_step_deliver [OF assms(2) tq, of gen ls bid] a assms(2) tq show ?thesis
    by (simp add: handleSummarize_done_def del: sys_step.simps)
qed

theorem summary_from_stored_summary_witness:
  "sys_reach ex_gen ex_storage ''12'' (sys_step ex_gen ex_storage ''12'' ex_sys_loaded UClickSummarize) \<and>
   bd_aiSummary (pg_d (sys_page (sys_step ex_gen ex_storage ''12''
     (sys_step ex_gen ex_storage ''12'' ex_sys_loaded UClickSummarize) (NetDeliver 0)))) =
     Some ''In short: A detective story.''"
proof -
  let ?s = "sys_step ex_gen ex_storage ''12'' ex_sys_loaded UClickSummarize"
  have inv: "srv_inv ex_server" by (simp add: srv_inv_def ex_server_def book_ok_def ex_book_def)
  have r: "sys_reach ex_gen ex_storage ''12'' ?s"
    unfolding ex_sys_loaded_def by (rule sys_reach.step, rule sys_reach.step, rule sys_reach.init, rule inv)
  have c: "pg_pending (sys_page ?s) = [(TSummarize, summarize (JObj [(''book_id'', JInt 12)]))]"
    "sys_srv ?s = ex_server"
    by (simp_all add: ex_sys_loaded_eq ex_loaded_eq summarize_enabled_def detail_shown_def has_summary_def
        handleSummarize_def issue_def reconcile_def ex_bid_number ex_book_def del: js_Number.simps)
  have h: "0 < length (pg_pending (sys_page ?s))" "fst (pg_pending (sys_page ?s) ! 0) = TSummarize"
    "srv_books (sys_srv ?s) 12 = Some ex_book" "summary ex_book = Some ''A detective story.''"
    using c by (simp_all add: ex_server_def ex_book_def)
  from summary_from_stored_summary [OF r h(1,2) ex_bid_number h(3,4)] r show ?thesis
    by (simp add: ex_gen_def del: sys_step.simps)
qed

end
