(* ===== verification/AIPrompt.thy ===== *)
theory AIPrompt
  imports Gateway
begin

text \<open>
  The AI Augmentation Controller, \<^verbatim>\<open>src/frontend/src/components/AIPromptBox.jsx\<close>: two
  flows on the home page, \<^verbatim>\<open>handleRecommend\<close> (a free-text query to a recommended title)
  and \<^verbatim>\<open>handleSummarize\<close> (pasted text to a summary). The state is the record \<open>ai_box\<close>
  (the seven \<^verbatim>\<open>useState\<close> hooks); \<open>AI_handleRecommend\<close>/\<open>AI_handleSummarize\<close> run a
  handler up to its \<^verbatim>\<open>await\<close> and return the request, the \<open>_done\<close> definitions apply the
  response. Both flows write the one \<^verbatim>\<open>error\<close> hook. \<open>recResult\<close> holds the response
  body or \<^verbatim>\<open>null\<close>: \<open>None\<close>, or \<open>Some r\<close> for a body whose \<^verbatim>\<open>recommended_book\<close> is
  \<open>r\<close> (a title, or \<^verbatim>\<open>null\<close> for no match).

  \<open>ai_step\<close> is the component as the user drives it: input edits, clicks on the two buttons
  (each only while its button is enabled) and the arrival of any in-flight response, in
  any order. \<open>ai_reach\<close> are the states reachable from the mount.
\<close>

section \<open>State and handlers\<close>

record ai_box =
  ai_query :: string
  ai_text :: string
  ai_recResult :: "string option option"
  ai_sumResult :: "string option"
  ai_loadingRec :: bool
  ai_loadingSum :: bool
  ai_error :: string

definition AIPromptBox_init :: ai_box where
  "AIPromptBox_init = \<lparr>ai_query = [], ai_text = [], ai_recResult = None, ai_sumResult = Some [],
     ai_loadingRec = False, ai_loadingSum = False, ai_error = []\<rparr>"

definition AI_handleRecommend :: "ai_box \<Rightarrow> ai_box \<times> request" where
  "AI_handleRecommend b =
     (b\<lparr>ai_error := [], ai_recResult := None, ai_loadingRec := True\<rparr>, recommend (ai_query b))"

definition AI_handleRecommend_done :: "ai_box \<Rightarrow> string option api_result \<Rightarrow> ai_box" where
  "AI_handleRecommend_done b r =
     (case r of
        Success rb \<Rightarrow> b\<lparr>ai_recResult := Some rb, ai_loadingRec := False\<rparr>
      | _ \<Rightarrow> b\<lparr>ai_error := fail_message r ''Recommendation failed'', ai_loadingRec := False\<rparr>)"

definition AI_handleSummarize :: "ai_box \<Rightarrow> ai_box \<times> request" where
  "AI_handleSummarize b =
     (b\<lparr>ai_error := [], ai_sumResult := Some [], ai_loadingSum := True\<rparr>,
      summarize (JObj [(''text'', JStr (ai_text b))]))"

definition AI_handleSummarize_done :: "ai_box \<Rightarrow> string option api_result \<Rightarrow> ai_box" where
  "AI_handleSummarize_done b r =
     (case r of
        Success s \<Rightarrow> b\<lparr>ai_sumResult := s, ai_loadingSum := False\<rparr>
      | _ \<Rightarrow> b\<lparr>ai_error := fail_message r ''Summarization failed'', ai_loadingSum := False\<rparr>)"

section \<open>Rendering\<close>

definition rec_enabled :: "ai_box \<Rightarrow> bool" where
  "rec_enabled b = (\<not> ai_loadingRec b \<and> ai_query b \<noteq> [])"

definition sum_enabled :: "ai_box \<Rightarrow> bool" where
  "sum_enabled b = (\<not> ai_loadingSum b \<and> ai_text b \<noteq> [])"

datatype ai_view = AIView "string option" "string option" "string option" bool bool

definition AIPromptBox_view :: "ai_box \<Rightarrow> ai_view" where
  "AIPromptBox_view b =
     AIView (map_option (\<lambda>r. ''Recommended: '' @ js_or r em_dash) (ai_recResult b))
       (if js_or (ai_sumResult b) [] \<noteq> [] then ai_sumResult b else None)
       (if ai_error b \<noteq> [] then Some (ai_error b) else None)
       (rec_enabled b) (sum_enabled b)"

section \<open>The component as the user drives it\<close>

datatype ai_tag = TRec | TSum

datatype ai_response = RRec "string option api_result" | RSum "string option api_result"

fun ai_fits :: "ai_tag \<Rightarrow> ai_response \<Rightarrow> bool" where
  "ai_fits TRec (RRec _) = True"
| "ai_fits TSum (RSum _) = True"
| "ai_fits _ _ = False"

record ai_state =
  ai_b :: ai_box
  ai_pending :: "(ai_tag \<times> request) list"

datatype ai_event = SetQuery string | SetText string | ClickRecommend | ClickSummarize
  | AIRespond nat ai_response

fun ai_deliver :: "ai_box \<Rightarrow> ai_response \<Rightarrow> ai_box" where
  "ai_deliver b (RRec r) = AI_handleRecommend_done b r"
| "ai_deliver b (RSum r) = AI_handleSummarize_done b r"

fun ai_step :: "ai_state \<Rightarrow> ai_event \<Rightarrow> ai_state" where
  "ai_step s (SetQuery v) = s\<lparr>ai_b := (ai_b s)\<lparr>ai_query := v\<rparr>\<rparr>"
| "ai_step s (SetText v) = s\<lparr>ai_b := (ai_b s)\<lparr>ai_text := v\<rparr>\<rparr>"
| "ai_step s ClickRecommend =
     (if rec_enabled (ai_b s)
      then (let (b', q) = AI_handleRecommend (ai_b s) in
            \<lparr>ai_b = b', ai_pending = ai_pending s @ [(TRec, q)]\<rparr>)
      else s)"
| "ai_step s ClickSummarize =
     (if sum_enabled (ai_b s)
      then (let (b', q) = AI_handleSummarize (ai_b s) in
            \<lparr>ai_b = b', ai_pending = ai_pending s @ [(TSum, q)]\<rparr>)
      else s)"
| "ai_step s (AIRespond i r) =
     (if i < length (ai_pending s) \<and> ai_fits (fst (ai_pending s ! i)) r
      then \<lparr>ai_b = ai_deliver (ai_b s) r, ai_pending = remove_nth i (ai_pending s)\<rparr>
      else s)"

definition ai_init :: ai_state where
  "ai_init = \<lparr>ai_b = AIPromptBox_init, ai_pending = []\<rparr>"

inductive ai_reach :: "ai_state \<Rightarrow> bool" where
  mount: "ai_reach ai_init"
| step: "ai_reach s \<Longrightarrow> ai_reach (ai_step s e)"

text \<open>
  The guard invariant: each flow has at most one request in flight, exactly while its
  loading flag is set; while it is in flight the flow's previous result is cleared; and
  every in-flight recommendation carries a non-empty query.
\<close>

definition in_flight :: "ai_tag \<Rightarrow> ai_state \<Rightarrow> nat" where
  "in_flight t s = length (filter (\<lambda>x. fst x = t) (ai_pending s))"

definition ai_inv :: "ai_state \<Rightarrow> bool" where
  "ai_inv s =
     (in_flight TRec s = (if ai_loadingRec (ai_b s) then 1 else 0) \<and>
      in_flight TSum s = (if ai_loadingSum (ai_b s) then 1 else 0) \<and>
      (ai_loadingRec (ai_b s) \<longrightarrow> ai_recResult (ai_b s) = None) \<and>
      (ai_loadingSum (ai_b s) \<longrightarrow> ai_sumResult (ai_b s) = Some []) \<and>
      (\<forall>x \<in> set (ai_pending s). fst x = TRec \<longrightarrow> (\<exists>q. q \<noteq> [] \<and> snd x = recommend q)))"

definition ex_ai_asked :: ai_state where
  "ex_ai_asked = ai_step (ai_step ai_init (SetQuery ''detective mystery on moors'')) ClickRecommend"

definition ex_ai_both :: ai_state where
  "ex_ai_both = ai_step (ai_step ex_ai_asked (SetText ''A long story.'')) ClickSummarize"

section \<open>Lemmas\<close>

lemmas ai_defs [handler_defs] = AI_handleRecommend_def AI_handleRecommend_done_def
  AI_handleSummarize_def AI_handleSummarize_done_def

lemma in_flight_remove_nth:
  assumes "i < length (ai_pending s)"
  shows "in_flight t (\<lparr>ai_b = b, ai_pending = remove_nth i (ai_pending s)\<rparr>)
           + (if fst (ai_pending s ! i) = t then 1 else 0) = in_flight t s"
  using length_filter_remove_nth [OF assms, of "\<lambda>x. fst x = t"] by (simp add: in_flight_def)

lemma ai_done_frame [simp]:
  "ai_loadingRec (AI_handleRecommend_done b r) = False"
  "ai_loadingSum (AI_handleRecommend_done b r) = ai_loadingSum b"
  "ai_sumResult (AI_handleRecommend_done b r) = ai_sumResult b"
  "ai_query (AI_handleRecommend_done b r) = ai_query b"
  "ai_loadingSum (AI_handleSummarize_done b r) = False"
  "ai_loadingRec (AI_handleSummarize_done b r) = ai_loadingRec b"
  "ai_recResult (AI_handleSummarize_done b r) = ai_recResult b"
  "ai_query (AI_handleSummarize_done b r) = ai_query b"
  by (simp_all add: AI_handleRecommend_done_def AI_handleSummarize_done_def split: api_result.split)

lemma ai_fits_tag:
  "ai_fits t (RRec x) \<Longrightarrow> t = TRec" "ai_fits t (RSum x) \<Longrightarrow> t = TSum"
  by (cases t; simp)+

lemma ai_inv_step:
  assumes inv: "ai_inv s"
  shows "ai_inv (ai_step s e)"
proof (cases e)
  case ClickRecommend
  show ?thesis
  proof (cases "rec_enabled (ai_b s)")
    case True
    with inv ClickRecommend show ?thesis
      by (auto simp: ai_inv_def rec_enabled_def AI_handleRecommend_def in_flight_def)
  qed (use ClickRecommend inv in simp)
next
  case ClickSummarize
  show ?thesis
  proof (cases "sum_enabled (ai_b s)")
    case True
    with inv ClickSummarize show ?thesis
      by (auto simp: ai_inv_def sum_enabled_def AI_handleSummarize_def in_flight_def)
  qed (use ClickSummarize inv in simp)
next
  case (AIRespond i r)
  show ?thesis
  proof (cases "i < length (ai_pending s) \<and> ai_fits (fst (ai_pending s ! i)) r")
    case True
    let ?s' = "\<lparr>ai_b = ai_deliver (ai_b s) r, ai_pending = remove_nth i (ai_pending s)\<rparr>"
    have cnt: "in_flight t ?s' + (if fst (ai_pending s ! i) = t then 1 else 0) = in_flight t s" for t
      using True in_flight_remove_nth [of i s] by blast
    have kept: "\<forall>x \<in> set (ai_pending ?s'). fst x = TRec \<longrightarrow> (\<exists>q. q \<noteq> [] \<and> snd x = recommend q)"
      using inv by (auto simp: ai_inv_def dest: in_remove_nth)
    have "ai_inv ?s'"
    proof (cases r)
      case (RRec x)
      with True have "fst (ai_pending s ! i) = TRec" by (auto dest: ai_fits_tag)
      with cnt [of TRec] cnt [of TSum] inv kept RRec show ?thesis
        by (auto simp: ai_inv_def split: if_splits)
    next
      case (RSum x)
      with True have "fst (ai_pending s ! i) = TSum" by (auto dest: ai_fits_tag)
      with cnt [of TRec] cnt [of TSum] inv kept RSum show ?thesis
        by (auto simp: ai_inv_def split: if_splits)
    qed
    with True AIRespond show ?thesis by simp
  qed (use AIRespond inv in auto)
qed (use inv in \<open>simp_all add: ai_inv_def in_flight_def\<close>)

lemma ai_reach_inv: "ai_reach s \<Longrightarrow> ai_inv s"
proof (induction rule: ai_reach.induct)
  case mount
  show ?case by (simp add: ai_inv_def ai_init_def AIPromptBox_init_def in_flight_def)
next
  case (step s e)
  from step.IH show ?case by (rule ai_inv_step)
qed

lemma ex_ai_asked_eq:
  "ex_ai_asked = \<lparr>ai_b = AIPromptBox_init\<lparr>ai_query := ''detective mystery on moors'', ai_loadingRec := True\<rparr>,
     ai_pending = [(TRec, recommend ''detective mystery on moors'')]\<rparr>"
  by (simp add: ex_ai_asked_def ai_init_def rec_enabled_def AI_handleRecommend_def AIPromptBox_init_def)

lemma ex_ai_asked_reach: "ai_reach ex_ai_asked"
  unfolding ex_ai_asked_def by (rule ai_reach.step ai_reach.mount)+

lemma ex_ai_both_eq:
  "ex_ai_both = \<lparr>ai_b = AIPromptBox_init\<lparr>ai_query := ''detective mystery on moors'', ai_loadingRec := True,
        ai_text := ''A long story.'', ai_loadingSum := True\<rparr>,
     ai_pending = [(TRec, recommend ''detective mystery on moors''),
                   (TSum, summarize (JObj [(''text'', JStr ''A long story.'')]))]\<rparr>"
  by (simp add: ex_ai_both_def ex_ai_asked_eq sum_enabled_def AI_handleSummarize_def AIPromptBox_init_def)

section \<open>Properties\<close>

text \<open>
  C9. Through the user interface each AI flow has at most one request in flight: the
  buttons are disabled while their flow is loading, so the out-of-order race between two
  recommendations (or two summaries) cannot be produced on this component.
\<close>

theorem ai_single_flight:
  assumes "ai_reach s"
  shows "in_flight TRec s \<le> 1 \<and> in_flight TSum s \<le> 1"
  using ai_reach_inv [OF assms] by (simp add: ai_inv_def)

theorem ai_single_flight_witness:
  "ai_reach ex_ai_both \<and> in_flight TRec ex_ai_both \<le> 1 \<and> in_flight TSum ex_ai_both \<le> 1 \<and>
   in_flight TRec ex_ai_both = 1 \<and> in_flight TSum ex_ai_both = 1"
proof -
  have r: "ai_reach ex_ai_both"
    unfolding ex_ai_both_def by (rule ai_reach.step ai_reach.step ex_ai_asked_reach)+
  have "in_flight TRec ex_ai_both = 1" "in_flight TSum ex_ai_both = 1"
    by (simp_all add: ex_ai_both_eq in_flight_def)
  with r ai_single_flight [OF r] show ?thesis by simp
qed

text \<open>
  A recommendation is never requested for an empty query: every in-flight
  \<^verbatim>\<open>recommend\<close> request of a reachable state carries a non-empty query.
\<close>

theorem recommend_query_nonempty:
  assumes "ai_reach s" and "(TRec, q) \<in> set (ai_pending s)"
  shows "\<exists>query. query \<noteq> [] \<and> q = recommend query"
  using ai_reach_inv [OF assms(1)] assms(2) by (fastforce simp: ai_inv_def)

theorem recommend_query_nonempty_witness:
  "(ai_reach ex_ai_asked \<and> (TRec, recommend ''detective mystery on moors'') \<in> set (ai_pending ex_ai_asked)) \<and>
   (\<exists>query. query \<noteq> [] \<and> recommend ''detective mystery on moors'' = recommend query)"
proof -
  have h: "ai_reach ex_ai_asked" "(TRec, recommend ''detective mystery on moors'') \<in> set (ai_pending ex_ai_asked)"
    by (rule ex_ai_asked_reach) (simp add: ex_ai_asked_eq)
  show ?thesis using h recommend_query_nonempty [OF h] by blast
qed

text \<open>
  C11. A recommendation response is a success whether or not the server found a match:
  it is stored as the result and shown as \<^verbatim>\<open>'Recommended: '\<close> followed by the title, or by
  an em dash for \<^verbatim>\<open>null\<close>; the error line and the summarize flow are untouched.
\<close>

theorem recommend_result_shown:
  assumes "i < length (ai_pending s)" and "fst (ai_pending s ! i) = TRec"
  shows "ai_b (ai_step s (AIRespond i (RRec (Success r)))) = (ai_b s)\<lparr>ai_recResult := Some r, ai_loadingRec := False\<rparr> \<and>
         (\<exists>u v w. AIPromptBox_view (ai_b (ai_step s (AIRespond i (RRec (Success r))))) =
                    AIView (Some (''Recommended: '' @ js_or r em_dash)) u (if ai_error (ai_b s) \<noteq> [] then Some (ai_error (ai_b s)) else None) v w)"
  using assms by (simp add: AI_handleRecommend_done_def AIPromptBox_view_def)

theorem recommend_result_shown_witness:
  "(0 < length (ai_pending ex_ai_asked) \<and> fst (ai_pending ex_ai_asked ! 0) = TRec) \<and>
   ai_recResult (ai_b (ai_step ex_ai_asked (AIRespond 0 (RRec (Success None))))) = Some None \<and>
   (\<exists>u v w. AIPromptBox_view (ai_b (ai_step ex_ai_asked (AIRespond 0 (RRec (Success None))))) =
      AIView (Some (''Recommended: '' @ em_dash)) u None v w)"
proof -
  have h: "0 < length (ai_pending ex_ai_asked)" "fst (ai_pending ex_ai_asked ! 0) = TRec"
    by (simp_all add: ex_ai_asked_eq)
  have e: "ai_error (ai_b ex_ai_asked) = []" by (simp add: ex_ai_asked_eq AIPromptBox_init_def)
  from recommend_result_shown [OF h, of None]
  have t: "ai_b (ai_step ex_ai_asked (AIRespond 0 (RRec (Success None)))) =
             (ai_b ex_ai_asked)\<lparr>ai_recResult := Some None, ai_loadingRec := False\<rparr>"
    and v: "\<exists>u v w. AIPromptBox_view (ai_b (ai_step ex_ai_asked (AIRespond 0 (RRec (Success None))))) =
             AIView (Some (''Recommended: '' @ js_or None em_dash)) u
               (if ai_error (ai_b ex_ai_asked) \<noteq> [] then Some (ai_error (ai_b ex_ai_asked)) else None) v w"
    by blast+
  show ?thesis using h t v e by (simp del: ai_step.simps)
qed

text \<open>
  C12. A failed recommendation shows the server's \<^verbatim>\<open>error\<close> or
  \<^verbatim>\<open>'Recommendation failed'\<close>, stops loading, and shows no earlier recommendation: the
  result was cleared when the request was sent.
\<close>

theorem recommend_failure_message:
  assumes "ai_reach s" and "i < length (ai_pending s)" and "fst (ai_pending s ! i) = TRec"
    and "\<forall>x. r \<noteq> Success x"
  shows "ai_error (ai_b (ai_step s (AIRespond i (RRec r)))) = fail_message r ''Recommendation failed'' \<and>
         ai_recResult (ai_b (ai_step s (AIRespond i (RRec r)))) = None \<and>
         \<not> ai_loadingRec (ai_b (ai_step s (AIRespond i (RRec r))))"
proof -
  have inv: "ai_inv s" by (rule ai_reach_inv [OF assms(1)])
  from assms(2,3) have "in_flight TRec s \<ge> 1"
    unfolding in_flight_def by (metis (mono_tags, lifting) length_pos_if_in_set less_one not_le
        filter_empty_conv length_0_conv neq0_conv nth_mem)
  with inv have "ai_recResult (ai_b s) = None" by (auto simp: ai_inv_def split: if_splits)
  with assms(2-4) show ?thesis
    by (cases r) (simp_all add: AI_handleRecommend_done_def)
qed

theorem recommend_failure_message_witness:
  "(ai_reach ex_ai_asked \<and> 0 < length (ai_pending ex_ai_asked) \<and> fst (ai_pending ex_ai_asked ! 0) = TRec \<and>
    (\<forall>x. (TransportError :: string option api_result) \<noteq> Success x)) \<and>
   ai_error (ai_b (ai_step ex_ai_asked (AIRespond 0 (RRec TransportError)))) = ''Recommendation failed''"
proof -
  have h: "ai_reach ex_ai_asked" "0 < length (ai_pending ex_ai_asked)" "fst (ai_pending ex_ai_asked ! 0) = TRec"
    "\<forall>x. (TransportError :: string option api_result) \<noteq> Success x"
    by (rule ex_ai_asked_reach) (simp_all add: ex_ai_asked_eq)
  show ?thesis using h recommend_failure_message [OF h] by simp
qed

text \<open>
  C13. The two AI flows share one error line: a failed summary shows its message whatever
  the recommendation flow is doing, and the next click on Recommend erases that message
  (the specification calls the flows independent).
\<close>

theorem ai_flows_share_error:
  assumes "i < length (ai_pending s)" and "fst (ai_pending s ! i) = TSum" and "\<forall>x. r \<noteq> Success x"
  shows "ai_error (ai_b (ai_step s (AIRespond i (RSum r)))) = fail_message r ''Summarization failed'' \<and>
         (rec_enabled (ai_b s) \<longrightarrow>
            ai_error (ai_b (ai_step (ai_step s (AIRespond i (RSum r))) ClickRecommend)) = [])"
  using assms
  by (cases r) (simp_all add: AI_handleSummarize_done_def AI_handleRecommend_def rec_enabled_def split_def)

theorem ai_flows_share_error_witness:
  "let s = ai_step ex_ai_both (AIRespond 0 (RRec (Success (Some ''The Hound of the Baskervilles'')))) in
   (0 < length (ai_pending s) \<and> fst (ai_pending s ! 0) = TSum \<and>
    (\<forall>x. (RequestError None :: string option api_result) \<noteq> Success x)) \<and>
   ai_error (ai_b (ai_step s (AIRespond 0 (RSum (RequestError None))))) = ''Summarization failed'' \<and>
   ai_recResult (ai_b (ai_step s (AIRespond 0 (RSum (RequestError None))))) = Some (Some ''The Hound of the Baskervilles'') \<and>
   (rec_enabled (ai_b s) \<longrightarrow>
      ai_error (ai_b (ai_step (ai_step s (AIRespond 0 (RSum (RequestError None)))) ClickRecommend)) = [])"
proof -
  let ?s = "ai_step ex_ai_both (AIRespond 0 (RRec (Success (Some ''The Hound of the Baskervilles''))))"
  have e: "?s = \<lparr>ai_b = AIPromptBox_init\<lparr>ai_query := ''detective mystery on moors'',
        ai_text := ''A long story.'', ai_loadingSum := True,
        ai_recResult := Some (Some ''The Hound of the Baskervilles'')\<rparr>,
      ai_pending = [(TSum, summarize (JObj [(''text'', JStr ''A long story.'')]))]\<rparr>"
    by (simp add: ex_ai_both_eq AI_handleRecommend_done_def remove_nth_def AIPromptBox_init_def)
  have h: "0 < length (ai_pending ?s)" "fst (ai_pending ?s ! 0) = TSum"
    "\<forall>x. (RequestError None :: string option api_result) \<noteq> Success x"
    unfolding e by simp_all
  have r: "ai_recResult (ai_b (ai_step ?s (AIRespond 0 (RSum (RequestError None))))) =
      Some (Some ''The Hound of the Baskervilles'')"
    unfolding e by (simp add: AI_handleSummarize_done_def AIPromptBox_init_def)
  show ?thesis using h r ai_flows_share_error [OF h] by (simp add: Let_def del: ai_step.simps)
qed

end
