(* ===== verification/AISystem.thy ===== *)
theory AISystem
  imports AIPrompt Server
begin

text \<open>
  The AI prompt box (\<^verbatim>\<open>AIPromptBox.jsx\<close>) together with the server's AI endpoints: the
  record \<open>ai_sys\<close>. \<open>ai_sys_step\<close> is a user event on the box, or the network delivering any
  in-flight request to the server and its answer back (\<open>ADeliver\<close>), or losing it
  (\<open>ALose\<close>, a transport error). Responses reach the box only this way.
\<close>

record ai_sys =
  as_st :: ai_state
  as_srv :: server

datatype ai_sys_event = AUser ai_event | ADeliver nat | ALose nat

text \<open>The server's answer as the box's continuation receives it; an unrouted request is a 404.\<close>

fun ai_answer :: "ai_tag \<Rightarrow> srv_response \<Rightarrow> ai_response" where
  "ai_answer TRec (SRecommend r) = RRec r"
| "ai_answer TSum (SSummary r) = RSum r"
| "ai_answer TRec _ = RRec (RequestError (Some ''Not Found''))"
| "ai_answer TSum _ = RSum (RequestError (Some ''Not Found''))"

fun ai_lost :: "ai_tag \<Rightarrow> ai_response" where
  "ai_lost TRec = RRec TransportError"
| "ai_lost TSum = RSum TransportError"

fun ai_sys_step :: "ai_model \<Rightarrow> ai_sys \<Rightarrow> ai_sys_event \<Rightarrow> ai_sys" where
  "ai_sys_step m s (AUser (AIRespond i r)) = s"
| "ai_sys_step m s (AUser e) = s\<lparr>as_st := ai_step (as_st s) e\<rparr>"
| "ai_sys_step m s (ADeliver i) =
     (if i < length (ai_pending (as_st s))
      then (let (t, q) = ai_pending (as_st s) ! i; (srv', r) = srv_handle m q (as_srv s) in
            \<lparr>as_st = ai_step (as_st s) (AIRespond i (ai_answer t r)), as_srv = srv'\<rparr>)
      else s)"
| "ai_sys_step m s (ALose i) =
     (if i < length (ai_pending (as_st s))
      then s\<lparr>as_st := ai_step (as_st s) (AIRespond i (ai_lost (fst (ai_pending (as_st s) ! i))))\<rparr>
      else s)"

inductive ai_sys_reach :: "ai_model \<Rightarrow> ai_sys \<Rightarrow> bool" for m where
  init: "ai_sys_reach m \<lparr>as_st = ai_init, as_srv = srv\<rparr>"
| step: "ai_sys_reach m s \<Longrightarrow> ai_sys_reach m (ai_sys_step m s e)"

text \<open>Example: a recommendation asked for on a fresh box against \<open>ex_server\<close>.\<close>

definition ex_ai_sys :: ai_sys where
  "ex_ai_sys = ai_sys_step ex_gen (ai_sys_step ex_gen \<lparr>as_st = ai_init, as_srv = ex_server\<rparr>
     (AUser (SetQuery ''detective mystery on moors''))) (AUser ClickRecommend)"

text \<open>
  Example: a text summarized on a fresh box against \<open>ex_server\<close>, after which the user
  replaces the text in the textarea before the answer arrives.
\<close>

definition ex_ai_sys_sum :: ai_sys where
  "ex_ai_sys_sum = ai_sys_step ex_gen (ai_sys_step ex_gen (ai_sys_step ex_gen \<lparr>as_st = ai_init, as_srv = ex_server\<rparr>
     (AUser (SetText ''A long story.''))) (AUser ClickSummarize)) (AUser (SetText ''Another story.''))"

section \<open>Lemmas\<close>

lemma ai_sys_step_box: "as_st (ai_sys_step m s e) = as_st s \<or> (\<exists>e'. as_st (ai_sys_step m s e) = ai_step (as_st s) e')"
proof (cases e)
  case (AUser e')
  then show ?thesis by (cases e') (auto simp del: ai_step.simps)
next
  case (ADeliver i)
  then show ?thesis by (auto simp: Let_def split_def simp del: ai_step.simps)
qed (auto simp del: ai_step.simps)

lemma ai_sys_reach_box: "ai_sys_reach m s \<Longrightarrow> ai_reach (as_st s)"
proof (induction rule: ai_sys_reach.induct)
  case (init srv)
  show ?case by (simp add: ai_reach.mount)
next
  case (step s e)
  from ai_sys_step_box [of m s e] step.IH show ?case by (auto intro: ai_reach.step)
qed

lemma srv_handle_recommend [simp]:
  "q \<noteq> [] \<Longrightarrow> srv_handle m (recommend q) s = (s, SRecommend (Success (ai_recommend m q)))"
  by (simp add: srv_handle_def recommend_def api_post_def srv_recommend_def json_str_def json_get_def)

lemma ai_pending_recommend:
  assumes "ai_reach st" and "i < length (ai_pending st)" and "fst (ai_pending st ! i) = TRec"
  shows "\<exists>q. q \<noteq> [] \<and> ai_pending st ! i = (TRec, recommend q)"
proof -
  from ai_reach_inv [OF assms(1)] have "\<forall>x \<in> set (ai_pending st). fst x = TRec \<longrightarrow> (\<exists>q. q \<noteq> [] \<and> snd x = recommend q)"
    by (simp add: ai_inv_def)
  with assms(2,3) nth_mem [OF assms(2)] show ?thesis by (metis prod.collapse)
qed

lemma ai_pending_summarize:
  "ai_reach st \<Longrightarrow>
   \<forall>x \<in> set (ai_pending st). fst x = TSum \<longrightarrow> (\<exists>t. t \<noteq> [] \<and> snd x = summarize (JObj [(''text'', JStr t)]))"
proof (induction rule: ai_reach.induct)
  case mount
  show ?case by (simp add: ai_init_def)
next
  case (step st e)
  then show ?case
    by (cases e) (auto simp: Let_def AI_handleSummarize_def AI_handleRecommend_def sum_enabled_def
        dest: in_remove_nth)
qed

lemma srv_handle_summarize_text [simp]:
  "t \<noteq> [] \<Longrightarrow> srv_handle m (summarize (JObj [(''text'', JStr t)])) s = (s, SSummary (Success (Some (ai_summarize m t))))"
  by (simp add: srv_handle_def summarize_def api_post_def srv_summarize_def json_str_def json_get_def)

lemma ex_ai_sys_box: "as_st ex_ai_sys = ex_ai_asked"
  by (simp add: ex_ai_sys_def ex_ai_asked_def del: ai_step.simps)

section \<open>Properties of the AI flows with the server\<close>

text \<open>
  C39. A recommendation never ends in an error when the server answers it: in every
  reachable state of the box with the server, an in-flight recommendation carries a
  non-empty query (the button's guard), so the server's answer is the recommender's
  result for that query, and the box then shows \<^verbatim>\<open>Recommended: \<close> followed by the title,
  or by the em dash when there is no match, leaving the error line as it was.
\<close>

theorem recommend_answered:
  assumes "ai_sys_reach m s" and "i < length (ai_pending (as_st s))"
    and "fst (ai_pending (as_st s) ! i) = TRec"
  shows "\<exists>q. q \<noteq> [] \<and> snd (ai_pending (as_st s) ! i) = recommend q \<and>
           ai_error (ai_b (as_st (ai_sys_step m s (ADeliver i)))) = ai_error (ai_b (as_st s)) \<and>
           (\<exists>u v w x. AIPromptBox_view (ai_b (as_st (ai_sys_step m s (ADeliver i)))) =
              AIView (Some (''Recommended: '' @ js_or (ai_recommend m q) em_dash)) u v w x)"
proof -
  obtain q where q: "q \<noteq> []" "ai_pending (as_st s) ! i = (TRec, recommend q)"
    using ai_pending_recommend [OF ai_sys_reach_box [OF assms(1)] assms(2,3)] by blast
  with assms(2) show ?thesis
    by (intro exI [of _ q]) (simp add: AI_handleRecommend_done_def AIPromptBox_view_def)
qed

theorem recommend_answered_witness:
  "ai_sys_reach ex_gen ex_ai_sys \<and> 0 < length (ai_pending (as_st ex_ai_sys)) \<and>
   fst (ai_pending (as_st ex_ai_sys) ! 0) = TRec \<and>
   (\<exists>u v w x. AIPromptBox_view (ai_b (as_st (ai_sys_step ex_gen ex_ai_sys (ADeliver 0)))) =
      AIView (Some ''Recommended: The Hound of the Baskervilles'') u v w x)"
proof -
  have r: "ai_sys_reach ex_gen ex_ai_sys"
    unfolding ex_ai_sys_def by (rule ai_sys_reach.step ai_sys_reach.init)+
  have h: "0 < length (ai_pending (as_st ex_ai_sys))" "fst (ai_pending (as_st ex_ai_sys) ! 0) = TRec"
    by (simp_all add: ex_ai_sys_box ex_ai_asked_eq)
  from recommend_answered [OF r h] obtain q where
    "q \<noteq> []" and "\<exists>u v w x. AIPromptBox_view (ai_b (as_st (ai_sys_step ex_gen ex_ai_sys (ADeliver 0)))) =
      AIView (Some (''Recommended: '' @ js_or (ai_recommend ex_gen q) em_dash)) u v w x"
    by blast
  then have "\<exists>u v w x. AIPromptBox_view (ai_b (as_st (ai_sys_step ex_gen ex_ai_sys (ADeliver 0)))) =
      AIView (Some ''Recommended: The Hound of the Baskervilles'') u v w x"
    by (simp add: ex_gen_def del: ai_sys_step.simps)
  with r h show ?thesis by blast
qed

text \<open>
  C35. A summary answers the text that was sent: in every reachable state of the box with
  the server, an in-flight summarization carries the non-empty text the textarea held when
  Summarize was clicked (the button's guard), and its delivery shows the summarizer's
  answer for that text, even if the textarea has been edited since, leaving the textarea
  and the error line as they were.
\<close>

theorem summarize_answered:
  assumes "ai_sys_reach m s" and "i < length (ai_pending (as_st s))"
    and "fst (ai_pending (as_st s) ! i) = TSum"
  shows "\<exists>t. t \<noteq> [] \<and> snd (ai_pending (as_st s) ! i) = summarize (JObj [(''text'', JStr t)]) \<and>
           ai_sumResult (ai_b (as_st (ai_sys_step m s (ADeliver i)))) = Some (ai_summarize m t) \<and>
           ai_text (ai_b (as_st (ai_sys_step m s (ADeliver i)))) = ai_text (ai_b (as_st s)) \<and>
           ai_error (ai_b (as_st (ai_sys_step m s (ADeliver i)))) = ai_error (ai_b (as_st s))"
proof -
  have "ai_pending (as_st s) ! i \<in> set (ai_pending (as_st s))" using assms(2) by (rule nth_mem)
  with ai_pending_summarize [OF ai_sys_reach_box [OF assms(1)]] assms(3) obtain t where
    t: "t \<noteq> []" "ai_pending (as_st s) ! i = (TSum, summarize (JObj [(''text'', JStr t)]))"
    by (metis prod.collapse)
  with assms(2) show ?thesis
    by (intro exI [of _ t]) (simp add: AI_handleSummarize_done_def)
qed

theorem summarize_answered_witness:
  "ai_sys_reach ex_gen ex_ai_sys_sum \<and> 0 < length (ai_pending (as_st ex_ai_sys_sum)) \<and>
   fst (ai_pending (as_st ex_ai_sys_sum) ! 0) = TSum \<and>
   ai_sumResult (ai_b (as_st (ai_sys_step ex_gen ex_ai_sys_sum (ADeliver 0)))) = Some ''In short: A long story.'' \<and>
   ai_text (ai_b (as_st (ai_sys_step ex_gen ex_ai_sys_sum (ADeliver 0)))) = ''Another story.''"
proof -
  have r: "ai_sys_reach ex_gen ex_ai_sys_sum"
    unfolding ex_ai_sys_sum_def by (rule ai_sys_reach.step ai_sys_reach.init)+
  have p: "ai_pending (as_st ex_ai_sys_sum) = [(TSum, summarize (JObj [(''text'', JStr ''A long story.'')]))]"
    "ai_text (ai_b (as_st ex_ai_sys_sum)) = ''Another story.''"
    by (simp_all add: ex_ai_sys_sum_def ai_init_def AIPromptBox_init_def AI_handleSummarize_def sum_enabled_def)
  have h: "0 < length (ai_pending (as_st ex_ai_sys_sum))" "fst (ai_pending (as_st ex_ai_sys_sum) ! 0) = TSum"
    using p by simp_all
  from summarize_answered [OF r h] obtain t where
    "snd (ai_pending (as_st ex_ai_sys_sum) ! 0) = summarize (JObj [(''text'', JStr t)])"
    "ai_sumResult (ai_b (as_st (ai_sys_step ex_gen ex_ai_sys_sum (ADeliver 0)))) = Some (ai_summarize ex_gen t)"
    "ai_text (ai_b (as_st (ai_sys_step ex_gen ex_ai_sys_sum (ADeliver 0)))) = ai_text (ai_b (as_st ex_ai_sys_sum))"
    by blast
  with p have "ai_sumResult (ai_b (as_st (ai_sys_step ex_gen ex_ai_sys_sum (ADeliver 0)))) = Some ''In short: A long story.''"
    "ai_text (ai_b (as_st (ai_sys_step ex_gen ex_ai_sys_sum (ADeliver 0)))) = ''Another story.''"
    by (simp_all add: summarize_def api_post_def ex_gen_def del: ai_sys_step.simps)
  with r h show ?thesis by blast
qed

end
