(* ===== verification/MyBookings.thy ===== *)
theory MyBookings
  imports Booking Server
begin

text \<open>
  The bookings page, \<^verbatim>\<open>src/frontend/src/pages/MyBookings.jsx\<close>, and the session's
  read-after-write behaviour across the pages that share \<^verbatim>\<open>localStorage\<close>. The page's
  state is the record \<open>my_bookings\<close>, whose user-id field starts from the Session Store
  as the booking form's does; its \<^verbatim>\<open>load\<close> is split at the \<^verbatim>\<open>await\<close> into \<open>MB_load\<close>
  (the guard \<^verbatim>\<open>if (!userId) return\<close> and the request \<^verbatim>\<open>getUserBookings(Number(userId))\<close>)
  and \<open>MB_load_done\<close>, whose argument is the \<^verbatim>\<open>items\<close> field of the response body.
  \<open>MyBookings_mount\<close> is the \<^verbatim>\<open>useEffect\<close> of the mount. Dates are kept as the server's
  timestamps: \<^verbatim>\<open>toLocaleString\<close> depends on the browser's locale and is not modelled.
\<close>

section \<open>State and handlers\<close>

record my_bookings =
  mb_userId :: field
  mb_items :: "booking list"
  mb_loading :: bool
  mb_error :: string

definition MyBookings_init :: "storage \<Rightarrow> my_bookings" where
  "MyBookings_init ls = \<lparr>mb_userId = stored_user_id ls, mb_items = [], mb_loading = False, mb_error = []\<rparr>"

definition MB_load :: "my_bookings \<Rightarrow> my_bookings \<times> request option" where
  "MB_load m =
     (if \<not> truthy (mb_userId m) then (m, None)
      else (m\<lparr>mb_loading := True\<rparr>, Some (getUserBookings (to_number (mb_userId m)))))"

definition MB_load_done :: "my_bookings \<Rightarrow> booking list option api_result \<Rightarrow> my_bookings" where
  "MB_load_done m r =
     (case r of
        Success items \<Rightarrow> m\<lparr>mb_items := (case items of Some xs \<Rightarrow> xs | None \<Rightarrow> []), mb_loading := False\<rparr>
      | _ \<Rightarrow> m\<lparr>mb_error := ''Failed to load bookings'', mb_loading := False\<rparr>)"

definition MyBookings_mount :: "storage \<Rightarrow> my_bookings \<times> request option" where
  "MyBookings_mount ls =
     (let m = MyBookings_init ls in if truthy (mb_userId m) then MB_load m else (m, None))"

text \<open>The input's \<^verbatim>\<open>onChange\<close> and the Load button's \<^verbatim>\<open>disabled={!userId}\<close>.\<close>

definition MB_setUserId :: "string \<Rightarrow> my_bookings \<Rightarrow> my_bookings" where
  "MB_setUserId v m = m\<lparr>mb_userId := FStr v\<rparr>"

definition load_enabled :: "my_bookings \<Rightarrow> bool" where
  "load_enabled m = truthy (mb_userId m)"

section \<open>Rendering\<close>

text \<open>An item: booking number, book id, status and the raw date; the \<^verbatim>\<open>No bookings\<close> line.\<close>

datatype mb_item = MBItem string string string int

datatype mb_view = MBView bool "string option" "mb_item list" bool

definition MyBookings_view :: "my_bookings \<Rightarrow> mb_view" where
  "MyBookings_view m =
     MBView (mb_loading m) (if mb_error m \<noteq> [] then Some (mb_error m) else None)
       (map (\<lambda>b. MBItem (''Booking #'' @ js_String (booking_id b)) (''Book ID: '' @ js_String (booking_book b))
                 (''Status: '' @ status b) (booking_date b)) (mb_items m))
       (mb_items m = [] \<and> \<not> mb_loading m)"

section \<open>Lemmas\<close>

lemma strip_prefix_books_bookings [simp]: "strip_prefix ''/books/'' (''/bookings/user/'' @ x) = None"
  by simp

lemma srv_handle_getUserBookings [simp]:
  "srv_handle gen (getUserBookings (Num u)) s = (s, SBookings (srv_user_bookings u s))"
  by (simp add: srv_handle_def getUserBookings_def api_get_def)

lemma srv_create_booking_appends:
  assumes "srv_create_booking j s = (s', Success bk)"
  shows "srv_bookings s' = srv_bookings s @ [bk]"
  using assms
  by (auto simp: srv_create_booking_def Let_def split: option.splits prod.splits if_splits)

lemma srv_create_booking_user:
  assumes "srv_create_booking j s = (s', Success bk)"
  shows "json_int j ''user_id'' = Some (booking_user bk)"
  using assms
  by (auto simp: srv_create_booking_def Let_def split: option.splits prod.splits if_splits)

lemma MB_load_request:
  "truthy (mb_userId m) \<Longrightarrow>
   MB_load m = (m\<lparr>mb_loading := True\<rparr>, Some (getUserBookings (to_number (mb_userId m))))"
  by (simp add: MB_load_def)

section \<open>Properties of the bookings page and the session\<close>

text \<open>
  C24. Read-after-write of a booking: after the server accepts a booking, loading the
  bookings page for the booking's user sends \<^verbatim>\<open>GET /bookings/user/<id>\<close>, which the server
  routes back to that user, and the page then lists the new booking.
\<close>

theorem my_bookings_shows_new_booking:
  assumes "srv_create_booking j s = (s', Success bk)"
    and "truthy (mb_userId m)" and "to_number (mb_userId m) = Num (booking_user bk)"
  shows "\<exists>m' q r. MB_load m = (m', Some q) \<and> srv_handle gen q s' = (s', SBookings r) \<and>
           bk \<in> set (mb_items (MB_load_done m' r))"
proof -
  have "srv_bookings s' = srv_bookings s @ [bk]" by (rule srv_create_booking_appends [OF assms(1)])
  with assms(2,3) show ?thesis
    by (simp add: MB_load_request srv_user_bookings_def MB_load_done_def)
qed

theorem my_bookings_shows_new_booking_witness:
  "\<exists>s' bk. srv_create_booking (booking_payload (FNum 5) (js_String 12)) ex_server = (s', Success bk) \<and>
     booking_user bk = 5 \<and> booking_book bk = 12 \<and>
     truthy (mb_userId (MyBookings_init [''user'' \<mapsto> ex_user])) \<and>
     to_number (mb_userId (MyBookings_init [''user'' \<mapsto> ex_user])) = Num (booking_user bk) \<and>
     (\<exists>m' q r. MB_load (MyBookings_init [''user'' \<mapsto> ex_user]) = (m', Some q) \<and>
        srv_handle ex_gen q s' = (s', SBookings r) \<and> bk \<in> set (mb_items (MB_load_done m' r)))"
proof -
  let ?j = "booking_payload (FNum 5) (js_String 12)"
  let ?bk = "\<lparr>booking_id = 1, booking_user = 5, booking_book = 12, status = ''active'',
              booking_date = 1700000000\<rparr>"
  have "snd (srv_create_booking ?j ex_server) = Success ?bk"
    using srv_create_booking_taken [of ?j 5 12 ex_server ex_user ex_book]
    by (simp add: ex_server_def ex_book_def)
  then have c: "srv_create_booking ?j ex_server = (fst (srv_create_booking ?j ex_server), Success ?bk)"
    by (metis prod.collapse)
  have m: "truthy (mb_userId (MyBookings_init [''user'' \<mapsto> ex_user]))"
    "to_number (mb_userId (MyBookings_init [''user'' \<mapsto> ex_user])) = Num (booking_user ?bk)"
    by (simp_all add: MyBookings_init_def stored_user_id_def stored_user_def ex_user_def)
  have bk: "booking_user ?bk = 5" "booking_book ?bk = 12" by simp_all
  from my_bookings_shows_new_booking [OF c m, of ex_gen] c m bk show ?thesis by blast
qed

text \<open>
  C25. Read-after-write of the session: after an account is created, the booking form
  and the bookings page mounted next start with the new user's id and the login page
  shows the user as logged in; after logging out they start with an empty id and the
  login page shows the form with \<^verbatim>\<open>'Logged out.'\<close>.
\<close>

theorem session_read_after_write:
  assumes "user_id u \<noteq> 0"
    and "Login_handleSubmit_done ls (fst (Login_handleSubmit l)) (Success u) = (ls', l')"
    and "Login_handleLogout ls' l' = (ls'', l'')"
  shows "bf_userId (BookingForm_init ls') = FNum (user_id u) \<and>
         mb_userId (MyBookings_init ls') = FNum (user_id u) \<and>
         Login_view ls' l' = LoggedIn (user_name u) (user_id u) \<and>
         bf_userId (BookingForm_init ls'') = FStr [] \<and> mb_userId (MyBookings_init ls'') = FStr [] \<and>
         Login_view ls'' l'' = SignupForm False [] ''Logged out.''"
  using assms
  by (auto simp: Login_handleSubmit_def Login_handleSubmit_done_def Login_handleLogout_def
      BookingForm_init_def MyBookings_init_def Login_view_def stored_user_def)

theorem session_read_after_write_witness:
  "bf_userId (BookingForm_init [''user'' \<mapsto> ex_user]) = FNum 5 \<and>
   mb_userId (MyBookings_init (Map.empty(''user'' \<mapsto> ex_user, ''user'' := None))) = FStr []"
proof -
  let ?l = "fst (Login_handleSubmit Login_init)"
  let ?l' = "?l\<lparr>lg_success := ''Account created and logged in.'', lg_name := [], lg_email := [],
       lg_password := [], lg_loading := False\<rparr>"
  have h: "user_id ex_user \<noteq> 0" by (simp add: ex_user_def)
  have d: "Login_handleSubmit_done Map.empty ?l (Success ex_user) = ([''user'' \<mapsto> ex_user], ?l')"
    by (simp add: Login_handleSubmit_done_def)
  have o: "Login_handleLogout [''user'' \<mapsto> ex_user] ?l' =
      (Map.empty(''user'' \<mapsto> ex_user, ''user'' := None), ?l'\<lparr>lg_success := ''Logged out.''\<rparr>)"
    by (simp add: Login_handleLogout_def)
  from session_read_after_write [OF h d o] show ?thesis by (simp add: ex_user_def)
qed

text \<open>
  C26. A stored user whose id is \<open>0\<close> counts as logged in on the login page but as
  missing everywhere else: \<^verbatim>\<open>storedUser?.id || ''\<close> gives an empty field, so the booking
  form sends nothing and asks for a user id, and the bookings page loads nothing.
\<close>

theorem stored_user_zero_missing:
  assumes "user_id u = 0"
  shows "Login_view (ls(''user'' \<mapsto> u)) l = LoggedIn (user_name u) 0 \<and>
         handleSubmit bid (BookingForm_init (ls(''user'' \<mapsto> u))) =
           (BookingForm_init (ls(''user'' \<mapsto> u))\<lparr>bf_error := missing_user_msg\<rparr>, None) \<and>
         MyBookings_mount (ls(''user'' \<mapsto> u)) = (MyBookings_init (ls(''user'' \<mapsto> u)), None)"
  using assms
  by (simp add: Login_view_def stored_user_def stored_user_id_def handleSubmit_def BookingForm_init_def
      MyBookings_mount_def MyBookings_init_def)

theorem stored_user_zero_missing_witness:
  "MyBookings_mount [''user'' \<mapsto> ex_user\<lparr>user_id := 0\<rparr>] =
     (MyBookings_init [''user'' \<mapsto> ex_user\<lparr>user_id := 0\<rparr>], None) \<and>
   Login_view [''user'' \<mapsto> ex_user\<lparr>user_id := 0\<rparr>] Login_init = LoggedIn ''Ada'' 0"
  using stored_user_zero_missing [of "ex_user\<lparr>user_id := 0\<rparr>" Map.empty Login_init "''12''"]
  by (simp add: ex_user_def)

end
