(* ===== verification/MyBookingsSystem.thy ===== *)
theory MyBookingsSystem
  imports MyBookings
begin

text \<open>
  The bookings page (\<^verbatim>\<open>MyBookings.jsx\<close>) as an event machine, and together with the server.
  The Load button is enabled whenever the id field is non-empty, also while a load is in
  flight, so any number of loads may be in flight: the page with its in-flight requests is
  the record \<open>mb_page\<close>, \<open>mb_step\<close> is an edit of the id field, a click on Load, or the
  response to any in-flight request, and \<open>mb_page_init\<close> is the mount with its
  \<^verbatim>\<open>useEffect\<close>. \<open>mb_sys\<close> adds the server: \<open>mb_sys_step\<close> is a user event, the network
  delivering any in-flight load to the server and its answer back (\<open>MDeliver\<close>), losing it
  (\<open>MLose\<close>), or another client's booking (\<open>MOther\<close>).
\<close>

record mb_page =
  mp_m :: my_bookings
  mp_pending :: "request list"

datatype mb_event = MBEdit string | MBClickLoad | MBRespond nat "booking list option api_result"

fun mb_step :: "mb_page \<Rightarrow> mb_event \<Rightarrow> mb_page" where
  "mb_step p (MBEdit v) = p\<lparr>mp_m := MB_setUserId v (mp_m p)\<rparr>"
| "mb_step p MBClickLoad =
     (if load_enabled (mp_m p)
      then (let (m', q) = MB_load (mp_m p) in
            p\<lparr>mp_m := m', mp_pending := mp_pending p @ (case q of None \<Rightarrow> [] | Some r \<Rightarrow> [r])\<rparr>)
      else p)"
| "mb_step p (MBRespond i r) =
     (if i < length (mp_pending p)
      then p\<lparr>mp_m := MB_load_done (mp_m p) r, mp_pending := remove_nth i (mp_pending p)\<rparr>
      else p)"

definition mb_page_init :: "storage \<Rightarrow> mb_page" where
  "mb_page_init ls =
     (let (m, q) = MyBookings_mount ls in \<lparr>mp_m = m, mp_pending = (case q of None \<Rightarrow> [] | Some r \<Rightarrow> [r])\<rparr>)"

record mb_sys =
  ms_page :: mb_page
  ms_srv :: server

datatype mb_sys_event = MUser mb_event | MDeliver nat | MLose nat | MOther json

text \<open>The server's answer as \<^verbatim>\<open>load\<close> receives it; an unrouted request is a 404.\<close>

fun bookings_answer :: "srv_response \<Rightarrow> booking list option api_result" where
  "bookings_answer (SBookings r) = r"
| "bookings_answer _ = RequestError (Some ''Not Found'')"

fun mb_sys_step :: "ai_model \<Rightarrow> mb_sys \<Rightarrow> mb_sys_event \<Rightarrow> mb_sys" where
  "mb_sys_step m s (MUser (MBRespond i r)) = s"
| "mb_sys_step m s (MUser e) = s\<lparr>ms_page := mb_step (ms_page s) e\<rparr>"
| "mb_sys_step m s (MDeliver i) =
     (if i < length (mp_pending (ms_page s))
      then (let (srv', r) = srv_handle m (mp_pending (ms_page s) ! i) (ms_srv s) in
            \<lparr>ms_page = mb_step (ms_page s) (MBRespond i (bookings_answer r)), ms_srv = srv'\<rparr>)
      else s)"
| "mb_sys_step m s (MLose i) = s\<lparr>ms_page := mb_step (ms_page s) (MBRespond i TransportError)\<rparr>"
| "mb_sys_step m s (MOther j) = s\<lparr>ms_srv := fst (srv_create_booking j (ms_srv s))\<rparr>"

fun mb_sys_run :: "ai_model \<Rightarrow> mb_sys \<Rightarrow> mb_sys_event list \<Rightarrow> mb_sys" where
  "mb_sys_run m s [] = s"
| "mb_sys_run m s (e # es) = mb_sys_run m (mb_sys_step m s e) es"

inductive mb_sys_reach :: "ai_model \<Rightarrow> mb_sys \<Rightarrow> bool" for m where
  init: "mb_sys_reach m \<lparr>ms_page = mb_page_init ls, ms_srv = srv\<rparr>"
| step: "mb_sys_reach m s \<Longrightarrow> mb_sys_reach m (mb_sys_step m s e)"

text \<open>Every in-flight request is the \<^verbatim>\<open>getUserBookings(Number(userId))\<close> of a non-empty id field.\<close>

definition mb_requests_ok :: "mb_page \<Rightarrow> bool" where
  "mb_requests_ok p = (\<forall>q \<in> set (mp_pending p). \<exists>f. truthy f \<and> q = getUserBookings (to_number f))"

text \<open>Example: the page mounted with no stored user against \<open>ex_server\<close>, after a booking of user 5.\<close>

definition ex_mb_sys :: mb_sys where
  "ex_mb_sys = \<lparr>ms_page = mb_page_init Map.empty,
     ms_srv = fst (srv_create_booking (booking_payload (FNum 5) ''12'') ex_server)\<rparr>"

section \<open>Lemmas\<close>

lemma srv_handle_getUserBookings_NaN [simp]: "srv_handle gen (getUserBookings NaN) s = (s, SNotFound)"
proof -
  have "parse_id ''NaN'' = None" by (simp add: parse_id_def) code_simp
  then show ?thesis by (simp add: srv_handle_def getUserBookings_def api_get_def)
qed

lemma mb_requests_ok_step: "mb_requests_ok p \<Longrightarrow> mb_requests_ok (mb_step p e)"
  by (cases e) (auto simp: mb_requests_ok_def MB_setUserId_def MB_load_def load_enabled_def Let_def
      dest: in_remove_nth)

lemma mb_sys_reach_requests_ok: "mb_sys_reach m s \<Longrightarrow> mb_requests_ok (ms_page s)"
proof (induction rule: mb_sys_reach.induct)
  case (init ls srv)
  show ?case by (auto simp: mb_requests_ok_def mb_page_init_def MyBookings_mount_def MB_load_def Let_def)
next
  case (step s e)
  show ?case
  proof (cases e)
    case (MUser e')
    with step.IH show ?thesis by (cases e') (simp_all add: mb_requests_ok_step del: mb_step.simps)
  qed (use step.IH in \<open>simp_all add: Let_def split_def mb_requests_ok_step del: mb_step.simps\<close>)
qed

lemma mb_sys_reach_run: "mb_sys_reach m s \<Longrightarrow> mb_sys_reach m (mb_sys_run m s es)"
  by (induction es arbitrary: s) (simp_all add: mb_sys_reach.step del: mb_sys_step.simps)

section \<open>Properties of the bookings page with the server\<close>

text \<open>
  C27. A delivered load shows the server's bookings of the id it was sent for: in every
  reachable state of the bookings page with the server, every in-flight request is the
  \<^verbatim>\<open>getUserBookings(Number(userId))\<close> of a non-empty id field, and when the server answers
  it, the server is unchanged, the loading line goes, and the page lists exactly the
  server's bookings of that user, in the server's order; an id field that is not a number
  reaches no route and shows \<^verbatim>\<open>'Failed to load bookings'\<close>.
\<close>

theorem bookings_load_answered:
  assumes "mb_sys_reach m s" and "i < length (mp_pending (ms_page s))"
  shows "\<exists>f. truthy f \<and> mp_pending (ms_page s) ! i = getUserBookings (to_number f) \<and>
           ms_srv (mb_sys_step m s (MDeliver i)) = ms_srv s \<and>
           \<not> mb_loading (mp_m (ms_page (mb_sys_step m s (MDeliver i)))) \<and>
           (case to_number f of
              Num u \<Rightarrow> mb_items (mp_m (ms_page (mb_sys_step m s (MDeliver i)))) =
                         filter (\<lambda>bk. booking_user bk = u) (srv_bookings (ms_srv s))
            | NaN \<Rightarrow> mb_error (mp_m (ms_page (mb_sys_step m s (MDeliver i)))) = ''Failed to load bookings'')"
proof -
  have "mp_pending (ms_page s) ! i \<in> set (mp_pending (ms_page s))" using assms(2) by (rule nth_mem)
  with mb_sys_reach_requests_ok [OF assms(1)] obtain f where
    f: "truthy f" "mp_pending (ms_page s) ! i = getUserBookings (to_number f)"
    by (auto simp: mb_requests_ok_def)
  show ?thesis
  proof (cases "to_number f")
    case (Num u)
    with f assms(2) show ?thesis
      by (intro exI [of _ f]) (simp add: MB_load_done_def srv_user_bookings_def)
  next
    case NaN
    with f assms(2) show ?thesis
      by (intro exI [of _ f]) (simp add: MB_load_done_def)
  qed
qed

theorem bookings_load_answered_witness:
  "mb_sys_reach ex_gen (mb_sys_run ex_gen ex_mb_sys [MUser (MBEdit ''5''), MUser MBClickLoad]) \<and>
   0 < length (mp_pending (ms_page (mb_sys_run ex_gen ex_mb_sys [MUser (MBEdit ''5''), MUser MBClickLoad]))) \<and>
   map booking_book (mb_items (mp_m (ms_page (mb_sys_step ex_gen
     (mb_sys_run ex_gen ex_mb_sys [MUser (MBEdit ''5''), MUser MBClickLoad]) (MDeliver 0))))) = [12]"
proof -
  let ?s = "mb_sys_run ex_gen ex_mb_sys [MUser (MBEdit ''5''), MUser MBClickLoad]"
  have r: "mb_sys_reach ex_gen ?s" unfolding ex_mb_sys_def by (intro mb_sys_reach_run mb_sys_reach.init)
  have n: "js_Number ''5'' = Num 5" "signed_digits False ''5'' = Num 5" by code_simp+
  have p: "mp_pending (ms_page ?s) = [getUserBookings (Num 5)]"
    by (simp add: ex_mb_sys_def mb_page_init_def MyBookings_mount_def MyBookings_init_def stored_user_id_def
        stored_user_def MB_setUserId_def load_enabled_def MB_load_def n)
  have b: "map booking_book (filter (\<lambda>bk. booking_user bk = 5) (srv_bookings (ms_srv ?s))) = [12]"
    by (simp add: ex_mb_sys_def srv_create_booking_def booking_payload_def json_int_def json_get_def
        ex_server_def ex_user_def ex_book_def Let_def) code_simp
  have i: "0 < length (mp_pending (ms_page ?s))" using p by simp
  from bookings_load_answered [OF r i] obtain f where
    f: "mp_pending (ms_page ?s) ! 0 = getUserBookings (to_number f)" and
    c: "case to_number f of
              Num u \<Rightarrow> mb_items (mp_m (ms_page (mb_sys_step ex_gen ?s (MDeliver 0)))) =
                         filter (\<lambda>bk. booking_user bk = u) (srv_bookings (ms_srv ?s))
            | NaN \<Rightarrow> mb_error (mp_m (ms_page (mb_sys_step ex_gen ?s (MDeliver 0)))) = ''Failed to load bookings''"
    by blast
  from f p have "number_text (to_number f) = number_text (Num 5)"
    by (simp add: getUserBookings_def api_get_def del: number_text.simps)
  then have "to_number f = Num 5"
  proof (cases "to_number f")
    case (Num k)
    with \<open>number_text (to_number f) = number_text (Num 5)\<close> have "js_Number (js_String k) = js_Number (js_String 5)"
      by simp
    with Num show ?thesis by (simp only: js_Number_js_String)
  next
    case NaN
    have "js_Number ''NaN'' \<noteq> js_Number (js_String 5)" by code_simp
    with NaN \<open>number_text (to_number f) = number_text (Num 5)\<close> show ?thesis by simp
  qed
  with c b have "map booking_book (mb_items (mp_m (ms_page (mb_sys_step ex_gen ?s (MDeliver 0))))) = [12]"
    by (simp del: mb_sys_step.simps)
  with r i show ?thesis by blast
qed

text \<open>
  C31. The bookings of an earlier click can replace those of the later one: the Load button
  stays enabled while a load is in flight, and each answer replaces the list, so from an
  idle page, typing the id \<open>a\<close>, clicking Load, typing \<open>b\<close> and clicking Load again sends
  two loads; if the answer for \<open>b\<close> arrives first, the page ends with nothing in flight and
  no loading line, the id field showing \<open>b\<close>, and the list showing the bookings of \<open>a\<close>.
  The specification names this completion-order race only for recommend, summarize and
  search.
\<close>

theorem bookings_earlier_click_wins:
  assumes "mp_pending (ms_page s) = []"
  shows "mp_pending (ms_page (mb_sys_run m s [MUser (MBEdit (js_String a)), MUser MBClickLoad,
             MUser (MBEdit (js_String b)), MUser MBClickLoad])) =
           [getUserBookings (Num a), getUserBookings (Num b)] \<and>
         mp_pending (ms_page (mb_sys_run m s [MUser (MBEdit (js_String a)), MUser MBClickLoad,
             MUser (MBEdit (js_String b)), MUser MBClickLoad, MDeliver 1, MDeliver 0])) = [] \<and>
         mp_m (ms_page (mb_sys_run m s [MUser (MBEdit (js_String a)), MUser MBClickLoad,
             MUser (MBEdit (js_String b)), MUser MBClickLoad, MDeliver 1, MDeliver 0])) =
           (mp_m (ms_page s))\<lparr>mb_userId := FStr (js_String b),
              mb_items := filter (\<lambda>bk. booking_user bk = a) (srv_bookings (ms_srv s)), mb_loading := False\<rparr>"
  using assms
  by (simp add: MB_setUserId_def load_enabled_def MB_load_def MB_load_done_def srv_user_bookings_def
      js_Number_js_String remove_nth_def)

theorem bookings_earlier_click_wins_witness:
  "mp_pending (ms_page ex_mb_sys) = [] \<and>
   mb_userId (mp_m (ms_page (mb_sys_run ex_gen ex_mb_sys [MUser (MBEdit ''5''), MUser MBClickLoad,
       MUser (MBEdit ''6''), MUser MBClickLoad, MDeliver 1, MDeliver 0]))) = FStr ''6'' \<and>
   map booking_user (mb_items (mp_m (ms_page (mb_sys_run ex_gen ex_mb_sys [MUser (MBEdit ''5''), MUser MBClickLoad,
       MUser (MBEdit ''6''), MUser MBClickLoad, MDeliver 1, MDeliver 0])))) = [5]"
proof -
  have e: "mp_pending (ms_page ex_mb_sys) = []"
    by (simp add: ex_mb_sys_def mb_page_init_def MyBookings_mount_def MyBookings_init_def stored_user_id_def
        stored_user_def)
  have j: "js_String 5 = ''5''" "js_String 6 = ''6''" by code_simp+
  have b: "map booking_user (filter (\<lambda>bk. booking_user bk = 5) (srv_bookings (ms_srv ex_mb_sys))) = [5]"
    by (simp add: ex_mb_sys_def srv_create_booking_def booking_payload_def json_int_def json_get_def
        ex_server_def ex_user_def ex_book_def Let_def) code_simp
  from bookings_earlier_click_wins [OF e, of ex_gen 5 6] e b show ?thesis by (simp only: j) simp
qed

end
