(* ===== verification/Catalog.thy ===== *)
theory Catalog
  imports Gateway
begin

text \<open>
  The catalog pages: \<^verbatim>\<open>src/frontend/src/pages/BookList.jsx\<close> and the card it renders per
  book, \<^verbatim>\<open>src/frontend/src/components/BookCard.jsx\<close>. The list's state is the record
  \<open>book_list\<close> (its four \<^verbatim>\<open>useState\<close> hooks); \<^verbatim>\<open>load\<close> is split at its \<^verbatim>\<open>await\<close> into
  \<open>BookList_load\<close> and \<open>BookList_load_done\<close>, whose argument is the \<^verbatim>\<open>items\<close> field of the
  response body (\<open>None\<close> when the body has none). The Search button is never disabled,
  so any number of searches may be in flight: the page with its in-flight requests is
  the record \<open>list_page\<close>, \<open>list_step\<close> is one event (an edit of the search box, a click
  on Search, or the response to any in-flight request), and \<open>list_reach\<close> are the states
  reached from the mount, whose \<^verbatim>\<open>useEffect\<close> calls \<^verbatim>\<open>load()\<close> without a query.
\<close>

section \<open>The book list\<close>

record book_list =
  bl_books :: "book list"
  bl_q :: string
  bl_loading :: bool
  bl_error :: string

definition BookList_init :: book_list where
  "BookList_init = \<lparr>bl_books = [], bl_q = [], bl_loading = True, bl_error = []\<rparr>"

definition BookList_load :: "string option \<Rightarrow> book_list \<Rightarrow> book_list \<times> request" where
  "BookList_load query l = (l\<lparr>bl_loading := True\<rparr>, getBooks query)"

definition BookList_load_done :: "book_list \<Rightarrow> book list option api_result \<Rightarrow> book_list" where
  "BookList_load_done l r =
     (case r of
        Success items \<Rightarrow> l\<lparr>bl_books := (case items of Some xs \<Rightarrow> xs | None \<Rightarrow> []), bl_loading := False\<rparr>
      | _ \<Rightarrow> l\<lparr>bl_error := ''Failed to load books'', bl_loading := False\<rparr>)"

text \<open>The search box's \<^verbatim>\<open>onChange\<close>, and the argument \<^verbatim>\<open>q || undefined\<close> of the Search button.\<close>

definition BookList_setQ :: "string \<Rightarrow> book_list \<Rightarrow> book_list" where
  "BookList_setQ v l = l\<lparr>bl_q := v\<rparr>"

definition search_query :: "string \<Rightarrow> string option" where
  "search_query q = (if q = [] then None else Some q)"

section \<open>Rendering\<close>

text \<open>A card: title, author line, genre, summary, availability and the Details link.\<close>

datatype card = Card string string string string string string

definition BookCard_view :: "book \<Rightarrow> card" where
  "BookCard_view b =
     Card (title b) (''by '' @ author b) (js_or (genre b) em_dash)
       (js_or (summary b) ''No summary available.'')
       (''Available: '' @ js_String (available_copies b) @ ''/'' @ js_String (total_copies b))
       (''/books/'' @ js_String (book_id b))"

fun card_link :: "card \<Rightarrow> string" where
  "card_link (Card _ _ _ _ _ l) = l"

text \<open>The list: the loading line, the error line and the cards, each shown independently.\<close>

datatype list_view = ListView bool "string option" "card list"

definition BookList_view :: "book_list \<Rightarrow> list_view" where
  "BookList_view l =
     ListView (bl_loading l) (if bl_error l \<noteq> [] then Some (bl_error l) else None)
       (map BookCard_view (bl_books l))"

section \<open>The list page and its in-flight requests\<close>

record list_page =
  lp_l :: book_list
  lp_pending :: "request list"

datatype list_event = LSetQ string | LSearch | LRespond nat "book list option api_result"

fun list_step :: "list_page \<Rightarrow> list_event \<Rightarrow> list_page" where
  "list_step p (LSetQ v) = p\<lparr>lp_l := BookList_setQ v (lp_l p)\<rparr>"
| "list_step p LSearch =
     (let (l', q) = BookList_load (search_query (bl_q (lp_l p))) (lp_l p) in
      p\<lparr>lp_l := l', lp_pending := lp_pending p @ [q]\<rparr>)"
| "list_step p (LRespond i r) =
     (if i < length (lp_pending p)
      then p\<lparr>lp_l := BookList_load_done (lp_l p) r, lp_pending := remove_nth i (lp_pending p)\<rparr>
      else p)"

definition list_init :: list_page where
  "list_init = (let (l, q) = BookList_load None BookList_init in \<lparr>lp_l = l, lp_pending = [q]\<rparr>)"

fun list_run :: "list_page \<Rightarrow> list_event list \<Rightarrow> list_page" where
  "list_run p [] = p"
| "list_run p (e # es) = list_run (list_step p e) es"

inductive list_reach :: "list_page \<Rightarrow> bool" where
  mount: "list_reach list_init"
| step: "list_reach p \<Longrightarrow> list_reach (list_step p e)"

text \<open>
  Example: the list has loaded \<open>ex_book\<close>; the user then searches for \<^verbatim>\<open>Hound\<close> and, before
  that answer arrives, for \<^verbatim>\<open>Poe\<close>. A failed mount is \<open>ex_list_failed\<close>.
\<close>

definition ex_list_two :: list_page where
  "ex_list_two = list_run list_init
     [LRespond 0 (Success (Some [ex_book])), LSetQ ''Hound'', LSearch, LSetQ ''Poe'', LSearch]"

definition ex_list_failed :: list_page where
  "ex_list_failed = list_step list_init (LRespond 0 TransportError)"

section \<open>Lemmas\<close>

lemma list_step_respond [simp]:
  "i < length (lp_pending p) \<Longrightarrow>
   list_step p (LRespond i r) =
     p\<lparr>lp_l := BookList_load_done (lp_l p) r, lp_pending := remove_nth i (lp_pending p)\<rparr>"
  by simp

lemma BookList_load_done_books [simp]:
  "bl_books (BookList_load_done l (Success (Some xs))) = xs"
  by (simp add: BookList_load_done_def)

lemma BookList_load_done_loading [simp]: "\<not> bl_loading (BookList_load_done l r)"
  by (simp add: BookList_load_done_def split: api_result.split)

lemma BookList_load_done_error: "bl_error l \<noteq> [] \<Longrightarrow> bl_error (BookList_load_done l r) \<noteq> []"
  by (simp add: BookList_load_done_def split: api_result.split)

lemma list_step_error: "bl_error (lp_l p) \<noteq> [] \<Longrightarrow> bl_error (lp_l (list_step p e)) \<noteq> []"
  by (cases e) (auto simp: BookList_setQ_def BookList_load_def BookList_load_done_error)

lemma list_run_append [simp]: "list_run p (es @ fs) = list_run (list_run p es) fs"
  by (induction es arbitrary: p) auto

lemma list_reach_run: "list_reach p \<Longrightarrow> list_reach (list_run p es)"
  by (induction es arbitrary: p) (auto intro: list_reach.step)

lemma list_loading_pending: "list_reach p \<Longrightarrow> bl_loading (lp_l p) \<longrightarrow> lp_pending p \<noteq> []"
proof (induction rule: list_reach.induct)
  case mount
  then show ?case by (simp add: list_init_def BookList_load_def)
next
  case (step p e)
  then show ?case by (cases e) (simp_all add: BookList_setQ_def BookList_load_def)
qed

lemma list_answer_all:
  assumes "list_reach p" and "length rs = length (lp_pending p)"
  shows "lp_pending (list_run p (map (LRespond 0) rs)) = [] \<and> \<not> bl_loading (lp_l (list_run p (map (LRespond 0) rs)))"
  using assms
proof (induction rs arbitrary: p)
  case Nil
  then show ?case using list_loading_pending [OF Nil.prems(1)] by auto
next
  case (Cons r rs)
  from Cons.prems(2) have "0 < length (lp_pending p)" by (metis length_Cons zero_less_Suc)
  moreover from Cons.prems(1) have "list_reach (list_step p (LRespond 0 r))" by (rule list_reach.step)
  ultimately show ?case using Cons.IH [of "list_step p (LRespond 0 r)"] Cons.prems(2)
    by (simp del: list_step.simps)
qed

lemma ex_list_two_eq:
  "ex_list_two = \<lparr>lp_l = \<lparr>bl_books = [ex_book], bl_q = ''Poe'', bl_loading = True, bl_error = []\<rparr>,
     lp_pending = [getBooks (Some ''Hound''), getBooks (Some ''Poe'')]\<rparr>"
  by (simp add: ex_list_two_def list_init_def BookList_init_def BookList_load_def BookList_load_done_def
      BookList_setQ_def search_query_def remove_nth_def)

section \<open>Properties of the catalog\<close>

text \<open>
  C19. Search sends exactly one request, \<^verbatim>\<open>GET /books/\<close>, with the parameter \<^verbatim>\<open>q\<close> set to the
  search box's text when it is non-empty and with no parameter (the whole catalog)
  when it is empty, and shows the loading line.
\<close>

theorem search_request:
  "lp_pending (list_step p LSearch) =
     lp_pending p @ [api_get ''/books/'' (if bl_q (lp_l p) = [] then [] else [(''q'', bl_q (lp_l p))])] \<and>
   bl_loading (lp_l (list_step p LSearch))"
  by (simp add: BookList_load_def search_query_def getBooks_def)

text \<open>
  C20. Search results are applied in completion order (last arrival wins): with two
  searches in flight, whichever response arrives last determines the displayed list,
  whatever the order in which the searches were issued.
\<close>

theorem search_last_arrival_wins:
  assumes "i < j" and "j < length (lp_pending p)"
  shows "bl_books (lp_l (list_run p [LRespond j (Success (Some ys)), LRespond i (Success (Some xs))])) = xs \<and>
         bl_books (lp_l (list_run p [LRespond i (Success (Some xs)), LRespond (j - 1) (Success (Some ys))])) = ys"
proof -
  have "i < length (lp_pending p)" "i < length (lp_pending p) - 1" "j - 1 < length (lp_pending p) - 1"
    using assms by simp_all
  with assms show ?thesis by (simp del: list_step.simps)
qed

theorem search_last_arrival_wins_witness:
  "(0::nat) < 1 \<and> 1 < length (lp_pending ex_list_two) \<and> bl_q (lp_l ex_list_two) = ''Poe'' \<and>
   bl_books (lp_l (list_run ex_list_two [LRespond 1 (Success (Some [])), LRespond 0 (Success (Some [ex_book]))]))
     = [ex_book]"
proof -
  have h: "(0::nat) < 1" "1 < length (lp_pending ex_list_two)" by (simp_all add: ex_list_two_eq)
  show ?thesis
    using conjunct1 [OF search_last_arrival_wins [OF h, of "[]" "[ex_book]"]] h
    by (simp add: ex_list_two_eq del: list_run.simps)
qed

text \<open>
  C21. The loading line is never shown without a request in flight: in every reachable
  state of the list page, \<^verbatim>\<open>loading\<close> implies a pending \<^verbatim>\<open>getBooks\<close> call.
\<close>

theorem list_loading_has_request:
  assumes "list_reach p"
  shows "bl_loading (lp_l p) \<longrightarrow> lp_pending p \<noteq> []"
  using list_loading_pending [OF assms] by blast

theorem list_loading_has_request_witness:
  "list_reach list_init \<and> bl_loading (lp_l list_init) \<and> lp_pending list_init \<noteq> []"
proof -
  have r: "list_reach list_init" by (rule list_reach.mount)
  have "bl_loading (lp_l list_init)" by (simp add: list_init_def BookList_load_def)
  with r list_loading_has_request [OF r] show ?thesis by blast
qed

text \<open>
  C22. The converse fails: the first response to arrive clears the loading line while
  another search is still in flight, so the page can show a finished list that a later
  response will replace.
\<close>

theorem search_in_flight_without_loading:
  "\<exists>p. list_reach p \<and> lp_pending p \<noteq> [] \<and> \<not> bl_loading (lp_l p)"
proof -
  let ?p = "list_step ex_list_two (LRespond 1 (Success (Some [])))"
  have "list_reach ex_list_two"
    unfolding ex_list_two_def by (rule list_reach_run, rule list_reach.mount)
  then have "list_reach ?p" by (rule list_reach.step)
  moreover have "lp_pending ?p \<noteq> [] \<and> \<not> bl_loading (lp_l ?p)"
    by (simp add: ex_list_two_eq remove_nth_def)
  ultimately show ?thesis by blast
qed

text \<open>
  C23. A failed load is permanent on the list page: once the error line is set, every
  later sequence of searches and responses renders it, also next to the results of
  later successful searches.
\<close>

theorem list_error_permanent:
  assumes "bl_error (lp_l p) \<noteq> []"
  shows "\<forall>ld cs. BookList_view (lp_l (list_run p es)) \<noteq> ListView ld None cs"
proof -
  from assms have "bl_error (lp_l (list_run p es)) \<noteq> []"
    by (induction es arbitrary: p) (auto dest: list_step_error)
  then show ?thesis by (simp add: BookList_view_def)
qed

theorem list_error_permanent_witness:
  "bl_error (lp_l ex_list_failed) \<noteq> [] \<and>
   BookList_view (lp_l (list_run ex_list_failed [LSearch, LRespond 0 (Success (Some [ex_book]))])) =
     ListView False (Some ''Failed to load books'') [BookCard_view ex_book]"
proof -
  have h: "bl_error (lp_l ex_list_failed) \<noteq> []"
    by (simp add: ex_list_failed_def list_init_def BookList_load_def BookList_load_done_def)
  have v: "BookList_view (lp_l (list_run ex_list_failed [LSearch, LRespond 0 (Success (Some [ex_book]))])) =
     ListView False (Some ''Failed to load books'') [BookCard_view ex_book]"
    by (simp add: ex_list_failed_def list_init_def BookList_init_def BookList_load_def
        BookList_load_done_def BookList_view_def remove_nth_def)
  from list_error_permanent [OF h] v h show ?thesis by simp
qed


text \<open>
  C38. The list page always settles: from any reachable state, once every search in
  flight has been answered, whatever the answers and in whatever order they are taken
  from the front of the queue, no request is in flight and the loading line is gone.
\<close>

theorem list_settles:
  assumes "list_reach p" and "length rs = length (lp_pending p)"
  shows "lp_pending (list_run p (map (LRespond 0) rs)) = [] \<and>
         \<not> bl_loading (lp_l (list_run p (map (LRespond 0) rs)))"
  by (rule list_answer_all [OF assms])

theorem list_settles_witness:
  "list_reach ex_list_two \<and> length [Success (Some []), TransportError] = length (lp_pending ex_list_two) \<and>
   \<not> bl_loading (lp_l (list_run ex_list_two [LRespond 0 (Success (Some [])), LRespond 0 TransportError]))"
proof -
  have r: "list_reach ex_list_two"
    unfolding ex_list_two_def by (rule list_reach_run, rule list_reach.mount)
  have l: "length [Success (Some []), TransportError] = length (lp_pending ex_list_two)"
    by (simp add: ex_list_two_eq)
  from list_settles [OF r l] r l show ?thesis by simp
qed

end
