(* ===== verification/Routing.thy ===== *)
theory Routing
  imports Catalog BookDetails Server AIPrompt
begin

text \<open>
  Navigation: the route table of \<^verbatim>\<open>src/frontend/src/App.jsx\<close> and the links of
  \<^verbatim>\<open>src/frontend/src/components/Navbar.jsx\<close>. \<open>app_route\<close> gives the page React Router
  renders for a location's path name: the five routes of the table and the catch-all
  \<^verbatim>\<open>*\<close>, which redirects to \<^verbatim>\<open>/\<close>. As React Router matches them, a path may end with any
  number of slashes and the static segments are compared without regard to ASCII case;
  the \<^verbatim>\<open>:id\<close> parameter is one non-empty segment, passed on as written.
  \<open>Navbar_view\<close> gives each link with its \<^verbatim>\<open>active\<close> class for the current path name,
  which \<^verbatim>\<open>active\<close> compares with the link's path exactly.
\<close>

section \<open>Routes\<close>

datatype route = RHome | RBookList | RBookDetails string | RMyBookings | RLogin | RRedirectHome

fun strip_trailing_slashes :: "string \<Rightarrow> string" where
  "strip_trailing_slashes s =
     (if s \<noteq> [] \<and> last s = CHR ''/'' then strip_trailing_slashes (butlast s) else s)"

declare strip_trailing_slashes.simps [simp del]

definition ascii_lower :: "char \<Rightarrow> char" where
  "ascii_lower c = (let k = of_char c :: nat in if 65 \<le> k \<and> k \<le> 90 then char_of (k + 32) else c)"

definition same_segment :: "string \<Rightarrow> string \<Rightarrow> bool" where
  "same_segment a b = (map ascii_lower a = map ascii_lower b)"

definition app_route :: "string \<Rightarrow> route" where
  "app_route path =
     (let p = strip_trailing_slashes path in
      if p = [] then RHome
      else if same_segment p ''/books'' then RBookList
      else if same_segment p ''/bookings'' then RMyBookings
      else if same_segment p ''/login'' then RLogin
      else if length p > 7 \<and> same_segment (take 7 p) ''/books/'' \<and> CHR ''/'' \<notin> set (drop 7 p)
      then RBookDetails (drop 7 p)
      else RRedirectHome)"

section \<open>The navigation bar\<close>

definition nav_links :: "(string \<times> string) list" where
  "nav_links = [(''/'', ''Home''), (''/books'', ''Books''), (''/bookings'', ''My Bookings''), (''/login'', ''Login'')]"

definition nav_active :: "string \<Rightarrow> string \<Rightarrow> string" where
  "nav_active pathname path = (if pathname = path then ''active'' else [])"

definition Navbar_view :: "string \<Rightarrow> (string \<times> string \<times> string) list" where
  "Navbar_view pathname =
     map (\<lambda>(path, label). (label, path, ''nav-link '' @ nav_active pathname path)) nav_links"

text \<open>The links whose class carries \<^verbatim>\<open>active\<close> on a path name.\<close>

definition active_links :: "string \<Rightarrow> string list" where
  "active_links pathname = [label. (label, path, cls) \<leftarrow> Navbar_view pathname, cls = ''nav-link active'']"

section \<open>The application shell\<close>

text \<open>
  \<^verbatim>\<open>Home.jsx\<close>: a heading, a paragraph and the AI prompt box. \<^verbatim>\<open>App.jsx\<close>: the navigation
  bar above the routed page; the catch-all route's \<^verbatim>\<open><Navigate to="/" replace />\<close> replaces
  the location by \<^verbatim>\<open>/\<close>, so the bar and the page are rendered for the new location.
\<close>

datatype home_view = HomeView string string ai_view

definition Home_view :: "ai_box \<Rightarrow> home_view" where
  "Home_view b =
     HomeView ''Welcome to the AI-Powered Online Library''
       ''Browse books, make bookings, and use AI to summarize and recommend titles.''
       (AIPromptBox_view b)"

definition app_location :: "string \<Rightarrow> string" where
  "app_location path = (if app_route path = RRedirectHome then ''/'' else path)"

datatype app_view = AppView "(string \<times> string \<times> string) list" route

definition App_view :: "string \<Rightarrow> app_view" where
  "App_view path = (let p = app_location path in AppView (Navbar_view p) (app_route p))"

section \<open>Lemmas\<close>

lemma strip_trailing_slashes_no_slash [simp]:
  "s \<noteq> [] \<Longrightarrow> last s \<noteq> CHR ''/'' \<Longrightarrow> strip_trailing_slashes s = s"
  by (simp add: strip_trailing_slashes.simps)

lemma last_js_String: "last (js_String i) \<noteq> CHR ''/''"
proof
  assume "last (js_String i) = CHR ''/''"
  moreover have "last (js_String i) \<in> set (js_String i)" by (rule last_in_set) (simp add: js_String_def)
  ultimately show False using slash_notin_js_String [of i] by simp
qed

lemma route_books_segment:
  assumes "x \<noteq> []" and "last x \<noteq> CHR ''/''" and "CHR ''/'' \<notin> set x"
  shows "app_route (''/books/'' @ x) = RBookDetails x"
proof -
  have t: "strip_trailing_slashes (''/books/'' @ x) = ''/books/'' @ x" using assms(1,2) by simp
  have "take 7 (''/books/'' @ x) = ''/books/''" "drop 7 (''/books/'' @ x) = x" by simp_all
  with t assms show ?thesis by (simp add: app_route_def same_segment_def ascii_lower_def)
qed

text \<open>A path no route matches settles on the home page, with the Home link active.\<close>

lemma App_view_redirect:
  assumes "app_route path = RRedirectHome"
  shows "App_view path = AppView (Navbar_view ''/'') RHome \<and> active_links ''/'' = [''Home'']"
proof -
  have "app_route ''/'' = RHome \<and> active_links ''/'' = [''Home'']" by code_simp
  with assms show ?thesis by (simp add: App_view_def app_location_def)
qed

section \<open>Properties of navigation\<close>

text \<open>
  C28. A card's Details link leads to the book it shows: the link's path routes to the
  details page with the card's book id as \<^verbatim>\<open>:id\<close>, the page's mount requests
  \<^verbatim>\<open>getBook\<close> of that id, and the server, which reads the segment back as an integer,
  answers with the card's book.
\<close>

theorem card_details_roundtrip:
  assumes "srv_books s (book_id b) = Some b"
  shows "app_route (card_link (BookCard_view b)) = RBookDetails (js_String (book_id b)) \<and>
         pg_pending (page_init ls (js_String (book_id b))) = [(TLoad, getBook (js_String (book_id b)))] \<and>
         srv_handle gen (getBook (js_String (book_id b))) s = (s, SBook (Success b))"
proof -
  have "app_route (''/books/'' @ js_String (book_id b)) = RBookDetails (js_String (book_id b))"
    using js_String_not_Nil last_js_String slash_notin_js_String by (rule route_books_segment)
  with assms show ?thesis
    by (simp add: BookCard_view_def page_init_def load_def srv_get_book_def)
qed

theorem card_details_roundtrip_witness:
  "srv_books ex_server (book_id ex_book) = Some ex_book \<and>
   app_route (card_link (BookCard_view ex_book)) = RBookDetails ''12'' \<and>
   srv_handle ex_gen (getBook ''12'') ex_server = (ex_server, SBook (Success ex_book))"
proof -
  have h: "srv_books ex_server (book_id ex_book) = Some ex_book" by (simp add: ex_server_def ex_book_def)
  have i: "js_String (book_id ex_book) = ''12''" by (simp add: ex_book_def) code_simp
  from card_details_roundtrip [OF h, of Map.empty ex_gen] h show ?thesis by (simp only: i)
qed

text \<open>
  Each link of the navigation bar leads to its page, and on that page it is the one
  link shown as active.
\<close>

theorem nav_links_route_and_active:
  "map (\<lambda>(path, label). (app_route path, active_links path)) nav_links =
     [(RHome, [''Home'']), (RBookList, [''Books'']), (RMyBookings, [''My Bookings'']), (RLogin, [''Login''])]"
  by code_simp

text \<open>
  C30. The bar's \<^verbatim>\<open>active\<close> test and the router disagree: the router shows the book list
  for \<^verbatim>\<open>/books/\<close> and a book's page for \<^verbatim>\<open>/books/<id>\<close>, but the exact comparison of
  \<^verbatim>\<open>active\<close> marks no link on either.
\<close>

theorem nav_active_misses_subpaths:
  "app_route ''/books/'' = RBookList \<and> active_links ''/books/'' = [] \<and>
   app_route (''/books/'' @ js_String k) = RBookDetails (js_String k) \<and>
   active_links (''/books/'' @ js_String k) = []"
proof -
  have r: "app_route (''/books/'' @ js_String k) = RBookDetails (js_String k)"
    using js_String_not_Nil last_js_String slash_notin_js_String by (rule route_books_segment)
  have a: "active_links (''/books/'' @ js_String k) = []"
    by (simp add: active_links_def Navbar_view_def nav_links_def nav_active_def)
  have "app_route ''/books/'' = RBookList \<and> active_links ''/books/'' = []" by code_simp
  with r a show ?thesis by blast
qed

end
