(* ===== verification/LoginPage.thy ===== *)
theory LoginPage
  imports Session
begin

text \<open>
  The login page (\<^verbatim>\<open>src/frontend/src/pages/Login.jsx\<close>) as an event machine over its
  lifetime in the application: the record \<open>login_page\<close> holds the Session Store, the
  state of the mounted page instance (\<open>None\<close> while the user is on another page), and
  the \<^verbatim>\<open>createUser\<close> calls in flight, each tagged with whether it was sent by the
  instance that is mounted now. The inputs are \<^verbatim>\<open>required\<close>, so the browser submits the
  form only with the three fields filled, and the button is \<^verbatim>\<open>disabled={loading}\<close>.
  When a response arrives, \<^verbatim>\<open>localStorage.setItem\<close> runs whatever became of the page;
  the state updates reach the page only if the instance that sent the call is still
  mounted (React drops updates of an unmounted component, and a remounted page is a new
  instance with fresh state).
\<close>

record login_page =
  lgp_ls :: storage
  lgp_l :: "login option"
  lgp_pending :: "(bool \<times> request) list"

datatype login_event =
    LgName string | LgEmail string | LgPassword string
  | LgSubmit | LgLogout | LgRespond nat "user api_result" | LgLeave | LgEnter

text \<open>The form is rendered when no user is stored; \<^verbatim>\<open>required\<close> on its three inputs.\<close>

definition form_shown :: "storage \<Rightarrow> bool" where
  "form_shown ls = (stored_user ls = None)"

definition fields_filled :: "login \<Rightarrow> bool" where
  "fields_filled l = (lg_name l \<noteq> [] \<and> lg_email l \<noteq> [] \<and> lg_password l \<noteq> [])"

definition signup_enabled :: "login \<Rightarrow> bool" where
  "signup_enabled l = (\<not> lg_loading l)"

fun login_step :: "login_page \<Rightarrow> login_event \<Rightarrow> login_page" where
  "login_step p (LgName v) =
     (case lgp_l p of Some l \<Rightarrow> if form_shown (lgp_ls p) then p\<lparr>lgp_l := Some (l\<lparr>lg_name := v\<rparr>)\<rparr> else p
      | None \<Rightarrow> p)"
| "login_step p (LgEmail v) =
     (case lgp_l p of Some l \<Rightarrow> if form_shown (lgp_ls p) then p\<lparr>lgp_l := Some (l\<lparr>lg_email := v\<rparr>)\<rparr> else p
      | None \<Rightarrow> p)"
| "login_step p (LgPassword v) =
     (case lgp_l p of Some l \<Rightarrow> if form_shown (lgp_ls p) then p\<lparr>lgp_l := Some (l\<lparr>lg_password := v\<rparr>)\<rparr> else p
      | None \<Rightarrow> p)"
| "login_step p LgSubmit =
     (case lgp_l p of
        Some l \<Rightarrow>
          if form_shown (lgp_ls p) \<and> signup_enabled l \<and> fields_filled l
          then (let (l', q) = Login_handleSubmit l in
                p\<lparr>lgp_l := Some l', lgp_pending := lgp_pending p @ [(True, q)]\<rparr>)
          else p
      | None \<Rightarrow> p)"
| "login_step p LgLogout =
     (case lgp_l p of
        Some l \<Rightarrow>
          if \<not> form_shown (lgp_ls p)
          then (let (ls', l') = Login_handleLogout (lgp_ls p) l in p\<lparr>lgp_ls := ls', lgp_l := Some l'\<rparr>)
          else p
      | None \<Rightarrow> p)"
| "login_step p (LgRespond i r) =
     (if i < length (lgp_pending p)
      then (let own = fst (lgp_pending p ! i);
                (ls', l') = Login_handleSubmit_done (lgp_ls p) (case lgp_l p of Some l \<Rightarrow> l | None \<Rightarrow> Login_init) r in
            p\<lparr>lgp_ls := ls', lgp_l := (if own then map_option (\<lambda>_. l') (lgp_l p) else lgp_l p),
              lgp_pending := remove_nth i (lgp_pending p)\<rparr>)
      else p)"
| "login_step p LgLeave = p\<lparr>lgp_l := None, lgp_pending := map (\<lambda>(_, q). (False, q)) (lgp_pending p)\<rparr>"
| "login_step p LgEnter =
     (case lgp_l p of None \<Rightarrow> p\<lparr>lgp_l := Some Login_init\<rparr> | Some _ \<Rightarrow> p)"

definition login_init :: "storage \<Rightarrow> login_page" where
  "login_init ls = \<lparr>lgp_ls = ls, lgp_l = Some Login_init, lgp_pending = []\<rparr>"

fun login_run :: "login_page \<Rightarrow> login_event list \<Rightarrow> login_page" where
  "login_run p [] = p"
| "login_run p (e # es) = login_run (login_step p e) es"

inductive login_reach :: "storage \<Rightarrow> login_page \<Rightarrow> bool" for ls where
  init: "login_reach ls (login_init ls)"
| step: "login_reach ls p \<Longrightarrow> login_reach ls (login_step p e)"

text \<open>The in-flight calls of the mounted instance.\<close>

definition own_pending :: "login_page \<Rightarrow> nat" where
  "own_pending p = length (filter fst (lgp_pending p))"

definition login_inv :: "login_page \<Rightarrow> bool" where
  "login_inv p =
     (own_pending p \<le> 1 \<and>
      (case lgp_l p of Some l \<Rightarrow> lg_loading l = (own_pending p = 1) | None \<Rightarrow> own_pending p = 0))"

text \<open>Example: Ada fills in the form, submits, and leaves the page before the answer.\<close>

definition ex_login_left :: login_page where
  "ex_login_left = login_run (login_init Map.empty)
     [LgName ''Ada'', LgEmail ''ada@example.org'', LgPassword ''secret'', LgSubmit, LgLeave]"

section \<open>Lemmas\<close>

lemma own_pending_remove_nth:
  "i < length (lgp_pending p) \<Longrightarrow>
   length (filter fst (remove_nth i (lgp_pending p))) + (if fst (lgp_pending p ! i) then 1 else 0) = own_pending p"
  unfolding own_pending_def by (rule length_filter_remove_nth)

lemma Login_handleSubmit_done_loading [simp]: "\<not> lg_loading (snd (Login_handleSubmit_done ls l r))"
  by (simp add: Login_handleSubmit_done_def split: api_result.split)

lemma Login_handleSubmit_done_storage:
  "fst (Login_handleSubmit_done ls l (Success u)) = ls(''user'' \<mapsto> u)"
  by (simp add: Login_handleSubmit_done_def)

lemma login_inv_frame:
  assumes "lgp_pending q = lgp_pending p" and "map_option lg_loading (lgp_l q) = map_option lg_loading (lgp_l p)"
  shows "login_inv q = login_inv p"
  using assms by (cases "lgp_l p"; cases "lgp_l q") (simp_all add: login_inv_def own_pending_def)

lemma login_step_frame:
  assumes "e \<in> {LgName v, LgEmail v, LgPassword v, LgLogout}"
  shows "lgp_pending (login_step p e) = lgp_pending p \<and>
         map_option lg_loading (lgp_l (login_step p e)) = map_option lg_loading (lgp_l p)"
  using assms by (auto simp: Login_handleLogout_def split: option.split)

lemma login_inv_edit:
  "login_inv p \<Longrightarrow> e \<in> {LgName v, LgEmail v, LgPassword v, LgLogout} \<Longrightarrow> login_inv (login_step p e)"
  using login_inv_frame [of "login_step p e" p] login_step_frame [of e v p] by blast

lemma snd_untag [simp]: "snd ` (\<lambda>(_, q). (False, q)) ` A = snd ` A"
  by (simp add: image_image split_def)

text \<open>A step sends no request but from a filled form of the mounted page.\<close>

lemma login_step_requests:
  "snd ` set (lgp_pending (login_step p e)) \<subseteq>
     snd ` set (lgp_pending p) \<union> {snd (Login_handleSubmit l) | l. lgp_l p = Some l \<and> fields_filled l}"
proof (cases e)
  case LgSubmit
  then show ?thesis by (auto simp: Let_def split_def split: option.split)
next
  case (LgRespond i r)
  then show ?thesis by (auto simp: Let_def split_def dest: in_remove_nth)
next
  case LgLeave
  then show ?thesis by simp
qed (simp_all add: Login_handleLogout_def split_def split: option.split)

lemma login_inv_respond:
  assumes "login_inv p" and "i < length (lgp_pending p)"
  shows "login_inv (login_step p (LgRespond i r))"
proof -
  note c = own_pending_remove_nth [OF assms(2)]
  show ?thesis
  proof (cases "fst (lgp_pending p ! i)")
    case True
    with assms c show ?thesis
      by (auto simp: login_inv_def own_pending_def Let_def split_def split: option.splits)
  next
    case False
    with assms c show ?thesis
      by (auto simp: login_inv_def own_pending_def Let_def split_def split: option.splits)
  qed
qed

lemma login_inv_step:
  assumes "login_inv p"
  shows "login_inv (login_step p e)"
proof (cases e)
  case (LgRespond i r)
  show ?thesis
  proof (cases "i < length (lgp_pending p)")
    case True
    with assms LgRespond show ?thesis by (simp add: login_inv_respond del: login_step.simps)
  qed (use assms LgRespond in simp)
next
  case LgSubmit
  with assms show ?thesis
    by (auto simp: login_inv_def own_pending_def signup_enabled_def Login_handleSubmit_def le_Suc_eq
        split: option.splits)
next
  case LgLeave
  have "filter fst (map (\<lambda>(_, q). (False, q)) xs) = []" for xs :: "(bool \<times> request) list"
    by (induction xs) auto
  with LgLeave show ?thesis by (simp add: login_inv_def own_pending_def)
next
  case LgEnter
  with assms show ?thesis by (auto simp: login_inv_def own_pending_def Login_init_def split: option.splits)
next
  case (LgName v)
  with assms show ?thesis by (intro login_inv_edit) auto
next
  case (LgEmail v)
  with assms show ?thesis by (intro login_inv_edit) auto
next
  case (LgPassword v)
  with assms show ?thesis by (intro login_inv_edit [where v = v]) auto
next
  case LgLogout
  with assms show ?thesis by (intro login_inv_edit [where v = "[]"]) auto
qed

lemma login_reach_inv: "login_reach ls p \<Longrightarrow> login_inv p"
proof (induction rule: login_reach.induct)
  case init
  show ?case by (simp add: login_inv_def login_init_def own_pending_def Login_init_def)
next
  case (step p e)
  from step.IH show ?case by (rule login_inv_step)
qed

lemma login_reach_run: "login_reach ls p \<Longrightarrow> login_reach ls (login_run p es)"
  by (induction es arbitrary: p) (auto intro: login_reach.step)

lemma ex_login_left_eq:
  "ex_login_left = \<lparr>lgp_ls = Map.empty, lgp_l = None,
     lgp_pending = [(False, createUser (JObj [(''name'', JStr ''Ada''), (''email'', JStr ''ada@example.org''),
                                               (''password'', JStr ''secret'')]))]\<rparr>"
  by (simp add: ex_login_left_def login_init_def form_shown_def stored_user_def signup_enabled_def
      fields_filled_def Login_init_def Login_handleSubmit_def)

section \<open>Properties of the login page\<close>

text \<open>
  C32. While the login page is mounted it has at most one account creation of its own in
  flight, exactly while it shows \<^verbatim>\<open>Creating\<dots>\<close> with the button disabled; an unmounted
  page has none of its own.
\<close>

theorem login_single_flight:
  assumes "login_reach ls p"
  shows "own_pending p \<le> 1 \<and>
         (case lgp_l p of Some l \<Rightarrow> lg_loading l = (own_pending p = 1) | None \<Rightarrow> own_pending p = 0)"
  using login_reach_inv [OF assms] by (simp add: login_inv_def)

theorem login_single_flight_witness:
  "login_reach Map.empty ex_login_left \<and> own_pending ex_login_left = 0 \<and> lgp_l ex_login_left = None"
proof -
  have r: "login_reach Map.empty ex_login_left"
    unfolding ex_login_left_def by (rule login_reach_run, rule login_reach.init)
  from login_single_flight [OF r] r show ?thesis by (simp add: ex_login_left_eq own_pending_def)
qed

text \<open>
  C33. A late answer to an account creation is applied to the session even when the page
  that sent it has been left: the user becomes logged in although the page that would
  have said so is gone, contrary to the specification's rule that a late response to an
  unmounted view is ignored.
\<close>

theorem late_signup_logs_in:
  assumes "i < length (lgp_pending p)" and "\<not> fst (lgp_pending p ! i)"
  shows "stored_user (lgp_ls (login_step p (LgRespond i (Success u)))) = Some u \<and>
         lgp_l (login_step p (LgRespond i (Success u))) = lgp_l p"
  using assms by (simp add: stored_user_def Login_handleSubmit_done_storage Let_def split_def)

theorem late_signup_logs_in_witness:
  "0 < length (lgp_pending ex_login_left) \<and> \<not> fst (lgp_pending ex_login_left ! 0) \<and>
   stored_user (lgp_ls (login_step ex_login_left (LgRespond 0 (Success ex_user)))) = Some ex_user \<and>
   lgp_l (login_step ex_login_left (LgRespond 0 (Success ex_user))) = None"
proof -
  have h: "0 < length (lgp_pending ex_login_left)" "\<not> fst (lgp_pending ex_login_left ! 0)"
    by (simp_all add: ex_login_left_eq)
  from late_signup_logs_in [OF h, of ex_user] h show ?thesis by (simp add: ex_login_left_eq)
qed

text \<open>
  C34. Every account creation the login page sends carries a non-empty name, e-mail and
  password, as typed in the form: the browser's \<^verbatim>\<open>required\<close> check is the only
  validation before the call, and it holds for every request in flight, also for those
  of an instance that has been left.
\<close>

theorem signup_fields_required:
  assumes "login_reach ls p" and "(own, q) \<in> set (lgp_pending p)"
  shows "\<exists>n e pw. n \<noteq> [] \<and> e \<noteq> [] \<and> pw \<noteq> [] \<and>
           q = createUser (JObj [(''name'', JStr n), (''email'', JStr e), (''password'', JStr pw)])"
proof -
  let ?S = "{createUser (JObj [(''name'', JStr n), (''email'', JStr e), (''password'', JStr pw)]) | n e pw.
             n \<noteq> [] \<and> e \<noteq> [] \<and> pw \<noteq> []}"
  have sent: "{snd (Login_handleSubmit l) | l. lgp_l p = Some l \<and> fields_filled l} \<subseteq> ?S" for p
    by (auto simp: Login_handleSubmit_def fields_filled_def)
  from assms(1) have "snd ` set (lgp_pending p) \<subseteq> ?S"
  proof (induction rule: login_reach.induct)
    case init
    show ?case by (simp add: login_init_def)
  next
    case (step p e)
    with login_step_requests [of p e] sent [of p] show ?case by blast
  qed
  moreover have "q \<in> snd ` set (lgp_pending p)" using assms(2) by (rule rev_image_eqI) simp
  ultimately show ?thesis by blast
qed

theorem signup_fields_required_witness:
  "login_reach Map.empty ex_login_left \<and>
   (False, createUser (JObj [(''name'', JStr ''Ada''), (''email'', JStr ''ada@example.org''),
      (''password'', JStr ''secret'')])) \<in> set (lgp_pending ex_login_left) \<and>
   ''Ada'' \<noteq> []"
proof -
  have r: "login_reach Map.empty ex_login_left"
    unfolding ex_login_left_def by (rule login_reach_run, rule login_reach.init)
  have m: "(False, createUser (JObj [(''name'', JStr ''Ada''), (''email'', JStr ''ada@example.org''),
      (''password'', JStr ''secret'')])) \<in> set (lgp_pending ex_login_left)"
    by (simp add: ex_login_left_eq)
  from signup_fields_required [OF r m] r m show ?thesis by simp
qed

end
