(* ===== verification/Accounts.thy ===== *)
theory Accounts
  imports LoginPage Booking Server
begin

text \<open>
  Accounts across the client and the server: the Login page's \<^verbatim>\<open>createUser\<close> call answered
  by the server's \<^verbatim>\<open>POST /users/\<close>, and the booking form that reads the stored user next.
  \<open>login_sys\<close> is the Login page (\<open>LoginPage\<close>) together with the server: user events on the
  page (including leaving and re-entering it), the network delivering any in-flight
  \<^verbatim>\<open>createUser\<close> to the server and its answer back (\<open>LgDeliver\<close>), or delivering it and
  losing the answer (\<open>LgLose\<close>), and sign-ups of other clients (\<open>LgOther\<close>).
  \<open>session_ok\<close> says the user in \<^verbatim>\<open>localStorage\<close>, if any, is a user the server holds.
\<close>

record login_sys =
  lsy_page :: login_page
  lsy_srv :: server

datatype login_sys_event = LgUser login_event | LgDeliver nat | LgLose nat | LgOther json

text \<open>The server's answer as \<^verbatim>\<open>handleSubmit\<close> receives it; an unrouted request is a 404.\<close>

fun user_answer :: "srv_response \<Rightarrow> user api_result" where
  "user_answer (SUser r) = r"
| "user_answer _ = RequestError (Some ''Not Found'')"

fun login_sys_step :: "ai_model \<Rightarrow> login_sys \<Rightarrow> login_sys_event \<Rightarrow> login_sys" where
  "login_sys_step m s (LgUser (LgRespond i r)) = s"
| "login_sys_step m s (LgUser e) = s\<lparr>lsy_page := login_step (lsy_page s) e\<rparr>"
| "login_sys_step m s (LgDeliver i) =
     (if i < length (lgp_pending (lsy_page s))
      then (let (srv', r) = srv_handle m (snd (lgp_pending (lsy_page s) ! i)) (lsy_srv s) in
            \<lparr>lsy_page = login_step (lsy_page s) (LgRespond i (user_answer r)), lsy_srv = srv'\<rparr>)
      else s)"
| "login_sys_step m s (LgLose i) =
     (if i < length (lgp_pending (lsy_page s))
      then \<lparr>lsy_page = login_step (lsy_page s) (LgRespond i TransportError),
            lsy_srv = fst (srv_handle m (snd (lgp_pending (lsy_page s) ! i)) (lsy_srv s))\<rparr>
      else s)"
| "login_sys_step m s (LgOther j) = s\<lparr>lsy_srv := fst (srv_create_user j (lsy_srv s))\<rparr>"

fun login_sys_run :: "ai_model \<Rightarrow> login_sys \<Rightarrow> login_sys_event list \<Rightarrow> login_sys" where
  "login_sys_run m s [] = s"
| "login_sys_run m s (e # es) = login_sys_run m (login_sys_step m s e) es"

definition session_ok :: "storage \<Rightarrow> server \<Rightarrow> bool" where
  "session_ok ls srv = (\<forall>u. stored_user ls = Some u \<longrightarrow> srv_users srv (user_id u) = Some u)"

inductive login_sys_reach :: "ai_model \<Rightarrow> login_sys \<Rightarrow> bool" for m where
  init: "users_ok srv \<Longrightarrow> session_ok ls srv \<Longrightarrow> login_sys_reach m \<lparr>lsy_page = login_init ls, lsy_srv = srv\<rparr>"
| step: "login_sys_reach m s \<Longrightarrow> login_sys_reach m (login_sys_step m s e)"

definition ex_signup :: login where
  "ex_signup = Login_init\<lparr>lg_name := ''Ada'', lg_email := ''ada@example.org'', lg_password := ''secret''\<rparr>"

text \<open>Example: Ada signs up against \<open>ex_server\<close> and leaves the page before the answer.\<close>

definition ex_login_sys :: login_sys where
  "ex_login_sys = login_sys_run ex_gen \<lparr>lsy_page = login_init Map.empty, lsy_srv = ex_server\<rparr>
     [LgUser (LgName ''Ada''), LgUser (LgEmail ''ada@example.org''), LgUser (LgPassword ''secret''),
      LgUser LgSubmit, LgUser LgLeave]"

section \<open>Lemmas\<close>

lemma srv_handle_createUser [simp]:
  "srv_handle m (createUser j) s = (fst (srv_create_user j s), SUser (snd (srv_create_user j s)))"
  by (simp add: srv_handle_def createUser_def api_post_def split_def Let_def)

lemma srv_create_user_success:
  assumes "srv_create_user j s = (s', Success u)"
  shows "user_id u = srv_next_user s \<and> srv_users s' = (srv_users s)(user_id u \<mapsto> u) \<and>
         srv_next_user s' = srv_next_user s + 1"
  using assms by (auto simp: srv_create_user_def Let_def split: option.splits if_splits)

lemma users_ok_create_user:
  assumes "users_ok s" and "srv_create_user j s = (s', Success u)"
  shows "users_ok s'"
proof -
  note u = srv_create_user_success [OF assms(2)]
  have pos: "0 < srv_next_user s" using assms(1) by (simp add: users_ok_def)
  have old: "user_id usr = v \<and> 0 < v \<and> v < srv_next_user s" if "srv_users s v = Some usr" for v usr
    using assms(1) that by (simp add: users_ok_def)
  show ?thesis
    unfolding users_ok_def
  proof (rule conjI)
    show "0 < srv_next_user s'" using pos u by simp
  next
    show "\<forall>v usr. srv_users s' v = Some usr \<longrightarrow> user_id usr = v \<and> 0 < v \<and> v < srv_next_user s'"
    proof (intro allI impI)
      fix v usr
      assume h: "srv_users s' v = Some usr"
      show "user_id usr = v \<and> 0 < v \<and> v < srv_next_user s'"
      proof (cases "v = srv_next_user s")
        case True
        with h u pos show ?thesis by simp
      next
        case False
        with h u old [of v usr] show ?thesis by simp
      qed
    qed
  qed
qed

lemma srv_create_user_users:
  assumes "users_ok s"
  shows "users_ok (fst (srv_create_user j s)) \<and> srv_users s \<subseteq>\<^sub>m srv_users (fst (srv_create_user j s))"
proof (cases "snd (srv_create_user j s)")
  case (Success u)
  then have c: "srv_create_user j s = (fst (srv_create_user j s), Success u)" by (metis prod.collapse)
  note e = srv_create_user_success [OF c]
  have "srv_users s (srv_next_user s) = None"
    using assms by (cases "srv_users s (srv_next_user s)") (auto simp: users_ok_def)
  with e users_ok_create_user [OF assms c] show ?thesis by (auto simp: map_le_def)
next
  case (RequestError x)
  then have "fst (srv_create_user j s) = s"
    by (auto simp: srv_create_user_def Let_def split: option.splits if_splits)
  with assms show ?thesis by simp
next
  case TransportError
  then have "fst (srv_create_user j s) = s"
    by (auto simp: srv_create_user_def Let_def split: option.splits if_splits)
  with assms show ?thesis by simp
qed

lemma srv_create_booking_users [simp]:
  "srv_users (fst (srv_create_booking j s)) = srv_users s"
  "srv_next_user (fst (srv_create_booking j s)) = srv_next_user s"
  by (simp_all add: srv_create_booking_def Let_def split: option.split prod.split)

lemma srv_handle_users:
  assumes "users_ok s"
  shows "users_ok (fst (srv_handle m q s)) \<and> srv_users s \<subseteq>\<^sub>m srv_users (fst (srv_handle m q s))"
proof -
  have "users_ok (fst (srv_create_booking j s))" "users_ok (fst (srv_create_book j s))" for j
    using assms by (simp_all add: users_ok_def)
  with srv_create_user_users [OF assms] assms show ?thesis
    by (auto simp: srv_handle_def Let_def split_def split: http_method.split option.split)
qed

lemma srv_handle_user_success:
  assumes "snd (srv_handle m q s) = SUser (Success u)"
  shows "srv_users (fst (srv_handle m q s)) (user_id u) = Some u"
proof -
  have "\<exists>j. req_path q = ''/users/'' \<and> req_method q = POST \<and> req_body q = Some j"
    using assms by (auto simp: srv_handle_def Let_def split_def split: http_method.splits option.splits if_splits)
  then obtain j where j: "req_path q = ''/users/''" "req_method q = POST" "req_body q = Some j" by blast
  have "srv_create_user j s = (fst (srv_handle m q s), Success u)"
    using assms j by (simp add: srv_handle_def Let_def split_def) (metis prod.collapse)
  from srv_create_user_success [OF this] show ?thesis by simp
qed

lemma session_ok_mono: "session_ok ls srv \<Longrightarrow> srv_users srv \<subseteq>\<^sub>m srv_users srv' \<Longrightarrow> session_ok ls srv'"
  by (auto simp: session_ok_def map_le_def dom_def)

lemma login_step_session:
  "stored_user (lgp_ls (login_step p e)) = stored_user (lgp_ls p) \<or>
   stored_user (lgp_ls (login_step p e)) = None \<or>
   (\<exists>i u. e = LgRespond i (Success u) \<and> stored_user (lgp_ls (login_step p e)) = Some u)"
proof (cases e)
  case (LgRespond i r)
  then show ?thesis
    by (cases r) (auto simp: Let_def split_def Login_handleSubmit_done_def stored_user_def)
next
  case LgLogout
  then show ?thesis
    by (auto simp: Let_def split_def Login_handleLogout_def stored_user_def split: option.split)
qed (auto simp: Let_def split_def split: option.split)

lemma session_ok_update:
  assumes "session_ok ls srv" and "srv_users srv \<subseteq>\<^sub>m srv_users srv'"
    and "stored_user ls' = stored_user ls \<or> stored_user ls' = None \<or>
         (\<exists>u. stored_user ls' = Some u \<and> srv_users srv' (user_id u) = Some u)"
  shows "session_ok ls' srv'"
  using assms by (auto simp: session_ok_def map_le_def dom_def)

lemma login_sys_step_inv:
  assumes "users_ok (lsy_srv s)" and "session_ok (lgp_ls (lsy_page s)) (lsy_srv s)"
  shows "users_ok (lsy_srv (login_sys_step m s e)) \<and>
         session_ok (lgp_ls (lsy_page (login_sys_step m s e))) (lsy_srv (login_sys_step m s e))"
proof (cases e)
  case (LgUser e')
  show ?thesis
  proof (cases "\<exists>i r. e' = LgRespond i r")
    case True
    with LgUser assms show ?thesis by auto
  next
    case False
    then have s': "login_sys_step m s e = s\<lparr>lsy_page := login_step (lsy_page s) e'\<rparr>"
      using LgUser by (cases e') auto
    from login_step_session [of "lsy_page s" e'] False
    have "session_ok (lgp_ls (login_step (lsy_page s) e')) (lsy_srv s)"
      by (intro session_ok_update [OF assms(2)]) auto
    with assms(1) show ?thesis by (simp add: s' del: login_step.simps)
  qed
next
  case (LgDeliver i)
  show ?thesis
  proof (cases "i < length (lgp_pending (lsy_page s))")
    case True
    obtain srv' r where h: "srv_handle m (snd (lgp_pending (lsy_page s) ! i)) (lsy_srv s) = (srv', r)"
      by (metis prod.collapse)
    note u = srv_handle_users [OF assms(1), of m "snd (lgp_pending (lsy_page s) ! i)", unfolded h]
    have "srv_users srv' (user_id v) = Some v" if "user_answer r = Success v" for v
    proof -
      from that have "r = SUser (Success v)" by (cases r) simp_all
      with srv_handle_user_success [of m "snd (lgp_pending (lsy_page s) ! i)" "lsy_srv s" v] h show ?thesis by simp
    qed
    with login_step_session [of "lsy_page s" "LgRespond i (user_answer r)"] u
    have "session_ok (lgp_ls (login_step (lsy_page s) (LgRespond i (user_answer r)))) srv'"
      by (intro session_ok_update [OF assms(2)]) auto
    with u True h LgDeliver show ?thesis by (simp del: login_step.simps)
  qed (use LgDeliver assms in simp)
next
  case (LgLose i)
  show ?thesis
  proof (cases "i < length (lgp_pending (lsy_page s))")
    case True
    note u = srv_handle_users [OF assms(1), of m "snd (lgp_pending (lsy_page s) ! i)"]
    with login_step_session [of "lsy_page s" "LgRespond i TransportError"]
    have "session_ok (lgp_ls (login_step (lsy_page s) (LgRespond i TransportError)))
            (fst (srv_handle m (snd (lgp_pending (lsy_page s) ! i)) (lsy_srv s)))"
      by (intro session_ok_update [OF assms(2)]) auto
    with u True LgLose show ?thesis by (simp del: login_step.simps)
  qed (use LgLose assms in simp)
next
  case (LgOther j)
  with srv_create_user_users [OF assms(1), of j] assms(2) show ?thesis
    by (auto intro: session_ok_update)
qed

lemma login_sys_reach_inv:
  "login_sys_reach m s \<Longrightarrow> users_ok (lsy_srv s) \<and> session_ok (lgp_ls (lsy_page s)) (lsy_srv s)"
proof (induction rule: login_sys_reach.induct)
  case (init srv ls)
  then show ?case by (simp add: login_init_def)
next
  case (step s e)
  then show ?case using login_sys_step_inv by blast
qed

lemma login_sys_reach_run: "login_sys_reach m s \<Longrightarrow> login_sys_reach m (login_sys_run m s es)"
  by (induction es arbitrary: s) (simp_all add: login_sys_reach.step del: login_sys_step.simps)

lemma ex_login_sys_eq:
  "lgp_pending (lsy_page ex_login_sys) = [(False, snd (Login_handleSubmit ex_signup))] \<and>
   lgp_ls (lsy_page ex_login_sys) = Map.empty \<and> lsy_srv ex_login_sys = ex_server"
  by (simp add: ex_login_sys_def login_init_def ex_signup_def Login_init_def form_shown_def stored_user_def
      signup_enabled_def fields_filled_def Login_handleSubmit_def)

section \<open>Properties\<close>

text \<open>
  C8. The session names a user the server holds: in every reachable state of the Login
  page together with the server, whatever the interleaving of sign-ups, lost answers,
  logouts, leaving and re-entering the page and other clients' sign-ups, the user record
  that \<^verbatim>\<open>handleSubmit\<close> left in \<^verbatim>\<open>localStorage['user']\<close> is exactly the server's record of
  that user, so the id the booking pages read from it is an id the server knows.
\<close>

theorem session_names_server_user:
  assumes "login_sys_reach m s" and "stored_user (lgp_ls (lsy_page s)) = Some u"
  shows "srv_users (lsy_srv s) (user_id u) = Some u"
  using login_sys_reach_inv [OF assms(1)] assms(2) by (simp add: session_ok_def)

theorem session_names_server_user_witness:
  "login_sys_reach ex_gen (login_sys_step ex_gen ex_login_sys (LgDeliver 0)) \<and>
   stored_user (lgp_ls (lsy_page (login_sys_step ex_gen ex_login_sys (LgDeliver 0)))) =
     Some \<lparr>user_id = 6, user_name = ''Ada'', email = ''ada@example.org''\<rparr> \<and>
   srv_users (lsy_srv (login_sys_step ex_gen ex_login_sys (LgDeliver 0))) 6 =
     Some \<lparr>user_id = 6, user_name = ''Ada'', email = ''ada@example.org''\<rparr>"
proof -
  let ?s = "login_sys_step ex_gen ex_login_sys (LgDeliver 0)"
  let ?u = "\<lparr>user_id = 6, user_name = ''Ada'', email = ''ada@example.org''\<rparr>"
  have ok: "users_ok ex_server" "session_ok Map.empty ex_server"
    by (simp_all add: users_ok_def session_ok_def stored_user_def ex_server_def ex_user_def)
  have r: "login_sys_reach ex_gen ?s"
    unfolding ex_login_sys_def by (intro login_sys_reach.step login_sys_reach_run login_sys_reach.init ok)
  have "stored_user (lgp_ls (lsy_page ?s)) = Some ?u"
    using ex_login_sys_eq
    by (simp add: Let_def Login_handleSubmit_def Login_handleSubmit_done_def ex_signup_def Login_init_def
        srv_handle_def createUser_def api_post_def srv_create_user_def json_str_def json_get_def
        ex_server_def stored_user_def)
  with session_names_server_user [OF r] r show ?thesis by simp
qed

text \<open>
  C40. An account created through the Login page can book at once: when the server
  creates the user, its user table stays well formed and holds the new user under the
  returned id, and a booking form mounted afterwards starts with that id and sends a
  booking request for it, which is a user the server knows.
\<close>

theorem signup_then_booking_accepted:
  assumes "users_ok s"
    and "srv_handle m (snd (Login_handleSubmit l)) s = (s', SUser (Success u))"
    and "Login_handleSubmit_done ls (fst (Login_handleSubmit l)) (Success u) = (ls', l')"
  shows "users_ok s' \<and> srv_users s' (user_id u) = Some u \<and>
         handleSubmit bid (BookingForm_init ls') =
           ((BookingForm_init ls')\<lparr>bf_loading := True\<rparr>,
            Some (createBooking (booking_payload (FNum (user_id u)) bid)))"
proof -
  have c: "srv_create_user (JObj [(''name'', JStr (lg_name l)), (''email'', JStr (lg_email l)),
             (''password'', JStr (lg_password l))]) s = (s', Success u)"
    using assms(2) by (simp add: Login_handleSubmit_def) (metis prod.collapse)
  note u = srv_create_user_success [OF c]
  have ok: "users_ok s'" by (rule users_ok_create_user [OF assms(1) c])
  have "0 < user_id u" using assms(1) u by (simp add: users_ok_def)
  moreover have "ls' = ls(''user'' \<mapsto> u)" using assms(3) by (simp add: Login_handleSubmit_done_def)
  ultimately show ?thesis using ok u
    by (simp add: BookingForm_init_def handleSubmit_def stored_user_id_def stored_user_def)
qed

theorem signup_then_booking_accepted_witness:
  "users_ok ex_server \<and>
   handleSubmit ''12'' (BookingForm_init [''user'' \<mapsto> \<lparr>user_id = 6, user_name = ''Ada'', email = ''ada@example.org''\<rparr>]) =
     ((BookingForm_init [''user'' \<mapsto> \<lparr>user_id = 6, user_name = ''Ada'', email = ''ada@example.org''\<rparr>])\<lparr>bf_loading := True\<rparr>,
      Some (createBooking (booking_payload (FNum 6) ''12'')))"
proof -
  let ?u = "\<lparr>user_id = 6, user_name = ''Ada'', email = ''ada@example.org''\<rparr>"
  let ?X = "srv_handle ex_gen (snd (Login_handleSubmit ex_signup)) ex_server"
  let ?Y = "Login_handleSubmit_done Map.empty (fst (Login_handleSubmit ex_signup)) (Success ?u)"
  have ok: "users_ok ex_server" by (simp add: users_ok_def ex_server_def ex_user_def)
  have "snd ?X = SUser (Success ?u)"
    by (simp add: Login_handleSubmit_def ex_signup_def Login_init_def srv_create_user_def json_str_def
        json_get_def ex_server_def Let_def)
  then have x: "?X = (fst ?X, SUser (Success ?u))" by (metis prod.collapse)
  have y: "?Y = (fst ?Y, snd ?Y)" by simp
  have "fst ?Y = [''user'' \<mapsto> ?u]" by (simp add: Login_handleSubmit_done_def)
  with signup_then_booking_accepted [OF ok x y, of "''12''"] ok show ?thesis by simp
qed

end
