(* ===== verification/CatalogSystem.thy ===== *)
theory CatalogSystem
  imports Catalog Server
begin

text \<open>
  The book list (\<^verbatim>\<open>BookList.jsx\<close>) together with the server's catalog endpoints: the record
  \<open>list_sys\<close>. \<open>list_sys_step\<close> is a user event on the list (an edit or a click on Search), the
  network delivering any in-flight search to the server and its answer back
  (\<open>LDeliver\<close>), losing it (\<open>LLose\<close>, a transport error), or a request of another client
  reaching the server (\<open>LOther\<close>: a new book, a booking, a user).
\<close>

record list_sys =
  ls_page :: list_page
  ls_srv :: server

datatype list_sys_event = LUser list_event | LDeliver nat | LLose nat | LOther request

text \<open>The server's answer as \<^verbatim>\<open>load\<close> receives it; an unrouted request is a 404.\<close>

fun list_answer :: "srv_response \<Rightarrow> book list option api_result" where
  "list_answer (SBooks r) = r"
| "list_answer _ = RequestError (Some ''Not Found'')"

fun list_sys_step :: "ai_model \<Rightarrow> list_sys \<Rightarrow> list_sys_event \<Rightarrow> list_sys" where
  "list_sys_step m s (LUser (LRespond i r)) = s"
| "list_sys_step m s (LUser e) = s\<lparr>ls_page := list_step (ls_page s) e\<rparr>"
| "list_sys_step m s (LDeliver i) =
     (if i < length (lp_pending (ls_page s))
      then (let (srv', r) = srv_handle m (lp_pending (ls_page s) ! i) (ls_srv s) in
            \<lparr>ls_page = list_step (ls_page s) (LRespond i (list_answer r)), ls_srv = srv'\<rparr>)
      else s)"
| "list_sys_step m s (LLose i) = s\<lparr>ls_page := list_step (ls_page s) (LRespond i TransportError)\<rparr>"
| "list_sys_step m s (LOther q) = s\<lparr>ls_srv := fst (srv_handle m q (ls_srv s))\<rparr>"

fun list_sys_run :: "ai_model \<Rightarrow> list_sys \<Rightarrow> list_sys_event list \<Rightarrow> list_sys" where
  "list_sys_run m s [] = s"
| "list_sys_run m s (e # es) = list_sys_run m (list_sys_step m s e) es"

inductive list_sys_reach :: "ai_model \<Rightarrow> list_sys \<Rightarrow> bool" for m where
  init: "srv_inv srv \<Longrightarrow> catalog_ok srv \<Longrightarrow> list_sys_reach m \<lparr>ls_page = list_init, ls_srv = srv\<rparr>"
| step: "list_sys_reach m s \<Longrightarrow> list_sys_reach m (list_sys_step m s e)"

text \<open>
  The invariant of the composition: the server keeps its inventory invariant and its
  catalog, every book the list shows has \<open>0 \<le> available_copies \<le> total_copies\<close>, and every
  in-flight request is a \<^verbatim>\<open>getBooks\<close> whose query is absent or non-empty.
\<close>

definition list_sys_inv :: "list_sys \<Rightarrow> bool" where
  "list_sys_inv s = (srv_inv (ls_srv s) \<and> catalog_ok (ls_srv s) \<and>
     (\<forall>b \<in> set (bl_books (lp_l (ls_page s))). book_ok b) \<and>
     (\<forall>q \<in> set (lp_pending (ls_page s)). \<exists>x. q = getBooks x \<and> x \<noteq> Some []))"

text \<open>Example: the list mounted against \<open>ex_server\<close>, with a search for \<^verbatim>\<open>Hound\<close> sent as well.\<close>

definition ex_list_sys :: list_sys where
  "ex_list_sys = list_sys_run ex_gen \<lparr>ls_page = list_init, ls_srv = ex_server\<rparr>
     [LUser (LSetQ ''Hound''), LUser LSearch]"

section \<open>Lemmas\<close>

lemma srv_handle_getBooks [simp]:
  "x \<noteq> Some [] \<Longrightarrow> srv_handle m (getBooks x) s = (s, SBooks (srv_list_books x s))"
  by (cases x) (simp_all add: srv_handle_def getBooks_def api_get_def)

lemma srv_list_books_ok:
  assumes "srv_inv s" and "srv_list_books x s = Success (Some xs)" and "b \<in> set xs"
  shows "book_ok b"
  using assms by (auto simp: srv_list_books_def List.map_filter_def srv_inv_def)

lemma search_query_nonempty [simp]: "search_query q \<noteq> Some []"
  by (simp add: search_query_def)

lemma list_sys_deliver:
  assumes "list_sys_inv s" and "i < length (lp_pending (ls_page s))"
  obtains x where "lp_pending (ls_page s) ! i = getBooks x" and "x \<noteq> Some []"
    and "list_sys_step m s (LDeliver i) =
           \<lparr>ls_page = list_step (ls_page s) (LRespond i (srv_list_books x (ls_srv s))), ls_srv = ls_srv s\<rparr>"
proof -
  have "lp_pending (ls_page s) ! i \<in> set (lp_pending (ls_page s))" using assms(2) by (rule nth_mem)
  with assms(1) obtain x where x: "lp_pending (ls_page s) ! i = getBooks x" "x \<noteq> Some []"
    by (auto simp: list_sys_inv_def)
  with assms(2) show thesis
    by (intro that [OF x]) (simp add: Let_def del: list_step.simps list_step_respond)
qed

lemma BookList_load_done_fail_books [simp]: "bl_books (BookList_load_done l TransportError) = bl_books l"
  by (simp add: BookList_load_done_def)

lemma list_sys_inv_step:
  assumes "list_sys_inv s"
  shows "list_sys_inv (list_sys_step m s e)"
proof (cases e)
  case (LUser e')
  with assms show ?thesis
    by (cases e') (auto simp: list_sys_inv_def BookList_setQ_def BookList_load_def Let_def)
next
  case (LDeliver i)
  show ?thesis
  proof (cases "i < length (lp_pending (ls_page s))")
    case True
    with assms obtain x where "list_sys_step m s (LDeliver i) =
           \<lparr>ls_page = list_step (ls_page s) (LRespond i (srv_list_books x (ls_srv s))), ls_srv = ls_srv s\<rparr>"
      by (rule list_sys_deliver)
    with True assms LDeliver show ?thesis
      by (auto simp: list_sys_inv_def srv_list_books_def List.map_filter_def srv_inv_def dest: in_remove_nth)
  next
    case False
    with assms LDeliver show ?thesis by simp
  qed
next
  case (LLose i)
  with assms show ?thesis by (auto simp: list_sys_inv_def dest: in_remove_nth)
next
  case (LOther q)
  with assms show ?thesis by (simp add: list_sys_inv_def srv_handle_inv srv_handle_catalog)
qed

lemma list_sys_reach_run: "list_sys_reach m s \<Longrightarrow> list_sys_reach m (list_sys_run m s es)"
  by (induction es arbitrary: s) (simp_all add: list_sys_reach.step del: list_sys_step.simps)

lemma list_sys_reach_inv: "list_sys_reach m s \<Longrightarrow> list_sys_inv s"
proof (induction rule: list_sys_reach.induct)
  case (init srv)
  have "\<exists>x. getBooks None = getBooks x \<and> x \<noteq> Some []" by blast
  with init show ?case by (simp add: list_sys_inv_def list_init_def BookList_init_def BookList_load_def)
next
  case (step s e)
  from step.IH show ?case by (rule list_sys_inv_step)
qed

section \<open>Properties of the catalog with the server\<close>

text \<open>
  C10. The specification's inventory bound holds for the catalog too: in every reachable
  state of the book list together with the server, in any interleaving of searches,
  lost answers and other clients' bookings and new books, every book the list shows has
  \<open>0 \<le> available_copies \<le> total_copies\<close>, so no card reads \<^verbatim>\<open>Available: a/t\<close> with
  \<open>a < 0\<close> or \<open>a > t\<close>.
\<close>

theorem list_books_bounded:
  assumes "list_sys_reach m s"
  shows "\<forall>b \<in> set (bl_books (lp_l (ls_page s))). 0 \<le> available_copies b \<and> available_copies b \<le> total_copies b"
  using list_sys_reach_inv [OF assms] by (simp add: list_sys_inv_def book_ok_def)

theorem list_books_bounded_witness:
  "list_sys_reach ex_gen (list_sys_step ex_gen ex_list_sys (LDeliver 0)) \<and>
   bl_books (lp_l (ls_page (list_sys_step ex_gen ex_list_sys (LDeliver 0)))) = [ex_book] \<and>
   0 \<le> available_copies ex_book \<and> available_copies ex_book \<le> total_copies ex_book"
proof -
  have i: "srv_inv ex_server" "catalog_ok ex_server"
    by (simp_all add: srv_inv_def catalog_ok_def ex_server_def book_ok_def ex_book_def)
  have r: "list_sys_reach ex_gen (list_sys_step ex_gen ex_list_sys (LDeliver 0))"
    unfolding ex_list_sys_def
    by (intro list_sys_reach.step list_sys_reach_run list_sys_reach.init i)
  have b: "bl_books (lp_l (ls_page (list_sys_step ex_gen ex_list_sys (LDeliver 0)))) = [ex_book]"
    by (simp add: ex_list_sys_def list_init_def BookList_load_def BookList_init_def BookList_setQ_def
        srv_list_books_def ex_server_def)
  from list_books_bounded [OF r] r b show ?thesis by simp
qed

text \<open>
  C29. A delivered search shows exactly the server's answer: in every reachable state, the
  response to any in-flight request, whichever arrives, is the answer of \<^verbatim>\<open>GET /books/\<close> to
  that request's query (absent or non-empty), leaves the server unchanged, and replaces
  the shown list by the server's books in catalog order that match the query, with the
  loading line gone.
\<close>

theorem search_shows_server_listing:
  assumes "list_sys_reach m s" and "i < length (lp_pending (ls_page s))"
  shows "\<exists>x. lp_pending (ls_page s) ! i = getBooks x \<and>
           ls_srv (list_sys_step m s (LDeliver i)) = ls_srv s \<and>
           bl_books (lp_l (ls_page (list_sys_step m s (LDeliver i)))) =
             filter (\<lambda>b. case x of None \<Rightarrow> True | Some t \<Rightarrow> srv_match (ls_srv s) t b)
               (List.map_filter (srv_books (ls_srv s)) (srv_catalog (ls_srv s))) \<and>
           \<not> bl_loading (lp_l (ls_page (list_sys_step m s (LDeliver i))))"
proof -
  obtain x where x: "lp_pending (ls_page s) ! i = getBooks x"
    and d: "list_sys_step m s (LDeliver i) =
           \<lparr>ls_page = list_step (ls_page s) (LRespond i (srv_list_books x (ls_srv s))), ls_srv = ls_srv s\<rparr>"
    using list_sys_reach_inv [OF assms(1)] assms(2) by (rule list_sys_deliver)
  from assms(2) have "bl_books (lp_l (ls_page (list_sys_step m s (LDeliver i)))) =
             filter (\<lambda>b. case x of None \<Rightarrow> True | Some t \<Rightarrow> srv_match (ls_srv s) t b)
               (List.map_filter (srv_books (ls_srv s)) (srv_catalog (ls_srv s)))"
    by (simp only: d) (simp add: srv_list_books_def)
  moreover have "\<not> bl_loading (lp_l (ls_page (list_sys_step m s (LDeliver i))))"
    using assms(2) by (simp only: d) simp
  ultimately show ?thesis using x d by auto
qed

theorem search_shows_server_listing_witness:
  "list_sys_reach ex_gen ex_list_sys \<and> 1 < length (lp_pending (ls_page ex_list_sys)) \<and>
   lp_pending (ls_page ex_list_sys) ! 1 = getBooks (Some ''Hound'') \<and>
   bl_books (lp_l (ls_page (list_sys_step ex_gen ex_list_sys (LDeliver 1)))) = [ex_book]"
proof -
  have i: "srv_inv ex_server" "catalog_ok ex_server"
    by (simp_all add: srv_inv_def catalog_ok_def ex_server_def book_ok_def ex_book_def)
  have r: "list_sys_reach ex_gen ex_list_sys"
    unfolding ex_list_sys_def by (intro list_sys_reach_run list_sys_reach.init i)
  have p: "lp_pending (ls_page ex_list_sys) = [getBooks None, getBooks (Some ''Hound'')]"
    by (simp add: ex_list_sys_def list_init_def BookList_load_def BookList_init_def BookList_setQ_def
        search_query_def)
  have s: "ls_srv ex_list_sys = ex_server" by (simp add: ex_list_sys_def)
  have m: "srv_match ex_server ''Hound'' ex_book"
    by (simp add: ex_server_def ex_book_def) code_simp
  have l: "List.map_filter (srv_books ex_server) (srv_catalog ex_server) = [ex_book]"
    by (simp add: ex_server_def)
  have len: "1 < length (lp_pending (ls_page ex_list_sys))" using p by simp
  from search_shows_server_listing [OF r len] obtain x where
    x0: "lp_pending (ls_page ex_list_sys) ! 1 = getBooks x" and
    b: "bl_books (lp_l (ls_page (list_sys_step ex_gen ex_list_sys (LDeliver 1)))) =
          filter (\<lambda>b. case x of None \<Rightarrow> True | Some t \<Rightarrow> srv_match (ls_srv ex_list_sys) t b)
            (List.map_filter (srv_books (ls_srv ex_list_sys)) (srv_catalog (ls_srv ex_list_sys)))"
    by blast
  from x0 p have x: "getBooks (Some ''Hound'') = getBooks x" by simp
  from x have "x = Some ''Hound''" by (cases x) (simp_all add: getBooks_def api_get_def split: if_splits)
  with b s l m have "bl_books (lp_l (ls_page (list_sys_step ex_gen ex_list_sys (LDeliver 1)))) = [ex_book]"
    by (simp del: list_sys_step.simps)
  with r p show ?thesis by simp
qed

end
