(* ===== verification/Spec2Isabelle.thy ===== *)
theory Spec2Isabelle
  imports Inventory AISystem MyBookingsSystem Routing Accounts CatalogSystem
begin

text \<open>
  \<^bold>\<open>A verification development of the online-library client.\<close>

  The repository is a React single-page client (\<^verbatim>\<open>src/frontend/src\<close>) for a library
  server that is not part of it. Its parts, leaves first, and how they interact:
  \<^item> the Gateway Client \<^verbatim>\<open>api/api.js\<close>: one axios call per server endpoint;
  \<^item> the Session Store: the user record kept in \<^verbatim>\<open>localStorage['user']\<close>, written and
    removed by \<^verbatim>\<open>pages/Login.jsx\<close> and read when \<^verbatim>\<open>BookingForm.jsx\<close> or
    \<^verbatim>\<open>MyBookings.jsx\<close> mount;
  \<^item> the Booking Workflow Controller \<^verbatim>\<open>components/BookingForm.jsx\<close>: validates the user id,
    sends \<^verbatim>\<open>createBooking\<close> and calls its \<^verbatim>\<open>onBooked\<close> callback on success;
  \<^item> the Book Detail Orchestrator \<^verbatim>\<open>pages/BookDetails.jsx\<close>: loads one book, asks for an AI
    summary of it, mounts the booking form and refetches the book when the form reports a
    booking;
  \<^item> the AI Augmentation Controller \<^verbatim>\<open>components/AIPromptBox.jsx\<close>: the recommend and
    summarize-text flows of the home page;
  \<^item> rendering-only parts: \<^verbatim>\<open>BookList.jsx\<close>, \<^verbatim>\<open>BookCard.jsx\<close>, \<^verbatim>\<open>MyBookings.jsx\<close>,
    \<^verbatim>\<open>Navbar.jsx\<close>, \<^verbatim>\<open>Home.jsx\<close>, \<^verbatim>\<open>App.jsx\<close> (routing).
  Components interact through props and callbacks (\<^verbatim>\<open>onBooked\<close>), through the shared
  \<^verbatim>\<open>localStorage\<close>, and through asynchronous HTTP requests whose responses arrive in any
  order.

  \<^bold>\<open>Theories.\<close>
  \<^item> \<open>Prelude\<close>: the JavaScript idioms every component uses: \<^verbatim>\<open>x || default\<close>
    (\<open>js_or\<close>), truthiness of form fields, \<^verbatim>\<open>Number(s)\<close> and \<^verbatim>\<open>`${n}`\<close> on integer
    ids (\<open>js_Number\<close>, \<open>js_String\<close>), JSON values, and \<open>remove_nth\<close> for the list of
    in-flight requests.
  \<^item> \<open>Gateway\<close> (\<^verbatim>\<open>api.js\<close>): the records \<open>user\<close>, \<open>book\<close>, \<open>booking\<close> of the server
    interface; \<open>request\<close> (method, path, parameters, body) and one definition per exported
    function (\<open>getBooks\<close> \<dots> \<open>getUserBookings\<close>); the outcome of a call,
    \<open>'a api_result\<close> = success, request error (a response with an optional
    \<^verbatim>\<open>{error}\<close> body) or transport error (no response); \<open>fail_message\<close>, the expression
    \<^verbatim>\<open>err.response?.data?.error || 'X failed'\<close> of every catch block.
  \<^item> \<open>Session\<close> (\<^verbatim>\<open>Login.jsx\<close>): \<open>storage\<close> for \<^verbatim>\<open>localStorage\<close>, \<open>stored_user_id\<close>
    for \<^verbatim>\<open>storedUser?.id || ''\<close>, the login page's state and its handlers.
  \<^item> \<open>Booking\<close> (\<^verbatim>\<open>BookingForm.jsx\<close>): the form state and \<^verbatim>\<open>handleSubmit\<close>.
  \<^item> \<open>BookDetails\<close> (\<^verbatim>\<open>BookDetails.jsx\<close>): the page state with its mounted child form,
    \<^verbatim>\<open>load\<close>, \<^verbatim>\<open>handleSummarize\<close>, the render decision, and the page as an event
    machine (\<open>page_step\<close>, \<open>page_reach\<close>) over clicks, edits and responses.
  \<^item> \<open>AIPrompt\<close> (\<^verbatim>\<open>AIPromptBox.jsx\<close>): the box's state, both flows, the render with its
    button guards, and the box as an event machine (\<open>ai_step\<close>, \<open>ai_reach\<close>) with the
    invariant \<open>ai_inv\<close> relating the in-flight requests to the loading flags.
  \<^item> \<open>Server\<close>: the library server, which is not in the repository, modelled from the
    specification's interface table for all nine endpoints of the Gateway Client
    (\<open>srv_handle\<close> routes a \<open>request\<close>: list or search books, get, create a book,
    summarize, recommend, create or list users, create a booking, a user's bookings),
    with the AI as a parameter (\<open>ai_model\<close>) and the search predicate as a field of the
    state (\<open>srv_match\<close>), since the specification defines neither; its invariants are
    \<open>srv_inv\<close> (\<open>0 \<le> available_copies \<le> total_copies\<close>, books stored under their id),
    \<open>users_ok\<close> (the user table) and \<open>catalog_ok\<close> (the listing order holds every
    book once, all ids below the next free one).
  \<^item> \<open>System\<close>: the book page and the server together (\<open>sys_step\<close>): user events, the
    network delivering any in-flight request and its answer, losing the answer, failing
    the request, and bookings of other clients; \<open>sys_reach\<close> from a mounted page and a
    server satisfying \<open>srv_inv\<close>.
  \<^item> \<open>Catalog\<close> (\<^verbatim>\<open>BookList.jsx\<close>, \<^verbatim>\<open>BookCard.jsx\<close>): the list's state and \<^verbatim>\<open>load\<close>, the
    search box and button, the rendering of the list and of a card, and the list page as
    an event machine (\<open>list_step\<close>, \<open>list_reach\<close>) whose searches are answered in any
    order.
  \<^item> \<open>MyBookings\<close> (\<^verbatim>\<open>MyBookings.jsx\<close>): the bookings page, its guarded \<^verbatim>\<open>load\<close> and mount
    effect, and the read-after-write properties of bookings and of the session.
  \<^item> \<open>Routing\<close> (\<^verbatim>\<open>App.jsx\<close>, \<^verbatim>\<open>Navbar.jsx\<close>): the route table as React Router matches
    it (\<open>app_route\<close>), the catch-all redirect (\<open>app_location\<close>), the navigation bar's
    active link, and the renders of \<^verbatim>\<open>App.jsx\<close> and \<^verbatim>\<open>Home.jsx\<close> (which holds no state
    of its own and renders the AI prompt box).
  \<^item> \<open>LoginPage\<close> (\<^verbatim>\<open>Login.jsx\<close>): the login page as an event machine
    (\<open>login_step\<close>, \<open>login_reach\<close>) over edits, submit, logout, responses, leaving and
    re-entering the page; each in-flight \<^verbatim>\<open>createUser\<close> is tagged with whether it
    belongs to the mounted instance, since the continuation of a left page still writes
    \<^verbatim>\<open>localStorage\<close>.
  \<^item> \<open>Inventory\<close>: the specification's inventory contract as an abstract machine whose
    steps belong to an actor (\<open>inv_step K\<close>: stutter, or take an available copy of a book in
    \<open>K\<close> and record a booking), the abstraction \<open>inv_of\<close> of the server state, and the
    invariant \<open>page_requests_ok\<close> of the book page's in-flight requests (the \<^verbatim>\<open>getBook\<close>
    of \<^verbatim>\<open>load\<close>, the \<^verbatim>\<open>summarize\<close> of \<^verbatim>\<open>handleSummarize\<close>, the \<^verbatim>\<open>createBooking\<close> of
    the form, all for \<^verbatim>\<open>Number(id)\<close>), under which every step of \<open>System\<close> is a step of
    the contract whose book is the page's own unless another client acts.
  \<^item> \<open>AISystem\<close>: the AI prompt box composed with the server's AI endpoints
    (\<open>ai_sys_step\<close>, \<open>ai_sys_reach\<close>): user events, delivery and loss of any in-flight
    request.
  \<^item> \<open>CatalogSystem\<close>: the book list composed with the server's catalog
    (\<open>list_sys_step\<close>, \<open>list_sys_reach\<close>): user events, delivery and loss of any in-flight
    search, and other clients' requests.
  \<^item> \<open>MyBookingsSystem\<close>: the bookings page as an event machine (\<open>mb_step\<close>: edits, Load
    clicks, any number of loads in flight answered in any order) and composed with the
    server (\<open>mb_sys_step\<close>, \<open>mb_sys_reach\<close>).
  \<^item> \<open>Accounts\<close>: the Login page's sign-up with the server's \<^verbatim>\<open>/users/\<close> endpoint and the
    booking form mounted afterwards; the Login page composed with the server over runs
    (\<open>login_sys_step\<close>, \<open>login_sys_reach\<close>), with the session invariant \<open>session_ok\<close>.

  \<^bold>\<open>How asynchronous code is modelled.\<close> An \<^verbatim>\<open>async\<close> handler is split at its
  \<^verbatim>\<open>await\<close>: the first definition (named as the handler) runs the synchronous prefix and
  returns the request it sends, if any; the second (\<open>_done\<close>) runs the \<^verbatim>\<open>try\<close> rest,
  \<^verbatim>\<open>catch\<close> and \<^verbatim>\<open>finally\<close> blocks on the call's outcome. React state updates of one
  continuation are applied together (React 18 batches them), after which the page is
  re-rendered; \<open>reconcile\<close> mounts or unmounts the child form as the render does. In-flight
  requests are a list; a response may arrive for any of them at any time, which models
  completion-order delivery and the absence of cancellation. A response of the shape that
  does not belong to the request is not delivered (the server follows its interface).
  No loop of the client needs fuel: every handler is a finite sequence of updates, and the
  event machines are relations over arbitrary finite runs.

  \<^bold>\<open>What is proved\<close> (claims C1\<dots>C40, each after a text block naming it):
  \<^item> booking workflow: a successful booking refetches the book (C1), a rejected one does not
    and shows the server's message (C2), a submission without a user id sends nothing (C3);
  \<^item> summarization: unreachable for a book without a summary (C4), and a generated summary
    changes only the AI summary (C5);
  \<^item> invariants by rule induction over the page's reachable states: the booking form never
    holds its success message (C6, a defect: the refetch unmounts the form in the same
    update), and an error view is permanent (C7, no handler clears \<open>error\<close>);
  \<^item> session consistency: over every run of the Login page with the server, the user in
    \<^verbatim>\<open>localStorage['user']\<close> is exactly the server's record of that user (C8);
  \<^item> AI prompt box: at most one request per flow is in flight (C9, so the specification's
    out-of-order race cannot be produced through the buttons), results and failures are
    rendered as the code says (C11, C12), and the two flows share one error line (C13);
  \<^item> book list with the server: every book the list shows is within the inventory bound
    (C10), and a delivered search shows exactly the server's matching books in catalog
    order (C29);
  \<^item> page and server: the displayed and stored availability stay within
    \<open>0 \<le> available \<le> total\<close> in every reachable state (C14), a refetch shows the server's
    current book (C15), a booking on \<open>N > 0\<close> copies followed by its refetch shows
    \<open>N - 1\<close> (C16, with the specification's scenario \<open>3 \<mapsto> 2\<close> as its witness), a booking
    on no copy is rejected without effect (C17), and a lost booking response leaves the
    page stale while the server has taken the copy (C18); the specification's
    summarization scenario on book \<^verbatim>\<open>12\<close> runs end to end through page and server
    (lemma \<open>summarize_scenario\<close>);
  \<^item> book list: the search request (C19), last-arrival-wins between searches (C20), the
    loading line never without a request (C21) but a request possibly without the
    loading line (C22, a defect), and a permanent error line (C23);
  \<^item> bookings page and session: a new booking is listed for its user through the
    \<^verbatim>\<open>/bookings/user/<id>\<close> round trip (C24), the session is read back after login and
    cleared by logout (C25), and a stored id \<open>0\<close> counts as missing (C26);
  \<^item> bookings page with the server: a delivered load lists exactly the server's bookings
    of the id it was sent for (C27), and since Load stays enabled while a load is in
    flight, the answer of an earlier click can win, leaving the list showing another
    user's bookings than the id field (C31, a specification gap);
  \<^item> navigation: a card's link leads to its book's page, whose request the server answers
    with that book (C28), and no link is active on \<^verbatim>\<open>/books/\<close> or \<^verbatim>\<open>/books/<id>\<close> (C30);
  \<^item> login page: at most one sign-up of the mounted page in flight, exactly while it shows
    loading (C32); a sign-up answered after the page was left still logs the user in (C33,
    a specification gap); every sign-up sent has non-empty name, email and password (C34);
  \<^item> the AI box with the server: a delivered summary answers the text sent at the click,
    whatever the textarea holds now (C35);
  \<^item> refinement: the book page with the server refines the inventory contract, each step
    of the page taking at most one copy of its own book \<^verbatim>\<open>Number(id)\<close> (C36); and the
    page's AI summary is generated from the server's stored summary of that book (C37);
  \<^item> liveness of the book list: once every in-flight search is answered, whatever the
    answers, the page settles with no loading line (C38);
  \<^item> the AI box with the server: a delivered recommendation shows the recommender's
    answer and never an error (C39);
  \<^item> accounts: an account the server creates from the Login page keeps the user table well
    formed, holds the new user, and a booking form mounted afterwards books for it (C40).
  C14 and C10 are the bounds properties. The client has no loop of its own, so no claim
  is about termination: every handler is a finite sequence of updates, and the only
  recursive functions (\<open>strip_trailing_slashes\<close>, the \<open>_run\<close> functions) recurse on a
  shorter list.

  \<^bold>\<open>Plan.\<close> Still to model: unmounting the book page and the bookings page mid-request
  (route changes), whose late responses React drops.

  \<^bold>\<open>Not modelled.\<close> Markup and styling; \<^verbatim>\<open>toLocaleString\<close> of booking dates (it
  depends on the browser's locale); how the server's search matches a query (left
  open as \<open>srv_match\<close>: the specification does not define it), and uniqueness of e-mail
  addresses (the specification does not state it); \<^verbatim>\<open>Number\<close> on fractions and exponent
  notation (ids are integers); the JSON text of \<^verbatim>\<open>localStorage\<close> (the stored record is read back
  as written).
\<close>

end
